(* ===== verification/Prelude.thy ===== *)
theory Prelude
  imports
    Main
    "HOL-Library.Word"
    "HOL-Library.Char_ord"
    "HOL-Library.List_Lexorder"
    "HOL-Library.Sublist"
begin

text \<open>
  The shared base of the development: the C++ scalar and string types the program uses, the
  character classes of \<open><cctype>\<close> in the "C" locale, the \<open>std::string\<close> searches, decimal
  printing, saturating budgets on unsigned 64-bit counters, \<open>std::map\<close> as a key-sorted
  association list behind an interface, and the state-and-exception monad with its
  Hoare rules in which the stateful components are written.
\<close>

unbundle bit_operations_syntax

section \<open>Collections of rewrite and proof rules\<close>

named_theorems ctype_defs \<open>definitions of the character classes\<close>
named_theorems sem_simps \<open>evaluation rules of the state-and-exception monad\<close>
named_theorems hoare \<open>proof rules of the state-and-exception monad\<close>
named_theorems keeps_intros \<open>structural rules for invariants of operations\<close>

section \<open>Scalar types\<close>

type_synonym u8 = "8 word"
type_synonym u32 = "32 word"
type_synonym u64 = "64 word"
type_synonym byte_string = "char list"

text \<open>\<open>size()\<close> of a container, as the 64-bit \<open>size_t\<close> it is.\<close>

definition size_u64 :: "'a list \<Rightarrow> u64" where
  "size_u64 xs = of_nat (length xs)"

lemma unat_size_u64: "length xs < 2 ^ 64 \<Longrightarrow> unat (size_u64 xs) = length xs"
  by (simp add: size_u64_def unat_of_nat)

lemma unat_size_u64_le: "unat (size_u64 xs) \<le> length xs"
  by (simp add: size_u64_def unat_of_nat)

subsection \<open>Budgets\<close>

text \<open>
  The idiom \<open>limit - std::min(used, limit)\<close> on \<open>uint64_t\<close>, which the query client, the
  transport and the row accounting use for "what is left of a budget".
\<close>

definition budget :: "u64 \<Rightarrow> u64 \<Rightarrow> u64" where
  "budget limit used = limit - min used limit"

lemma unat_budget: "unat (budget limit used) = unat limit - unat used"
proof (cases "used \<le> limit")
  case True
  then show ?thesis by (simp add: budget_def min_def unat_sub)
next
  case False
  then show ?thesis by (simp add: budget_def min_def word_le_nat_alt)
qed

lemma unat_mono_iff: "(a::u64) \<le> b \<longleftrightarrow> unat a \<le> unat b"
  by (simp add: word_le_nat_alt)

lemma budget_spend:
  assumes "n \<le> budget limit used" and "used \<le> limit"
  shows "unat (used + n) = unat used + unat n" and "used + n \<le> limit"
proof -
  have le: "unat used + unat n \<le> unat limit"
    using assms by (simp add: unat_mono_iff unat_budget)
  have "unat limit < 2 ^ 64"
    using unsigned_less [of limit] by simp
  with le have "unat used + unat n < 2 ^ LENGTH(64)" by simp
  then show sum: "unat (used + n) = unat used + unat n"
    by (rule unat_add_lem [THEN iffD1])
  show "used + n \<le> limit"
    using le by (simp add: unat_mono_iff sum)
qed

lemma unat_Suc_u64: "(n::u64) < m \<Longrightarrow> unat (n + 1) = Suc (unat n)"
proof -
  assume "n < m"
  then have "unat n < unat m" by (simp add: word_less_nat_alt)
  moreover have "unat m < 2 ^ 64" using unsigned_less [of m] by simp
  ultimately have "unat n + unat (1::u64) < 2 ^ LENGTH(64)" by simp
  then have "unat (n + 1) = unat n + unat (1::u64)" by (rule unat_add_lem [THEN iffD1])
  then show ?thesis by simp
qed

section \<open>Characters\<close>

text \<open>
  A C++ \<open>char\<close> is a byte. \<open>code\<close> is its value as \<open>unsigned char\<close>; the predicates are
  those of \<open><cctype>\<close> in the "C" locale, where every byte above 127 is in no class.
\<close>

abbreviation code :: "char \<Rightarrow> nat" where
  "code c \<equiv> of_char c"

definition isdigit :: "char \<Rightarrow> bool" where
  [ctype_defs]: "isdigit c \<longleftrightarrow> 48 \<le> code c \<and> code c \<le> 57"

definition isupper :: "char \<Rightarrow> bool" where
  [ctype_defs]: "isupper c \<longleftrightarrow> 65 \<le> code c \<and> code c \<le> 90"

definition islower :: "char \<Rightarrow> bool" where
  [ctype_defs]: "islower c \<longleftrightarrow> 97 \<le> code c \<and> code c \<le> 122"

definition isalpha :: "char \<Rightarrow> bool" where
  [ctype_defs]: "isalpha c \<longleftrightarrow> isupper c \<or> islower c"

definition isalnum :: "char \<Rightarrow> bool" where
  [ctype_defs]: "isalnum c \<longleftrightarrow> isalpha c \<or> isdigit c"

definition iscntrl :: "char \<Rightarrow> bool" where
  [ctype_defs]: "iscntrl c \<longleftrightarrow> code c < 32 \<or> code c = 127"

definition tolower :: "char \<Rightarrow> char" where
  "tolower c = (if isupper c then char_of (code c + 32) else c)"

definition toupper :: "char \<Rightarrow> char" where
  "toupper c = (if islower c then char_of (code c - 32) else c)"

lemma code_less_256 [simp]: "code c < 256"
  by (rule nat_of_char_less_256)

lemma code_char_of [simp]: "n < 256 \<Longrightarrow> code (char_of n) = n"
  by simp

lemma char_eq_iff_code: "c = d \<longleftrightarrow> code c = code d"
  by simp

lemma isalnum_hyphen [simp]: "\<not> isalnum CHR ''-''"
  by (simp add: ctype_defs)

lemma isalnum_not_upper: "\<not> isupper c \<Longrightarrow> isalnum c \<longleftrightarrow> islower c \<or> isdigit c"
  by (simp add: isalnum_def isalpha_def)

lemma code_tolower: "code (tolower c) = (if isupper c then code c + 32 else code c)"
  by (auto simp: tolower_def ctype_defs)

lemma code_toupper: "code (toupper c) = (if islower c then code c - 32 else code c)"
  by (auto simp: toupper_def ctype_defs)

lemma tolower_tolower [simp]: "tolower (tolower c) = tolower c"
  by (auto simp: char_eq_iff_code code_tolower ctype_defs)

lemma toupper_toupper [simp]: "toupper (toupper c) = toupper c"
  by (auto simp: char_eq_iff_code code_toupper ctype_defs)

lemma toupper_tolower [simp]: "toupper (tolower c) = toupper c"
  by (auto simp: char_eq_iff_code code_tolower code_toupper ctype_defs)

text \<open>\<open>std::transform\<close> with \<open>std::tolower\<close> and \<open>std::toupper\<close>, which six places of the program use.\<close>

definition lower_string :: "byte_string \<Rightarrow> byte_string" where
  "lower_string = map tolower"

definition upper_string :: "byte_string \<Rightarrow> byte_string" where
  "upper_string = map toupper"

section \<open>Strings\<close>

subsection \<open>Searches of \<open>std::string\<close>\<close>

text \<open>
  \<open>str_find p s\<close> is \<open>s.find(p)\<close> and \<open>str_find_if P s\<close> is \<open>s.find_first_of\<close>; \<open>None\<close> is
  \<open>std::string::npos\<close>. \<open>s.rfind(p, 0) == 0\<close> and \<open>s.compare(0, n, p) == 0\<close> are \<open>prefix p s\<close>;
  comparing the last \<open>n\<close> characters with \<open>p\<close> is \<open>suffix p s\<close>.
\<close>

fun str_find :: "'a list \<Rightarrow> 'a list \<Rightarrow> nat option" where
  "str_find p [] = (if p = [] then Some 0 else None)"
| "str_find p (c # s) = (if prefix p (c # s) then Some 0 else map_option Suc (str_find p s))"

text \<open>\<open>s.find(p, k)\<close> for \<open>k \<le> s.size()\<close>.\<close>

definition str_find_at :: "'a list \<Rightarrow> 'a list \<Rightarrow> nat \<Rightarrow> nat option" where
  "str_find_at p s k = map_option (\<lambda>i. k + i) (str_find p (drop k s))"

fun str_find_if :: "('a \<Rightarrow> bool) \<Rightarrow> 'a list \<Rightarrow> nat option" where
  "str_find_if P [] = None"
| "str_find_if P (c # s) = (if P c then Some 0 else map_option Suc (str_find_if P s))"

lemma str_find_Some:
  "str_find p s = Some i \<Longrightarrow> s = take i s @ p @ drop (i + length p) s \<and> i + length p \<le> length s"
proof (induction s arbitrary: i)
  case Nil
  then show ?case by (auto split: if_splits)
next
  case (Cons c s)
  show ?case
  proof (cases "prefix p (c # s)")
    case True
    then obtain t where "c # s = p @ t" by (auto simp: prefix_def)
    moreover from True Cons.prems have "i = 0" by simp
    ultimately show ?thesis by simp
  next
    case False
    with Cons.prems obtain j where "str_find p s = Some j" "i = Suc j" by auto
    with Cons.IH show ?thesis by auto
  qed
qed

lemma str_find_None: "str_find p s = None \<longleftrightarrow> \<not> sublist p s"
  by (induction s) (auto simp: sublist_Cons_right)

lemma str_find_first:
  "str_find p s = Some i \<Longrightarrow> j < i \<Longrightarrow> \<not> prefix p (drop j s)"
proof (induction s arbitrary: i j)
  case Nil
  then show ?case by (auto split: if_splits)
next
  case (Cons c s)
  then show ?case by (cases j) (auto split: if_splits)
qed

lemma str_find_eqI:
  assumes "prefix p (drop i s)" "i \<le> length s" "\<And>j. j < i \<Longrightarrow> \<not> prefix p (drop j s)"
  shows "str_find p s = Some i"
  using assms
proof (induction s arbitrary: i)
  case Nil
  then show ?case by (auto simp: prefix_def)
next
  case (Cons c s)
  show ?case
  proof (cases i)
    case 0
    with Cons.prems show ?thesis by simp
  next
    case (Suc k)
    have "str_find p s = Some k"
    proof (rule Cons.IH)
      show "\<not> prefix p (drop j s)" if "j < k" for j
        using Cons.prems(3) [of "Suc j"] that Suc by simp
    qed (use Cons.prems Suc in auto)
    moreover have "\<not> prefix p (c # s)" using Cons.prems(3) [of 0] Suc by simp
    ultimately show ?thesis using Suc by simp
  qed
qed

lemma str_find_if_None: "str_find_if P s = None \<longleftrightarrow> (\<forall>c \<in> set s. \<not> P c)"
  by (induction s) auto

lemma str_find_if_Some:
  "str_find_if P s = Some i \<Longrightarrow>
     i < length s \<and> P (s ! i) \<and> (\<forall>c \<in> set (take i s). \<not> P c)"
  by (induction s arbitrary: i) (auto split: if_splits)

lemma length_tl_dropWhile [simp]:
  "rest \<noteq> [] \<Longrightarrow> length (dropWhile P rest) - Suc 0 < length rest"
  using length_dropWhile_le [of P rest] by (cases rest) auto

subsection \<open>Splitting at a separator\<close>

text \<open>The fields of a string between occurrences of a separator, the empty ones included.\<close>

fun split_on :: "'a \<Rightarrow> 'a list \<Rightarrow> 'a list list" where
  "split_on d [] = [[]]"
| "split_on d (c # s) =
     (case split_on d s of
        [] \<Rightarrow> [[c]]
      | f # fs \<Rightarrow> if c = d then [] # f # fs else (c # f) # fs)"

lemma split_on_nonempty [simp]: "split_on d s \<noteq> []"
  by (cases s) (auto split: list.split)

lemma split_on_Cons:
  "split_on d (c # s) =
     (if c = d then [] # split_on d s else (c # hd (split_on d s)) # tl (split_on d s))"
  using split_on_nonempty [of d s] by (auto split: list.split)

declare split_on.simps(2) [simp del] split_on_Cons [simp]

lemma split_on_unfold:
  "split_on d s =
     (let field = takeWhile (\<lambda>c. c \<noteq> d) s; after = dropWhile (\<lambda>c. c \<noteq> d) s
      in if after = [] then [field] else field # split_on d (tl after))"
  by (induction s) (auto simp: Let_def)

lemma split_on_absent [simp]: "d \<notin> set s \<Longrightarrow> split_on d s = [s]"
  by (induction s) auto

lemma split_on_append: "split_on d (s @ d # t) = split_on d s @ split_on d t"
  by (induction s) auto

fun join_on :: "'a \<Rightarrow> 'a list list \<Rightarrow> 'a list" where
  "join_on d [] = []"
| "join_on d [f] = f"
| "join_on d (f # g # fs) = f @ d # join_on d (g # fs)"

lemma split_on_join_on:
  "fs \<noteq> [] \<Longrightarrow> list_all (\<lambda>f. d \<notin> set f) fs \<Longrightarrow> split_on d (join_on d fs) = fs"
proof (induction d fs rule: join_on.induct)
  case (3 d f g fs)
  then show ?case using split_on_append [of d f "join_on d (g # fs)"] by (simp del: split_on_Cons)
qed simp_all

lemma set_split_on: "c \<in> set s \<longleftrightarrow> (c = d \<and> d \<in> set s) \<or> (\<exists>f \<in> set (split_on d s). c \<in> set f \<and> c \<noteq> d)"
proof (induction s)
  case (Cons a s)
  obtain f fs where "split_on d s = f # fs" by (cases "split_on d s") auto
  with Cons show ?case by (cases "a = d") auto
qed simp

lemma split_on_no_sep: "f \<in> set (split_on d s) \<Longrightarrow> d \<notin> set f"
proof (induction s arbitrary: f)
  case (Cons a s)
  obtain g gs where "split_on d s = g # gs" by (cases "split_on d s") auto
  with Cons show ?case by (auto split: if_splits)
qed simp

lemma split_on_subset: "f \<in> set (split_on d s) \<Longrightarrow> c \<in> set f \<Longrightarrow> c \<in> set s"
proof -
  assume f: "f \<in> set (split_on d s)" "c \<in> set f"
  then have "c \<noteq> d" using split_on_no_sep by fast
  with f show ?thesis using set_split_on [of c s d] by auto
qed

lemma split_on_snoc:
  "c \<noteq> d \<Longrightarrow> split_on d (s @ [c]) = butlast (split_on d s) @ [last (split_on d s) @ [c]]"
proof (induction s)
  case (Cons a s)
  obtain f fs where "split_on d s = f # fs" by (cases "split_on d s") auto
  with Cons show ?case by (cases fs) auto
qed simp

lemma last_split_on: "last (split_on d s) = [] \<longleftrightarrow> s = [] \<or> last s = d"
proof (cases s rule: rev_cases)
  case (snoc t c)
  then show ?thesis
    using split_on_append [of d t "[]"] by (cases "c = d") (auto simp: split_on_snoc)
qed simp

subsection \<open>Decimal numbers\<close>

text \<open>\<open>std::to_string\<close> of an unsigned number, and its inverse on digit strings.\<close>

definition digit_char :: "nat \<Rightarrow> char" where
  "digit_char d = char_of (48 + d)"

fun to_string :: "nat \<Rightarrow> byte_string" where
  "to_string n = (if n < 10 then [digit_char n] else to_string (n div 10) @ [digit_char (n mod 10)])"

declare to_string.simps [simp del]

definition digits_value :: "byte_string \<Rightarrow> nat" where
  "digits_value s = foldl (\<lambda>a c. 10 * a + (code c - 48)) 0 s"

lemma isdigit_digit_char [simp]: "d < 10 \<Longrightarrow> isdigit (digit_char d)"
  by (simp add: digit_char_def isdigit_def)

lemma code_digit_char [simp]: "d < 10 \<Longrightarrow> code (digit_char d) = 48 + d"
  by (simp add: digit_char_def)

lemma digits_value_snoc [simp]: "digits_value (s @ [c]) = 10 * digits_value s + (code c - 48)"
  by (simp add: digits_value_def)

lemma to_string_digits: "\<forall>c \<in> set (to_string n). isdigit c"
proof (induction n rule: to_string.induct)
  case (1 n)
  then show ?case by (subst to_string.simps) auto
qed

lemma to_string_nonempty [simp]: "to_string n \<noteq> []"
  by (subst to_string.simps) simp

lemma digits_value_to_string [simp]: "digits_value (to_string n) = n"
proof (induction n rule: to_string.induct)
  case (1 n)
  show ?case
  proof (cases "n < 10")
    case True
    then show ?thesis by (subst to_string.simps) (simp add: digits_value_def)
  next
    case False
    with 1 show ?thesis by (subst to_string.simps) simp
  qed
qed

lemma to_string_inj: "to_string m = to_string n \<Longrightarrow> m = n"
  by (metis digits_value_to_string)

lemma to_string_length:
  "n < 10 ^ k \<Longrightarrow> 0 < k \<Longrightarrow> length (to_string n) \<le> k"
proof (induction n arbitrary: k rule: to_string.induct)
  case (1 n)
  show ?case
  proof (cases "n < 10")
    case True
    with 1 show ?thesis by (subst to_string.simps) simp
  next
    case False
    with "1.prems" have k: "1 < k" by (cases "k = 1") auto
    have "10 ^ k = 10 * (10::nat) ^ (k - 1)" using k by (cases k) auto
    with "1.prems" have "n div 10 < 10 ^ (k - 1)" by auto
    with "1.IH" False k have "length (to_string (n div 10)) \<le> k - 1" by simp
    with False k show ?thesis by (subst to_string.simps) simp
  qed
qed

subsection \<open>Hexadecimal digits\<close>

definition hex_value :: "char \<Rightarrow> nat option" where
  "hex_value c =
     (if isdigit c then Some (code c - 48)
      else if 65 \<le> code c \<and> code c \<le> 70 then Some (code c - 65 + 10)
      else if 97 \<le> code c \<and> code c \<le> 102 then Some (code c - 97 + 10)
      else None)"

lemma hex_value_lower: "n < 16 \<Longrightarrow> hex_value (''0123456789abcdef'' ! n) = Some n"
proof -
  have "list_all (\<lambda>n. hex_value (''0123456789abcdef'' ! n) = Some n) [0..<16]" by code_simp
  then show "n < 16 \<Longrightarrow> ?thesis" by (simp add: list_all_iff)
qed

lemma hex_value_upper: "n < 16 \<Longrightarrow> hex_value (''0123456789ABCDEF'' ! n) = Some n"
proof -
  have "list_all (\<lambda>n. hex_value (''0123456789ABCDEF'' ! n) = Some n) [0..<16]" by code_simp
  then show "n < 16 \<Longrightarrow> ?thesis" by (simp add: list_all_iff)
qed

section \<open>Ordered maps\<close>

text \<open>
  \<open>std::map\<close> with a string key iterates in key order (\<open>char_traits<char>\<close> compares bytes as
  unsigned, which is the order of \<open>HOL-Library.Char_ord\<close> and \<open>HOL-Library.List_Lexorder\<close>). The
  interface below is what the session registry relies on; the association lists sorted by key
  provide it.
\<close>

locale ordered_map =
  fixes find :: "'m \<Rightarrow> 'k \<Rightarrow> 'v option"
    and put :: "'k \<Rightarrow> 'v \<Rightarrow> 'm \<Rightarrow> 'm"
    and erase :: "'k \<Rightarrow> 'm \<Rightarrow> 'm"
    and size :: "'m \<Rightarrow> nat"
    and invar :: "'m \<Rightarrow> bool"
  assumes find_put: "find (put k v m) k' = (if k' = k then Some v else find m k')"
    and find_erase: "find (erase k m) k' = (if k' = k then None else find m k')"
    and invar_put: "invar m \<Longrightarrow> invar (put k v m)"
    and invar_erase: "invar m \<Longrightarrow> invar (erase k m)"
    and size_put: "invar m \<Longrightarrow> size (put k v m) = (if find m k = None then Suc (size m) else size m)"
    and size_erase: "invar m \<Longrightarrow> size (erase k m) = (if find m k = None then size m else size m - 1)"
begin

lemma find_put_same [simp]: "find (put k v m) k = Some v"
  by (simp add: find_put)

lemma find_put_other: "k' \<noteq> k \<Longrightarrow> find (put k v m) k' = find m k'"
  by (simp add: find_put)

lemma find_erase_same [simp]: "find (erase k m) k = None"
  by (simp add: find_erase)

lemma erase_Some_D: "find (erase k m) k' = Some v \<Longrightarrow> k' \<noteq> k \<and> find m k' = Some v"
  by (simp add: find_erase split: if_splits)

lemma size_put_overwrite: "invar m \<Longrightarrow> find m k = Some w \<Longrightarrow> size (put k v m) = size m"
  by (simp add: size_put)

lemma size_erase_le: "invar m \<Longrightarrow> size (erase k m) \<le> size m"
  by (simp add: size_erase)

end

fun map_put :: "'k::linorder \<Rightarrow> 'v \<Rightarrow> ('k \<times> 'v) list \<Rightarrow> ('k \<times> 'v) list" where
  "map_put k v [] = [(k, v)]"
| "map_put k v ((k', v') # m) =
     (if k < k' then (k, v) # (k', v') # m
      else if k = k' then (k, v) # m
      else (k', v') # map_put k v m)"

definition map_erase :: "'k \<Rightarrow> ('k \<times> 'v) list \<Rightarrow> ('k \<times> 'v) list" where
  "map_erase k m = filter (\<lambda>e. fst e \<noteq> k) m"

definition map_wf :: "('k::linorder \<times> 'v) list \<Rightarrow> bool" where
  "map_wf m \<longleftrightarrow> sorted_wrt (<) (map fst m)"

lemma map_of_map_put: "map_of (map_put k v m) k' = (if k' = k then Some v else map_of m k')"
  by (induction m) auto

lemma map_of_map_erase: "map_of (map_erase k m) k' = (if k' = k then None else map_of m k')"
  by (induction m) (auto simp: map_erase_def)

lemma fst_set_map_put: "fst ` set (map_put k v m) = insert k (fst ` set m)"
proof (induction m)
  case (Cons e m)
  then show ?case by (cases e) (simp add: insert_commute)
qed simp

lemma map_wf_Nil [simp]: "map_wf []"
  by (simp add: map_wf_def)

lemma map_wf_Cons [simp]: "map_wf (e # m) \<longleftrightarrow> (\<forall>k \<in> fst ` set m. fst e < k) \<and> map_wf m"
  by (auto simp: map_wf_def)

lemma map_wf_map_put: "map_wf m \<Longrightarrow> map_wf (map_put k v m)"
proof (induction m)
  case (Cons e m)
  then show ?case by (cases e) (auto simp: fst_set_map_put)
qed simp

lemma map_wf_filter: "map_wf m \<Longrightarrow> map_wf (filter P m)"
  by (induction m) auto

lemma map_wf_map_values: "map_wf (map (\<lambda>(k, v). (k, f k v)) m) = map_wf m"
  by (simp add: map_wf_def comp_def case_prod_beta)

lemma map_wf_distinct: "map_wf m \<Longrightarrow> distinct (map fst m)"
  by (induction m) auto

lemma length_map_put:
  "map_wf m \<Longrightarrow> length (map_put k v m) = (if map_of m k = None then Suc (length m) else length m)"
proof (induction m)
  case (Cons e m)
  then show ?case by (cases e) (auto simp: map_of_eq_None_iff)
qed simp

lemma length_map_erase:
  "map_wf m \<Longrightarrow> length (map_erase k m) = (if map_of m k = None then length m else length m - 1)"
proof (induction m)
  case (Cons e m)
  have "map_erase k m = m" if "k \<notin> fst ` set m"
    using that by (auto simp: map_erase_def filter_id_conv)
  with Cons show ?case
    by (cases e) (auto simp: map_erase_def map_of_eq_None_iff length_Suc_conv
        dest: map_of_SomeD split: if_splits intro!: Suc_pred)
qed (simp add: map_erase_def)

lemma map_wf_map_erase: "map_wf m \<Longrightarrow> map_wf (map_erase k m)"
  by (simp add: map_erase_def map_wf_filter)

interpretation smap: ordered_map map_of map_put map_erase length map_wf
  by unfold_locales
    (simp_all add: map_of_map_put map_of_map_erase map_wf_map_put map_wf_map_erase
      length_map_put length_map_erase)

section \<open>State and exceptions\<close>

text \<open>
  A C++ operation on an object is a function from the state to an outcome and the new state:
  \<open>Inl e\<close> is a thrown exception (the state keeps what was done before it was thrown), \<open>Inr a\<close>
  a normal return. \<open>sbind\<close> is sequencing, \<open>sthen\<close> the same where the value is not used,
  \<open>scatch\<close> a \<open>try\<close> with a \<open>catch (...)\<close> handler, \<open>sattempt\<close> one whose code behind the block runs only where it did not throw.
\<close>

type_synonym ('s, 'e, 'a) sem = "'s \<Rightarrow> ('e + 'a) \<times> 's"

definition sret :: "'a \<Rightarrow> ('s, 'e, 'a) sem" where
  "sret a s = (Inr a, s)"

definition sthrow :: "'e \<Rightarrow> ('s, 'e, 'a) sem" where
  "sthrow e s = (Inl e, s)"

definition sbind :: "('s, 'e, 'a) sem \<Rightarrow> ('a \<Rightarrow> ('s, 'e, 'b) sem) \<Rightarrow> ('s, 'e, 'b) sem" where
  "sbind m k s = (case m s of (Inl e, s') \<Rightarrow> (Inl e, s') | (Inr a, s') \<Rightarrow> k a s')"

definition sthen :: "('s, 'e, 'a) sem \<Rightarrow> ('s, 'e, 'b) sem \<Rightarrow> ('s, 'e, 'b) sem" where
  "sthen m n = sbind m (\<lambda>_. n)"

definition scatch :: "('s, 'e, 'a) sem \<Rightarrow> ('e \<Rightarrow> ('s, 'f, 'a) sem) \<Rightarrow> ('s, 'f, 'a) sem" where
  "scatch m h s = (case m s of (Inl e, s') \<Rightarrow> h e s' | (Inr a, s') \<Rightarrow> (Inr a, s'))"

definition sattempt ::
  "('s, 'e, 'a) sem \<Rightarrow> ('e \<Rightarrow> ('s, 'f, 'b) sem) \<Rightarrow> ('a \<Rightarrow> ('s, 'f, 'b) sem) \<Rightarrow> ('s, 'f, 'b) sem" where
  "sattempt m h k s = (case m s of (Inl e, s') \<Rightarrow> h e s' | (Inr a, s') \<Rightarrow> k a s')"

definition sgets :: "('s \<Rightarrow> 'a) \<Rightarrow> ('s, 'e, 'a) sem" where
  "sgets f s = (Inr (f s), s)"

definition smodify :: "('s \<Rightarrow> 's) \<Rightarrow> ('s, 'e, unit) sem" where
  "smodify f s = (Inr (), f s)"

definition sguard :: "('s \<Rightarrow> bool) \<Rightarrow> 'e \<Rightarrow> ('s, 'e, unit) sem" where
  "sguard bad e s = (if bad s then (Inl e, s) else (Inr (), s))"

definition swhen :: "bool \<Rightarrow> ('s, 'e, unit) sem \<Rightarrow> ('s, 'e, unit) sem" where
  "swhen b m = (if b then m else sret ())"

lemmas sem_defs = sret_def sthrow_def sbind_def sthen_def scatch_def sattempt_def sgets_def smodify_def
  sguard_def swhen_def

lemma sbind_run [sem_simps]:
  "m s = (Inr a, s') \<Longrightarrow> sbind m k s = k a s'"
  "m s = (Inl e, s') \<Longrightarrow> sbind m k s = (Inl e, s')"
  by (simp_all add: sbind_def)

lemma sbind_basic [simp]:
  "sbind (sret a) k s = k a s"
  "sbind (sthrow e) k s = (Inl e, s)"
  "sbind (sgets f) k s = k (f s) s"
  "sbind (smodify g) k' s = k' () (g s)"
  by (simp_all add: sem_defs)

lemma sbind_assoc: "sbind (sbind m f) g = sbind m (\<lambda>a. sbind (f a) g)"
  by (auto simp: sbind_def fun_eq_iff split: sum.split prod.split)

lemma run_basic [sem_simps]:
  "sret a s = (Inr a, s)"
  "sthrow e s = (Inl e, s)"
  "sgets f s = (Inr (f s), s)"
  "smodify g s = (Inr (), g s)"
  by (simp_all add: sem_defs)

text \<open>Inversion of runs that return normally.\<close>

lemma sbind_returns: "sbind m k s = (Inr b, s') \<longleftrightarrow> (\<exists>a s1. m s = (Inr a, s1) \<and> k a s1 = (Inr b, s'))"
  by (auto simp: sbind_def split: sum.split prod.split)

lemma sthen_returns:
  "sthen (sguard bad e) n s = (Inr b, s') \<longleftrightarrow> \<not> bad s \<and> n s = (Inr b, s')"
  "sthen (smodify g) n s = n (g s)"
  "sthen m n s = (Inr b, s') \<longleftrightarrow> (\<exists>a s1. m s = (Inr a, s1) \<and> n s1 = (Inr b, s'))"
  by (auto simp: sem_defs split: sum.split prod.split)

lemma atomic_returns:
  "sret a s = (Inr b, s') \<longleftrightarrow> b = a \<and> s' = s"
  "sthrow e s \<noteq> (Inr b, s')"
  "smodify g s = (Inr u, s') \<longleftrightarrow> s' = g s"
  "sgets f s = (Inr b, s') \<longleftrightarrow> b = f s \<and> s' = s"
  "sguard bad e s = (Inr u, s') \<longleftrightarrow> \<not> bad s \<and> s' = s"
  by (auto simp: sem_defs)

lemmas run_returns = sthen_returns sbind_returns atomic_returns

subsection \<open>Hoare triples\<close>

text \<open>
  \<open>triple P m Q E\<close>: from a state in \<open>P\<close>, a normal return satisfies \<open>Q\<close> and an exception
  satisfies \<open>E\<close>. Operations are total functions, so this is total correctness.
\<close>

definition triple ::
  "('s \<Rightarrow> bool) \<Rightarrow> ('s, 'e, 'a) sem \<Rightarrow> ('a \<Rightarrow> 's \<Rightarrow> bool) \<Rightarrow> ('e \<Rightarrow> 's \<Rightarrow> bool) \<Rightarrow> bool" where
  "triple P m Q E \<longleftrightarrow>
     (\<forall>s. P s \<longrightarrow> (case m s of (Inr a, s') \<Rightarrow> Q a s' | (Inl e, s') \<Rightarrow> E e s'))"

lemma tripleI:
  assumes "\<And>s a s'. P s \<Longrightarrow> m s = (Inr a, s') \<Longrightarrow> Q a s'"
    and "\<And>s e s'. P s \<Longrightarrow> m s = (Inl e, s') \<Longrightarrow> E e s'"
  shows "triple P m Q E"
  using assms by (auto simp: triple_def split: sum.splits prod.splits)

lemma triple_ret: "triple P m Q E \<Longrightarrow> P s \<Longrightarrow> m s = (Inr a, s') \<Longrightarrow> Q a s'"
  by (auto simp: triple_def dest!: spec [of _ s])

lemma triple_exn: "triple P m Q E \<Longrightarrow> P s \<Longrightarrow> m s = (Inl e, s') \<Longrightarrow> E e s'"
  by (auto simp: triple_def dest!: spec [of _ s])

lemma triple_both: "triple P m (\<lambda>_. I) (\<lambda>_. I) \<Longrightarrow> P s \<Longrightarrow> m s = (r, s') \<Longrightarrow> I s'"
  by (cases r) (auto dest: triple_ret triple_exn)

lemma triple_pre: "triple P' m Q E \<Longrightarrow> (\<And>s. P s \<Longrightarrow> P' s) \<Longrightarrow> triple P m Q E"
  by (auto simp: triple_def)

lemma triple_conseq:
  assumes "triple P' m Q' E'" "\<And>s. P s \<Longrightarrow> P' s" "\<And>a s. Q' a s \<Longrightarrow> Q a s" "\<And>e s. E' e s \<Longrightarrow> E e s"
  shows "triple P m Q E"
proof (rule tripleI)
  show "Q a s'" if "P s" "m s = (Inr a, s')" for s a s'
    using triple_ret [OF assms(1)] assms(2,3) that by blast
  show "E e s'" if "P s" "m s = (Inl e, s')" for s e s'
    using triple_exn [OF assms(1)] assms(2,4) that by blast
qed

lemma triple_bind [hoare]:
  assumes "\<And>a. triple (R a) (k a) Q E" and "triple P m R E"
  shows "triple P (sbind m k) Q E"
  using assms
  by (intro tripleI) (auto simp: sbind_def split: sum.splits prod.splits dest: triple_ret triple_exn)

lemma triple_then [hoare]: "triple R n Q E \<Longrightarrow> triple P m (\<lambda>_. R) E \<Longrightarrow> triple P (sthen m n) Q E"
  unfolding sthen_def by (rule triple_bind)

lemma triple_catch [hoare]:
  assumes "\<And>e. triple (E' e) (h e) Q E" and "triple P m Q E'"
  shows "triple P (scatch m h) Q E"
  using assms
  by (intro tripleI) (auto simp: scatch_def split: sum.splits prod.splits dest: triple_ret triple_exn)

lemma triple_attempt [hoare]:
  assumes "\<And>e. triple (F e) (h e) Q E" and "\<And>a. triple (R a) (k a) Q E" and "triple P m R F"
  shows "triple P (sattempt m h k) Q E"
  unfolding triple_def
proof (intro allI impI)
  fix s assume s: "P s"
  obtain r s1 where m: "m s = (r, s1)" by force
  show "case sattempt m h k s of (Inr a, s') \<Rightarrow> Q a s' | (Inl e, s') \<Rightarrow> E e s'"
  proof (cases r)
    case (Inl e)
    with m assms(1) [of e] triple_exn [OF assms(3) s] show ?thesis by (simp add: sattempt_def triple_def)
  next
    case (Inr a)
    with m assms(2) [of a] triple_ret [OF assms(3) s] show ?thesis by (simp add: sattempt_def triple_def)
  qed
qed

lemma triple_atomic [hoare]:
  "triple (Q a) (sret a) Q E"
  "triple (E e) (sthrow e) Q' E"
  "triple (\<lambda>s. Q (f s) s) (sgets f) Q E"
  "triple (\<lambda>s. R () (g s)) (smodify g) R E"
  "triple (\<lambda>s. if bad s then E x s else R () s) (sguard bad x) R E"
  by (auto simp: triple_def sem_defs)

lemma triple_when [hoare]:
  "triple P m Q E \<Longrightarrow> triple (\<lambda>s. if b then P s else Q () s) (swhen b m) Q E"
  by (auto simp: triple_def sem_defs)

lemma triple_if [hoare]:
  "triple P m Q E \<Longrightarrow> triple P' n Q E \<Longrightarrow>
     triple (\<lambda>s. if b then P s else P' s) (if b then m else n) Q E"
  by (auto simp: triple_def)

lemma triple_ex: "(\<And>x. triple (P x) m Q E) \<Longrightarrow> triple (\<lambda>s. \<exists>x. P x s) m Q E"
  by (fastforce simp: triple_def)

lemma triple_gets_bind:
  "(\<And>x. triple (\<lambda>s. P s \<and> f s = x) (k x) Q E) \<Longrightarrow> triple P (sbind (sgets f) k) Q E"
  by (auto simp: triple_def sem_defs)

lemma triple_weaken_post: "triple P m Q' E' \<Longrightarrow> (\<And>a s. Q' a s \<Longrightarrow> Q a s) \<Longrightarrow> (\<And>e s. E' e s \<Longrightarrow> E e s) \<Longrightarrow> triple P m Q E"
  by (rule triple_conseq)

subsection \<open>Invariants of operations\<close>

text \<open>\<open>keeps I m\<close>: \<open>m\<close> preserves the state predicate \<open>I\<close>, whether it returns or throws.\<close>

definition keeps :: "('s \<Rightarrow> bool) \<Rightarrow> ('s, 'e, 'a) sem \<Rightarrow> bool" where
  "keeps I m \<longleftrightarrow> triple I m (\<lambda>_. I) (\<lambda>_. I)"

lemma keepsI: "(\<And>s r s'. I s \<Longrightarrow> m s = (r, s') \<Longrightarrow> I s') \<Longrightarrow> keeps I m"
  by (auto simp: keeps_def intro: tripleI)

lemma keepsD: "keeps I m \<Longrightarrow> I s \<Longrightarrow> m s = (r, s') \<Longrightarrow> I s'"
  by (cases r) (auto simp: keeps_def dest: triple_ret triple_exn)

lemma keeps_snd: "keeps I m \<Longrightarrow> I s \<Longrightarrow> I (snd (m s))"
  by (rule keepsD [where r = "fst (m s)"]) auto

lemma keeps_triple: "keeps I m \<Longrightarrow> triple I m (\<lambda>_. I) (\<lambda>_. I)"
  by (simp add: keeps_def)

lemma triple_of_keeps:
  "keeps I m \<Longrightarrow> (\<And>s. P s \<Longrightarrow> I s) \<Longrightarrow> (\<And>s. I s \<Longrightarrow> J s) \<Longrightarrow> triple P m (\<lambda>_. J) (\<lambda>_. J)"
  by (rule triple_conseq [OF keeps_triple])

lemma keeps_bind [keeps_intros]: "keeps I m \<Longrightarrow> (\<And>a. keeps I (k a)) \<Longrightarrow> keeps I (sbind m k)"
  unfolding keeps_def by (rule triple_bind)

lemma keeps_then [keeps_intros]: "keeps I m \<Longrightarrow> keeps I n \<Longrightarrow> keeps I (sthen m n)"
  unfolding keeps_def by (rule triple_then)

lemma keeps_catch [keeps_intros]: "keeps I m \<Longrightarrow> (\<And>e. keeps I (h e)) \<Longrightarrow> keeps I (scatch m h)"
  unfolding keeps_def by (rule triple_catch)

lemma keeps_attempt [keeps_intros]:
  "keeps I m \<Longrightarrow> (\<And>e. keeps I (h e)) \<Longrightarrow> (\<And>a. keeps I (k a)) \<Longrightarrow> keeps I (sattempt m h k)"
  unfolding keeps_def by (rule triple_attempt)

lemma keeps_atomic [keeps_intros]:
  "keeps I (sret a)" "keeps I (sthrow e)" "keeps I (sgets f)" "keeps I (sguard bad x)"
  by (auto intro!: keepsI simp: sem_defs split: if_splits)

lemma keeps_modify [keeps_intros]: "(\<And>s. I s \<Longrightarrow> I (g s)) \<Longrightarrow> keeps I (smodify g)"
  by (auto intro!: keepsI simp: sem_defs)

lemma keeps_when [keeps_intros]: "keeps I m \<Longrightarrow> keeps I (swhen b m)"
  by (simp add: swhen_def keeps_atomic)

lemma keeps_cases [keeps_intros]:
  "(b \<Longrightarrow> keeps I m) \<Longrightarrow> (\<not> b \<Longrightarrow> keeps I n) \<Longrightarrow> keeps I (if b then m else n)"
  "keeps I n \<Longrightarrow> (\<And>x. keeps I (f x)) \<Longrightarrow> keeps I (case opt of None \<Rightarrow> n | Some x \<Rightarrow> f x)"
  "(\<And>x. keeps I (g x)) \<Longrightarrow> (\<And>y. keeps I (h y)) \<Longrightarrow> keeps I (case u of Inl x \<Rightarrow> g x | Inr y \<Rightarrow> h y)"
  by (auto split: option.splits sum.splits)

lemma keeps_conj: "keeps I m \<Longrightarrow> keeps J m \<Longrightarrow> keeps (\<lambda>s. I s \<and> J s) m"
  by (rule keepsI) (auto dest: keepsD)

lemma keeps_split:
  assumes "keeps (\<lambda>s. I s \<and> G s) m" and "\<And>s. I s \<Longrightarrow> \<not> G s \<Longrightarrow> I (snd (m s))"
  shows "keeps I m"
proof (rule keepsI)
  fix s r s' assume s: "I s" "m s = (r, s')"
  show "I s'"
  proof (cases "G s")
    case True
    with s assms(1) show ?thesis by (auto dest: keepsD)
  next
    case False
    with assms(2) [OF s(1)] s(2) show ?thesis by simp
  qed
qed

lemma triple_keeps_bind:
  assumes "keeps C m" "\<And>a. triple C (k a) Q E" "\<And>e s. C s \<Longrightarrow> E e s"
  shows "triple C (sbind m k) Q E"
proof -
  have "triple C m (\<lambda>_. C) E"
    by (rule triple_weaken_post [OF keeps_triple [OF assms(1)]]) (auto intro: assms(3))
  with assms(2) show ?thesis by (rule triple_bind)
qed

lemma triple_keeps_then:
  assumes "keeps C m" "triple C n Q E" "\<And>e s. C s \<Longrightarrow> E e s"
  shows "triple C (sthen m n) Q E"
  unfolding sthen_def using assms by (rule triple_keeps_bind)

lemma triple_guard_then:
  assumes "triple (\<lambda>s. P s \<and> \<not> bad s) n Q E" "\<And>s. P s \<Longrightarrow> bad s \<Longrightarrow> E x s"
  shows "triple P (sthen (sguard bad x) n) Q E"
  using assms by (auto simp: triple_def sem_defs)

lemma triple_modify_then:
  assumes "triple R n Q E" "\<And>s. P s \<Longrightarrow> R (g s)"
  shows "triple P (sthen (smodify g) n) Q E"
  using assms by (auto simp: triple_def sem_defs)

section \<open>Exceptions without state\<close>

text \<open>The same for code that computes a value or throws: \<open>ebind\<close> is sequencing, \<open>etraverse\<close> a loop that collects.\<close>

definition ebind :: "'e + 'a \<Rightarrow> ('a \<Rightarrow> 'e + 'b) \<Rightarrow> 'e + 'b" where
  "ebind m k = (case m of Inl e \<Rightarrow> Inl e | Inr a \<Rightarrow> k a)"

lemma ebind_simps [simp]: "ebind (Inl e) k = Inl e" "ebind (Inr a) k = k a"
  by (simp_all add: ebind_def)

lemma ebind_Inr: "ebind m k = Inr b \<longleftrightarrow> (\<exists>a. m = Inr a \<and> k a = Inr b)"
  by (cases m) simp_all

fun etraverse :: "('a \<Rightarrow> 'e + 'b) \<Rightarrow> 'a list \<Rightarrow> 'e + 'b list" where
  "etraverse f [] = Inr []"
| "etraverse f (x # xs) = ebind (f x) (\<lambda>y. ebind (etraverse f xs) (\<lambda>ys. Inr (y # ys)))"

lemma etraverse_Inr: "etraverse f xs = Inr ys \<longleftrightarrow> list_all2 (\<lambda>x y. f x = Inr y) xs ys"
  by (induction xs arbitrary: ys) (auto simp: ebind_Inr list_all2_Cons1)

lemma etraverse_map: "(\<And>x. x \<in> set xs \<Longrightarrow> f (g x) = Inr (h x)) \<Longrightarrow> etraverse f (map g xs) = Inr (map h xs)"
  by (induction xs) simp_all

lemma etraverse_result: "etraverse f xs = Inr ys \<Longrightarrow> y \<in> set ys \<Longrightarrow> \<exists>x \<in> set xs. f x = Inr y"
  by (induction xs arbitrary: ys) (auto simp: ebind_Inr)

lemma etraverse_Inl: "etraverse f xs = Inl e \<Longrightarrow> \<exists>x \<in> set xs. f x = Inl e"
proof (induction xs)
  case (Cons x xs)
  then show ?case by (cases "f x"; cases "etraverse f xs") auto
qed simp

end
