(* ===== verification/Error_Codes.thy ===== *)
theory Error_Codes
  imports Prelude
begin

text \<open>
  The stable authentication faults of \<open>error_codes.hpp\<close> and \<open>error_codes.cpp\<close>: the enumeration,
  the table \<open>SAFE_FAULTS\<close>, its lookup with the fall-back row, and the rendered message. The
  lemmas show that the table has a row for every fault, that the rows are numbered in the order
  of the enumeration, and that the code and the rendered message determine the fault.
\<close>

datatype AuthFault =
    INVALID_LOGIN_ORIGIN
  | INVALID_CLIENT_ID
  | CALLBACK_PORT_UNAVAILABLE
  | CALLBACK_PROTOCOL_ERROR
  | STATE_MISMATCH
  | USER_DENIED
  | SESSION_EXPIRED
  | NETWORK_UNAVAILABLE
  | TLS_FAILURE
  | TOKEN_EXCHANGE_FAILED
  | DATA360_EXCHANGE_FAILED
  | ORG_POLICY_DENIED
  | SECRET_NAME_INVALID
  | PERSISTENCE_FORBIDDEN
  | AUTH_SESSION_NOT_FOUND
  | AUTH_SESSION_LIMIT_REACHED
  | REAUTH_REQUIRED
  | UNSUPPORTED_PLATFORM

record SafeFault =
  sf_fault :: AuthFault
  sf_code :: byte_string
  sf_symbol :: byte_string
  sf_message :: byte_string

definition safe_fault :: "AuthFault \<Rightarrow> byte_string \<Rightarrow> byte_string \<Rightarrow> byte_string \<Rightarrow> SafeFault" where
  "safe_fault f c s m = \<lparr>sf_fault = f, sf_code = c, sf_symbol = s, sf_message = m\<rparr>"

lemma safe_fault_sel [simp]:
  "sf_fault (safe_fault f c s m) = f"
  "sf_code (safe_fault f c s m) = c"
  "sf_symbol (safe_fault f c s m) = s"
  "sf_message (safe_fault f c s m) = m"
  by (simp_all add: safe_fault_def)

definition SAFE_FAULTS :: "SafeFault list" where
  "SAFE_FAULTS =
    [safe_fault INVALID_LOGIN_ORIGIN ''D360-AUTH-001'' ''INVALID_LOGIN_ORIGIN'' ''The login origin is invalid'',
     safe_fault INVALID_CLIENT_ID ''D360-AUTH-002'' ''INVALID_CLIENT_ID'' ''The OAuth client identifier is invalid'',
     safe_fault CALLBACK_PORT_UNAVAILABLE ''D360-AUTH-003'' ''CALLBACK_PORT_UNAVAILABLE'' ''The local callback port is unavailable'',
     safe_fault CALLBACK_PROTOCOL_ERROR ''D360-AUTH-004'' ''CALLBACK_PROTOCOL_ERROR'' ''The OAuth callback was invalid'',
     safe_fault STATE_MISMATCH ''D360-AUTH-005'' ''STATE_MISMATCH'' ''The OAuth callback state did not match'',
     safe_fault USER_DENIED ''D360-AUTH-006'' ''USER_DENIED'' ''Authorization was denied'',
     safe_fault SESSION_EXPIRED ''D360-AUTH-007'' ''SESSION_EXPIRED'' ''The authorization session expired'',
     safe_fault NETWORK_UNAVAILABLE ''D360-AUTH-008'' ''NETWORK_UNAVAILABLE'' ''The authorization service is unavailable'',
     safe_fault TLS_FAILURE ''D360-AUTH-009'' ''TLS_FAILURE'' ''A secure connection could not be established'',
     safe_fault TOKEN_EXCHANGE_FAILED ''D360-AUTH-010'' ''TOKEN_EXCHANGE_FAILED'' ''The OAuth token exchange failed'',
     safe_fault DATA360_EXCHANGE_FAILED ''D360-AUTH-011'' ''DATA360_EXCHANGE_FAILED'' ''The Data 360 token exchange failed'',
     safe_fault ORG_POLICY_DENIED ''D360-AUTH-012'' ''ORG_POLICY_DENIED'' ''Organization policy denied authorization'',
     safe_fault SECRET_NAME_INVALID ''D360-AUTH-013'' ''SECRET_NAME_INVALID'' ''The secret name is invalid'',
     safe_fault PERSISTENCE_FORBIDDEN ''D360-AUTH-014'' ''PERSISTENCE_FORBIDDEN'' ''Data 360 OAuth session secrets are temporary'',
     safe_fault AUTH_SESSION_NOT_FOUND ''D360-AUTH-015'' ''AUTH_SESSION_NOT_FOUND'' ''The authorization session was not found'',
     safe_fault AUTH_SESSION_LIMIT_REACHED ''D360-AUTH-016'' ''AUTH_SESSION_LIMIT_REACHED'' ''The authorization session limit was reached'',
     safe_fault REAUTH_REQUIRED ''D360-AUTH-017'' ''REAUTH_REQUIRED'' ''Authorization is required'',
     safe_fault UNSUPPORTED_PLATFORM ''D360-AUTH-018'' ''UNSUPPORTED_PLATFORM'' ''Interactive authorization is unsupported on this platform'']"

definition AuthFaultProtocolVersion :: u32 where
  "AuthFaultProtocolVersion = 1"

fun fault_lookup :: "AuthFault \<Rightarrow> SafeFault list \<Rightarrow> SafeFault option" where
  "fault_lookup f [] = None"
| "fault_lookup f (e # es) = (if sf_fault e = f then Some e else fault_lookup f es)"

definition GetSafeFault :: "AuthFault \<Rightarrow> SafeFault" where
  "GetSafeFault f = (case fault_lookup f SAFE_FAULTS of Some e \<Rightarrow> e | None \<Rightarrow> SAFE_FAULTS ! 3)"

definition FormatSafeFault :: "AuthFault \<Rightarrow> byte_string" where
  "FormatSafeFault f =
     (let safe = GetSafeFault f in sf_code safe @ '' '' @ sf_symbol safe @ '': '' @ sf_message safe)"

text \<open>\<open>AuthFaultException\<close> carries the fault and the rendered message.\<close>

record AuthFaultException =
  afe_what :: byte_string
  afe_fault :: AuthFault

definition make_AuthFaultException :: "AuthFault \<Rightarrow> AuthFaultException" where
  "make_AuthFaultException f = \<lparr>afe_what = FormatSafeFault f, afe_fault = f\<rparr>"

section \<open>The table is complete and unambiguous\<close>

lemma fault_lookup_Some: "fault_lookup f es = Some e \<Longrightarrow> e \<in> set es \<and> sf_fault e = f"
  by (induction es) (auto split: if_splits)

lemma fault_lookup_total: "fault_lookup f SAFE_FAULTS \<noteq> None"
  by (cases f) (simp_all add: SAFE_FAULTS_def)

lemma GetSafeFault_fault [simp]: "sf_fault (GetSafeFault f) = f"
  using fault_lookup_total [of f]
  by (auto simp: GetSafeFault_def dest: fault_lookup_Some)

lemma GetSafeFault_mem: "GetSafeFault f \<in> set SAFE_FAULTS"
  using fault_lookup_total [of f]
  by (auto simp: GetSafeFault_def dest: fault_lookup_Some)

text \<open>The rows are numbered from 001 in table order.\<close>

lemma SAFE_FAULTS_numbered:
  "map sf_code SAFE_FAULTS =
     map (\<lambda>n. ''D360-AUTH-0'' @ (if n < 10 then ''0'' else []) @ to_string n) [1..<19]"
  by (simp add: SAFE_FAULTS_def upt_rec to_string.simps digit_char_def char_of_def bit_Suc_0_iff)

lemma code_rows_length: "length (sf_code (GetSafeFault f)) = 13"
proof -
  have "\<forall>e \<in> set SAFE_FAULTS. length (sf_code e) = 13"
    by (simp add: SAFE_FAULTS_def)
  then show ?thesis using GetSafeFault_mem by blast
qed

lemma codes_distinct: "distinct (map sf_code SAFE_FAULTS)"
  by (simp add: SAFE_FAULTS_def)

lemma code_determines_fault: "sf_code (GetSafeFault f) = sf_code (GetSafeFault g) \<Longrightarrow> f = g"
proof -
  assume eq: "sf_code (GetSafeFault f) = sf_code (GetSafeFault g)"
  have "inj_on sf_code (set SAFE_FAULTS)"
    using codes_distinct by (simp add: distinct_map)
  with eq have "GetSafeFault f = GetSafeFault g"
    using GetSafeFault_mem by (blast dest: inj_onD)
  then show ?thesis by (metis GetSafeFault_fault)
qed

lemma FormatSafeFault_code: "take 13 (FormatSafeFault f) = sf_code (GetSafeFault f)"
  by (simp add: FormatSafeFault_def Let_def code_rows_length)

text \<open>
  C11: every fault has its own row in \<open>SAFE_FAULTS\<close> (the fall-back row of \<open>GetSafeFault\<close> is never
  used), and the rendered message of \<open>FormatSafeFault\<close> identifies the fault: two faults render to
  the same text only if they are the same.
\<close>

theorem fault_rendering_unambiguous:
  "sf_fault (GetSafeFault f) = f \<and> (FormatSafeFault f = FormatSafeFault g \<longleftrightarrow> f = g)"
proof -
  have "f = g" if "FormatSafeFault f = FormatSafeFault g"
    using that by (intro code_determines_fault) (simp flip: FormatSafeFault_code)
  then show ?thesis by auto
qed

end
