(* ===== verification/Query_Validation.thy ===== *)
theory Query_Validation
  imports Prelude
begin

text \<open>
  The value checks at the top of \<open>query_api.cpp\<close>: the tenant URL, the query identifier, the chunk
  path, the JSON string escape of the submitted SQL and the metadata comparison, together with
  the data types of \<open>query_api.hpp\<close>. Each check is shown equivalent to a grammar written without
  cursors and searches.
\<close>

section \<open>Data of query_api.hpp\<close>

type_synonym Cell = "byte_string option"

text \<open>Headers are a \<open>std::map\<close>: an association list sorted by name.\<close>

type_synonym headers = "(byte_string \<times> byte_string) list"

record HttpRequest =
  rq_method :: byte_string
  rq_url :: byte_string
  rq_headers :: headers
  rq_body :: byte_string
  rq_timeout_ms :: u64
  rq_follow_redirects :: bool
  rq_max_response_bytes :: u64
  rq_cleanup_request :: bool

text \<open>A request with the member initializers of the struct.\<close>

definition default_HttpRequest :: HttpRequest where
  "default_HttpRequest =
     \<lparr>rq_method = [], rq_url = [], rq_headers = [], rq_body = [], rq_timeout_ms = 0,
      rq_follow_redirects = False, rq_max_response_bytes = 64 * 1024 * 1024,
      rq_cleanup_request = False\<rparr>"

record HttpResponse =
  rs_status :: int
  rs_body :: byte_string
  rs_headers :: headers

record ColumnMetadata =
  cm_name :: byte_string
  cm_type :: byte_string
  cm_nullable :: bool
  cm_has_precision :: bool
  cm_has_scale :: bool
  cm_precision :: u8
  cm_scale :: u8

record ResultChunk =
  ch_rows :: "Cell list list"
  ch_next_url :: byte_string

datatype QueryState = RUNNING | COMPLETE | FAILED

record QueryResponse =
  qr_state :: QueryState
  qr_query_id :: byte_string
  qr_safe_error_code :: byte_string
  qr_chunk_count :: u64
  qr_row_count :: u64
  qr_has_chunk_count :: bool
  qr_has_row_count :: bool
  qr_returned_rows :: u64
  qr_has_returned_rows :: bool
  qr_metadata :: "ColumnMetadata list"
  qr_chunk :: ResultChunk

definition empty_ResultChunk :: ResultChunk where
  "empty_ResultChunk = \<lparr>ch_rows = [], ch_next_url = []\<rparr>"

definition default_QueryResponse :: QueryResponse where
  "default_QueryResponse =
     \<lparr>qr_state = RUNNING, qr_query_id = [], qr_safe_error_code = [], qr_chunk_count = 0,
      qr_row_count = 0, qr_has_chunk_count = False, qr_has_row_count = False,
      qr_returned_rows = 0, qr_has_returned_rows = False, qr_metadata = [],
      qr_chunk = empty_ResultChunk\<rparr>"

record QueryCredentials =
  qc_instance_url :: byte_string
  qc_access_token :: byte_string

record QueryOptions =
  op_request_timeout_ms :: u64
  op_overall_timeout_ms :: u64
  op_poll_interval_ms :: u64
  op_max_chunks :: u64
  op_cleanup_timeout_ms :: u64
  op_max_rows :: u64
  op_max_columns :: u64
  op_max_cells :: u64
  op_max_total_response_bytes :: u64

definition default_QueryOptions :: QueryOptions where
  "default_QueryOptions =
     \<lparr>op_request_timeout_ms = 30000, op_overall_timeout_ms = 120000, op_poll_interval_ms = 250,
      op_max_chunks = 1024, op_cleanup_timeout_ms = 250, op_max_rows = 100000,
      op_max_columns = 4096, op_max_cells = 10000000,
      op_max_total_response_bytes = 256 * 1024 * 1024\<rparr>"

section \<open>The checks\<close>

fun TrimTrailingSlash :: "byte_string \<Rightarrow> byte_string" where
  "TrimTrailingSlash value =
     (if value \<noteq> [] \<and> last value = CHR ''/'' then TrimTrailingSlash (butlast value) else value)"

declare TrimTrailingSlash.simps [simp del]

text \<open>
  The walk over the dot-separated labels of a host name, which the tenant check and the origin
  check of the OAuth provider share: \<open>rest\<close> is the host from \<open>label_start\<close> on.
\<close>

function label_loop :: "(byte_string \<Rightarrow> bool) \<Rightarrow> byte_string \<Rightarrow> bool" where
  "label_loop ok rest =
     (if rest = [] then True
      else (let label = takeWhile (\<lambda>c. c \<noteq> CHR ''.'') rest;
                after = dropWhile (\<lambda>c. c \<noteq> CHR ''.'') rest
            in if \<not> ok label then False
               else if after = [] then True
               else label_loop ok (tl after)))"
  by pat_completeness auto
termination
  by (relation "measure (\<lambda>(ok, rest). length rest)") auto

declare label_loop.simps [simp del]

definition tenant_label :: "byte_string \<Rightarrow> bool" where
  "tenant_label label \<longleftrightarrow>
     \<not> (length label = 0 \<or> 63 < length label \<or> \<not> isalnum (hd label) \<or> \<not> isalnum (last label)) \<and>
     (\<forall>c \<in> set label. isalnum c \<or> c = CHR ''-'')"

definition url_delimiters :: byte_string where
  "url_delimiters = ''/?#@:'' @ [CHR 0x5C] @ ''%''"

definition IsTrustedTenantUrl :: "byte_string \<Rightarrow> bool" where
  "IsTrustedTenantUrl value =
     (if \<not> prefix ''https://'' value then False
      else let host0 = drop (length ''https://'') value;
               host = (if host0 \<noteq> [] \<and> last host0 = CHR ''/'' then butlast host0 else host0);
               expected_suffix = ''.c360a.salesforce.com''
           in if host = [] \<or> str_find_if (\<lambda>c. c \<in> set url_delimiters) host \<noteq> None then False
              else if \<exists>c \<in> set host. 0x7f < code c \<or> iscntrl c \<or> isupper c then False
              else if length host \<le> length expected_suffix \<or> \<not> suffix expected_suffix host then False
              else label_loop tenant_label host)"

definition IsSafeQueryId :: "byte_string \<Rightarrow> bool" where
  "IsSafeQueryId value =
     (if value = [] \<or> 128 < length value then False
      else \<forall>c \<in> set value. isalnum c \<or> c = CHR ''-'' \<or> c = CHR ''_'')"

definition query_prefix :: byte_string where
  "query_prefix = ''/api/v3/query/''"

definition chunks_separator :: byte_string where
  "chunks_separator = ''/chunks/''"

definition IsSafeChunkPath :: "byte_string \<Rightarrow> bool" where
  "IsSafeChunkPath value =
     (if \<not> prefix query_prefix value \<or> 256 < length value \<or>
         str_find_if (\<lambda>c. c \<in> set (CHR 0x5C # ''?#%'')) value \<noteq> None \<or>
         str_find ''..'' value \<noteq> None then False
      else let rest = drop (length query_prefix) value
           in case str_find chunks_separator rest of
                None \<Rightarrow> False
              | Some separator_at \<Rightarrow>
                  if str_find_at chunks_separator rest (separator_at + 1) \<noteq> None \<or>
                     \<not> IsSafeQueryId (take separator_at rest) then False
                  else let chunk_id = drop (separator_at + length chunks_separator) rest
                       in if chunk_id = [] \<or> 20 < length chunk_id then False
                          else \<forall>c \<in> set chunk_id. isdigit c)"

text \<open>
  The source computes \<open>end - start\<close> with \<open>end = npos\<close> when there is no separator, which \<open>substr\<close>
  clips to the rest of the string.
\<close>

definition QueryIdFromChunkPath :: "byte_string \<Rightarrow> byte_string" where
  "QueryIdFromChunkPath value =
     (let start = length query_prefix
      in case str_find_at chunks_separator value start of
           Some e \<Rightarrow> take (e - start) (drop start value)
         | None \<Rightarrow> drop start value)"

definition hex_lower :: byte_string where
  "hex_lower = ''0123456789abcdef''"

definition json_escape_char :: "char \<Rightarrow> byte_string" where
  "json_escape_char c =
     (if c = CHR 0x5C then [CHR 0x5C, CHR 0x5C]
      else if c = CHR 0x22 then [CHR 0x5C, CHR 0x22]
      else if c = CHR 0x08 then [CHR 0x5C, CHR ''b'']
      else if c = CHR 0x0C then [CHR 0x5C, CHR ''f'']
      else if c = CHR 0x0A then [CHR 0x5C, CHR ''n'']
      else if c = CHR 0x0D then [CHR 0x5C, CHR ''r'']
      else if c = CHR 0x09 then [CHR 0x5C, CHR ''t'']
      else if code c < 0x20 then
        [CHR 0x5C] @ ''u00'' @ [hex_lower ! ((code c div 16) mod 16), hex_lower ! (code c mod 16)]
      else [c])"

definition JsonEscape :: "byte_string \<Rightarrow> byte_string" where
  "JsonEscape value = concat (map json_escape_char value)"

definition same_column :: "ColumnMetadata \<Rightarrow> ColumnMetadata \<Rightarrow> bool" where
  "same_column l r \<longleftrightarrow>
     \<not> (cm_name l \<noteq> cm_name r \<or> cm_type l \<noteq> cm_type r \<or> cm_nullable l \<noteq> cm_nullable r \<or>
        cm_has_precision l \<noteq> cm_has_precision r \<or> cm_has_scale l \<noteq> cm_has_scale r \<or>
        cm_precision l \<noteq> cm_precision r \<or> cm_scale l \<noteq> cm_scale r)"

definition SameMetadata :: "ColumnMetadata list \<Rightarrow> ColumnMetadata list \<Rightarrow> bool" where
  "SameMetadata left right =
     (if length left \<noteq> length right then False
      else \<forall>i \<in> {0..<length left}. same_column (left ! i) (right ! i))"

section \<open>The tenant URL\<close>

text \<open>The grammar of a host name below a fixed domain, as RFC 1035 labels in lower case.\<close>

definition dns_label :: "byte_string \<Rightarrow> bool" where
  "dns_label l \<longleftrightarrow>
     l \<noteq> [] \<and> length l \<le> 63 \<and> hd l \<noteq> CHR ''-'' \<and> last l \<noteq> CHR ''-'' \<and>
     (\<forall>c \<in> set l. islower c \<or> isdigit c \<or> c = CHR ''-'')"

definition dns_host_under :: "byte_string \<Rightarrow> byte_string \<Rightarrow> bool" where
  "dns_host_under domain host \<longleftrightarrow>
     (\<forall>l \<in> set (split_on CHR ''.'' host). dns_label l) \<and>
     suffix domain host \<and> length domain < length host"

lemma label_loop_split_on:
  "rest \<noteq> [] \<Longrightarrow> last rest \<noteq> CHR ''.'' \<Longrightarrow>
     label_loop ok rest = (\<forall>l \<in> set (split_on CHR ''.'' rest). ok l)"
proof (induction ok rest rule: label_loop.induct)
  case (1 ok rest)
  let ?label = "takeWhile (\<lambda>c. c \<noteq> CHR ''.'') rest"
  let ?after = "dropWhile (\<lambda>c. c \<noteq> CHR ''.'') rest"
  show ?case
  proof (cases "?after = []")
    case True
    with "1.prems" show ?thesis by (simp add: label_loop.simps [of ok rest] split_on_unfold [of _ rest])
  next
    case False
    have "last ?after = last rest"
      using False by (metis last_appendR takeWhile_dropWhile_id)
    moreover have "hd ?after = CHR ''.''" using hd_dropWhile False by blast
    ultimately have "tl ?after \<noteq> []" "last (tl ?after) \<noteq> CHR ''.''"
        using "1.prems" False by (cases ?after; auto split: if_splits)+
    with "1.IH" "1.prems" False
    have "ok ?label \<Longrightarrow>
        label_loop ok (tl ?after) = (\<forall>l \<in> set (split_on CHR ''.'' (tl ?after)). ok l)"
      by simp
    with "1.prems" False show ?thesis
      by (auto simp: label_loop.simps [of ok rest] split_on_unfold [of _ rest] Let_def)
  qed
qed

lemma dns_host_under_chars:
  assumes "dns_host_under domain host" "c \<in> set host"
  shows "islower c \<or> isdigit c \<or> c = CHR ''-'' \<or> c = CHR ''.''"
  using assms by (auto simp: dns_host_under_def dns_label_def set_split_on [of c host "CHR ''.''"])

lemma dns_host_under_last:
  assumes "dns_host_under domain host"
  shows "host \<noteq> [] \<and> last host \<noteq> CHR ''.''"
proof -
  have "last (split_on CHR ''.'' host) \<in> set (split_on CHR ''.'' host)" by simp
  then have "dns_label (last (split_on CHR ''.'' host))"
    using assms by (simp add: dns_host_under_def)
  then have "last (split_on CHR ''.'' host) \<noteq> []" by (simp add: dns_label_def)
  then show ?thesis by (simp add: last_split_on)
qed

lemma url_delimiters_code: "c \<in> set url_delimiters \<longleftrightarrow> code c \<in> {47, 63, 35, 64, 58, 92, 37}"
  by (auto simp: url_delimiters_def char_eq_iff_code simp del: of_char_eq_iff)

lemma tenant_label_dns:
  assumes "\<forall>c \<in> set l. \<not> isupper c"
  shows "tenant_label l = dns_label l"
proof (cases "l = []")
  case False
  have alnum: "isalnum c \<longleftrightarrow> islower c \<or> isdigit c" if "c \<in> set l" for c
    using assms that by (simp add: isalnum_not_upper)
  have "\<forall>c \<in> set l. islower c \<or> isdigit c \<or> c = CHR ''-'' \<Longrightarrow>
      \<forall>c \<in> set l. isalnum c \<longleftrightarrow> c \<noteq> CHR ''-''"
    using alnum isalnum_hyphen by metis
  then show ?thesis
    using False alnum hd_in_set [OF False] last_in_set [OF False]
    unfolding tenant_label_def dns_label_def by (metis length_0_conv not_le)
qed (simp add: tenant_label_def dns_label_def)

lemma tenant_host_iff:
  assumes host: "host \<noteq> []"
  shows "(str_find_if (\<lambda>c. c \<in> set url_delimiters) host = None \<and>
          \<not> (\<exists>c \<in> set host. 0x7f < code c \<or> iscntrl c \<or> isupper c) \<and>
          \<not> (length host \<le> length domain \<or> \<not> suffix domain host) \<and>
          domain \<noteq> [] \<and> last domain \<noteq> CHR ''.'' \<and>
          label_loop tenant_label host) \<longleftrightarrow>
         dns_host_under domain host \<and> domain \<noteq> [] \<and> last domain \<noteq> CHR ''.''"
    (is "?checks \<longleftrightarrow> ?spec")
proof
  assume c: ?checks
  then have "last host \<noteq> CHR ''.''"
    by (auto simp: suffix_def)
  moreover have "\<forall>l \<in> set (split_on CHR ''.'' host). \<forall>x \<in> set l. \<not> isupper x"
    using c split_on_subset by fast
  ultimately show ?spec
    using c host by (auto simp: label_loop_split_on tenant_label_dns dns_host_under_def)
next
  assume s: ?spec
  have chars: "islower x \<or> isdigit x \<or> x = CHR ''-'' \<or> x = CHR ''.''" if "x \<in> set host" for x
    using dns_host_under_chars s that by blast
  have no_upper: "\<not> isupper x \<and> \<not> iscntrl x \<and> \<not> 0x7f < code x \<and> x \<notin> set url_delimiters"
    if "x \<in> set host" for x
    using chars [OF that] by (auto simp: ctype_defs url_delimiters_code)
  have "\<forall>l \<in> set (split_on CHR ''.'' host). \<forall>x \<in> set l. \<not> isupper x"
    using no_upper split_on_subset by fast
  then have "label_loop tenant_label host"
    using s dns_host_under_last [of domain host]
    by (auto simp: label_loop_split_on tenant_label_dns dns_host_under_def)
  with s no_upper show ?checks
    by (auto simp: str_find_if_None dns_host_under_def)
qed

lemma IsTrustedTenantUrl_host:
  "IsTrustedTenantUrl (''https://'' @ host0) \<longleftrightarrow>
     dns_host_under ''.c360a.salesforce.com''
       (if host0 \<noteq> [] \<and> last host0 = CHR ''/'' then butlast host0 else host0)"
  (is "?l \<longleftrightarrow> dns_host_under ?d ?host")
proof (cases "?host = []")
  case True
  then show ?thesis
    by (auto simp: IsTrustedTenantUrl_def Let_def dns_host_under_def)
next
  case False
  have "?l \<longleftrightarrow> str_find_if (\<lambda>c. c \<in> set url_delimiters) ?host = None \<and>
          \<not> (\<exists>c \<in> set ?host. 0x7f < code c \<or> iscntrl c \<or> isupper c) \<and>
          \<not> (length ?host \<le> length ?d \<or> \<not> suffix ?d ?host) \<and>
          ?d \<noteq> [] \<and> last ?d \<noteq> CHR ''.'' \<and> label_loop tenant_label ?host"
    using False by (simp add: IsTrustedTenantUrl_def Let_def)
  also have "\<dots> \<longleftrightarrow> dns_host_under ?d ?host \<and> ?d \<noteq> [] \<and> last ?d \<noteq> CHR ''.''"
    by (rule tenant_host_iff [OF False])
  finally show ?thesis by simp
qed

lemma dns_host_no_slash: "dns_host_under domain host \<Longrightarrow> CHR ''/'' \<notin> set host"
  by (auto dest: dns_host_under_chars simp: ctype_defs)

lemma trusted_tenant_url_iff:
  "IsTrustedTenantUrl value \<longleftrightarrow>
     (\<exists>host. (value = ''https://'' @ host \<or> value = ''https://'' @ host @ ''/'') \<and>
             dns_host_under ''.c360a.salesforce.com'' host)"
  (is "_ \<longleftrightarrow> (\<exists>host. ?form host \<and> ?ok host)")
proof
  assume t: "IsTrustedTenantUrl value"
  then obtain host0 where v: "value = ''https://'' @ host0"
    by (auto simp: IsTrustedTenantUrl_def prefix_def split: if_splits)
  let ?host = "if host0 \<noteq> [] \<and> last host0 = CHR ''/'' then butlast host0 else host0"
  have "?ok ?host" using t unfolding v by (simp only: IsTrustedTenantUrl_host)
  moreover have "host0 = ?host \<or> host0 = ?host @ ''/''"
    by (metis append_butlast_last_id)
  ultimately show "\<exists>host. ?form host \<and> ?ok host" using v by blast
next
  assume "\<exists>host. ?form host \<and> ?ok host"
  then obtain host where f: "?form host" and ok: "?ok host" by blast
  have "host \<noteq> [] \<and> last host \<noteq> CHR ''/''"
    using ok dns_host_no_slash dns_host_under_last last_in_set by metis
  with f ok show "IsTrustedTenantUrl value"
    using IsTrustedTenantUrl_host [of host] IsTrustedTenantUrl_host [of "host @ ''/''"] by auto
qed

section \<open>Query identifiers and chunk paths\<close>

lemma safe_query_id_chars:
  "IsSafeQueryId q \<Longrightarrow> c \<in> set q \<Longrightarrow> isalnum c \<or> c = CHR ''-'' \<or> c = CHR ''_''"
  by (auto simp: IsSafeQueryId_def split: if_splits)

lemma safe_query_id_excludes:
  assumes "IsSafeQueryId q"
  shows "CHR ''/'' \<notin> set q" "CHR ''.'' \<notin> set q" "CHR ''?'' \<notin> set q" "CHR ''#'' \<notin> set q"
    "CHR ''%'' \<notin> set q" "CHR 0x5C \<notin> set q"
  using safe_query_id_chars [OF assms] by (fastforce simp: ctype_defs)+

lemma digits_exclude:
  assumes "\<forall>c \<in> set n. isdigit c"
  shows "CHR ''/'' \<notin> set n" "CHR ''.'' \<notin> set n" "CHR ''?'' \<notin> set n" "CHR ''#'' \<notin> set n"
    "CHR ''%'' \<notin> set n" "CHR 0x5C \<notin> set n"
  using assms by (auto simp: isdigit_def)

lemma find_separator:
  assumes "CHR ''/'' \<notin> set q"
  shows "str_find chunks_separator (q @ chunks_separator @ n) = Some (length q)"
proof (rule str_find_eqI)
  show "\<not> prefix chunks_separator (drop j (q @ chunks_separator @ n))" if "j < length q" for j
  proof -
    have "drop j (q @ chunks_separator @ n) = q ! j # drop (Suc j) q @ chunks_separator @ n"
      using that by (simp add: Cons_nth_drop_Suc [symmetric])
    moreover have "q ! j \<noteq> CHR ''/''" using assms that by (metis nth_mem)
    ultimately show ?thesis by (simp add: chunks_separator_def)
  qed
qed auto

lemma no_second_separator:
  assumes "CHR ''/'' \<notin> set q" "CHR ''/'' \<notin> set n"
  shows "str_find_at chunks_separator (q @ chunks_separator @ n) (length q + 1) = None"
proof -
  have "\<not> sublist chunks_separator (''chunks/'' @ n)"
  proof
    assume "sublist chunks_separator (''chunks/'' @ n)"
    then obtain a b where ab: "''chunks/'' @ n = a @ chunks_separator @ b"
      by (auto simp: sublist_def)
    let ?slashes = "\<lambda>s. length (filter (\<lambda>c. c = CHR ''/'') s)"
    have "?slashes n = 0" using assms(2) by (auto simp: filter_empty_conv)
    moreover have "?slashes (''chunks/'' @ n) = ?slashes (a @ chunks_separator @ b)"
      by (simp only: ab)
    ultimately show False by (simp add: chunks_separator_def)
  qed
  then have none: "str_find chunks_separator (''chunks/'' @ n) = None"
    by (rule str_find_None [THEN iffD2])
  have rest: "drop (length q + 1) (q @ chunks_separator @ n) = ''chunks/'' @ n"
    by (simp add: chunks_separator_def)
  show ?thesis unfolding str_find_at_def rest none by (simp only: option.map)
qed

lemma chunk_path_iff:
  "IsSafeChunkPath value \<longleftrightarrow>
     (\<exists>q n. value = query_prefix @ q @ chunks_separator @ n \<and> IsSafeQueryId q \<and>
            n \<noteq> [] \<and> length n \<le> 20 \<and> (\<forall>c \<in> set n. isdigit c))"
proof
  assume safe: "IsSafeChunkPath value"
  then obtain rest where v: "value = query_prefix @ rest"
    by (auto simp: IsSafeChunkPath_def prefix_def split: if_splits)
  with safe obtain k where k: "str_find chunks_separator rest = Some k"
    and q: "IsSafeQueryId (take k rest)"
    and n: "drop (k + length chunks_separator) rest \<noteq> []"
      "length (drop (k + length chunks_separator) rest) \<le> 20"
      "\<forall>c \<in> set (drop (k + length chunks_separator) rest). isdigit c"
    by (auto simp: IsSafeChunkPath_def Let_def split: if_splits option.splits)
  from str_find_Some [OF k] v
  have "value = query_prefix @ take k rest @ chunks_separator @ drop (k + length chunks_separator) rest"
    by metis
  with q n show "\<exists>q n. value = query_prefix @ q @ chunks_separator @ n \<and> IsSafeQueryId q \<and>
            n \<noteq> [] \<and> length n \<le> 20 \<and> (\<forall>c \<in> set n. isdigit c)"
    by blast
next
  assume "\<exists>q n. value = query_prefix @ q @ chunks_separator @ n \<and> IsSafeQueryId q \<and>
            n \<noteq> [] \<and> length n \<le> 20 \<and> (\<forall>c \<in> set n. isdigit c)"
  then obtain q n where v: "value = query_prefix @ q @ chunks_separator @ n"
    and q: "IsSafeQueryId q" and n: "n \<noteq> []" "length n \<le> 20" "\<forall>c \<in> set n. isdigit c"
    by blast
  note ex = safe_query_id_excludes [OF q] digits_exclude [OF n(3)]
  have "length q \<le> 128" using q by (auto simp: IsSafeQueryId_def split: if_splits)
  then have len: "length value \<le> 256"
    using n(2) by (simp add: v query_prefix_def chunks_separator_def)
  have clean: "str_find_if (\<lambda>c. c \<in> set (CHR 0x5C # ''?#%'')) value = None"
    unfolding str_find_if_None v using ex by (auto simp: query_prefix_def chunks_separator_def)
  have "CHR ''.'' \<notin> set value"
    using ex by (simp add: v query_prefix_def chunks_separator_def)
  then have dots: "str_find ''..'' value = None"
    unfolding str_find_None by (auto simp: sublist_def)
  show "IsSafeChunkPath value"
    using len clean dots q n find_separator [of q n] no_second_separator [of q n] ex
    by (auto simp: IsSafeChunkPath_def v Let_def)
qed

lemma QueryIdFromChunkPath_path:
  assumes "IsSafeQueryId q"
  shows "QueryIdFromChunkPath (query_prefix @ q @ chunks_separator @ n) = q"
proof -
  have "str_find chunks_separator (q @ chunks_separator @ n) = Some (length q)"
    using assms by (intro find_separator safe_query_id_excludes)
  then show ?thesis by (simp add: QueryIdFromChunkPath_def str_find_at_def Let_def)
qed

section \<open>JSON escaping\<close>

text \<open>
  A reader of JSON string literals (RFC 8259), started after the opening quote: it returns the
  decoded bytes and the text after the closing quote, and rejects raw control characters. Escapes
  above U+007F, which the escape never produces, are not needed and rejected.
\<close>

fun json_simple_escape :: "char \<Rightarrow> char option" where
  "json_simple_escape e =
     (if e = CHR 0x22 \<or> e = CHR 0x5C \<or> e = CHR ''/'' then Some e
      else if e = CHR ''b'' then Some (CHR 0x08)
      else if e = CHR ''f'' then Some (CHR 0x0C)
      else if e = CHR ''n'' then Some (CHR 0x0A)
      else if e = CHR ''r'' then Some (CHR 0x0D)
      else if e = CHR ''t'' then Some (CHR 0x09)
      else None)"

definition json_hex4 :: "char \<Rightarrow> char \<Rightarrow> char \<Rightarrow> char \<Rightarrow> char option" where
  "json_hex4 a b c d =
     (case (hex_value a, hex_value b, hex_value c, hex_value d) of
        (Some w, Some x, Some y, Some z) \<Rightarrow>
          let n = ((w * 16 + x) * 16 + y) * 16 + z in if n < 128 then Some (char_of n) else None
      | _ \<Rightarrow> None)"

definition json_cons :: "char \<Rightarrow> (byte_string \<times> byte_string) option \<Rightarrow> (byte_string \<times> byte_string) option" where
  "json_cons c r = map_option (\<lambda>(v, rest). (c # v, rest)) r"

fun json_read_string :: "byte_string \<Rightarrow> (byte_string \<times> byte_string) option" where
  "json_read_string [] = None"
| "json_read_string (c # s) =
     (if c = CHR 0x22 then Some ([], s)
      else if c = CHR 0x5C then
        (case s of
           [] \<Rightarrow> None
         | e # t \<Rightarrow>
             if e = CHR ''u'' then
               (case t of
                  x1 # x2 # x3 # x4 # u \<Rightarrow>
                    (case json_hex4 x1 x2 x3 x4 of
                       Some d \<Rightarrow> json_cons d (json_read_string u)
                     | None \<Rightarrow> None)
                | _ \<Rightarrow> None)
             else (case json_simple_escape e of
                     Some d \<Rightarrow> json_cons d (json_read_string t)
                   | None \<Rightarrow> None))
      else if code c < 0x20 then None
      else json_cons c (json_read_string s))"

lemma json_escape_char_read:
  "json_read_string (json_escape_char c @ s) = json_cons c (json_read_string s)"
proof (cases "c = CHR 0x5C \<or> c = CHR 0x22 \<or> c = CHR 0x08 \<or> c = CHR 0x0C \<or> c = CHR 0x0A \<or>
    c = CHR 0x0D \<or> c = CHR 0x09")
  case True
  then show ?thesis by (elim disjE) (simp_all add: json_escape_char_def)
next
  case False
  show ?thesis
  proof (cases "code c < 0x20")
    case True
    let ?h = "(code c div 16) mod 16" and ?l = "code c mod 16"
    have "hex_value (hex_lower ! ?h) = Some ?h" "hex_value (hex_lower ! ?l) = Some ?l"
      unfolding hex_lower_def by (rule hex_value_lower, simp)+
    moreover have "hex_value CHR ''0'' = Some 0" by (simp add: hex_value_def isdigit_def)
    moreover have "?h * 16 + ?l = code c" using True by simp
    ultimately have "json_hex4 CHR ''0'' CHR ''0'' (hex_lower ! ?h) (hex_lower ! ?l) = Some c"
      using True by (simp add: json_hex4_def Let_def)
    with True False show ?thesis by (simp add: json_escape_char_def)
  next
    case long: False
    with False show ?thesis by (simp add: json_escape_char_def)
  qed
qed

lemma json_escape_read:
  "json_read_string (JsonEscape value @ CHR 0x22 # rest) = Some (value, rest)"
  by (induction "value") (simp_all add: JsonEscape_def json_escape_char_read json_cons_def)

section \<open>Metadata\<close>

lemma same_column_iff: "same_column l r \<longleftrightarrow> l = (r :: ColumnMetadata)"
  by (cases l; cases r) (auto simp: same_column_def)

lemma SameMetadata_iff: "SameMetadata left right \<longleftrightarrow> left = right"
proof
  assume same: "SameMetadata left right"
  then have len: "length left = length right" by (simp add: SameMetadata_def split: if_splits)
  show "left = right"
  proof (rule nth_equalityI [OF len])
    show "left ! i = right ! i" if "i < length left" for i
      using same len that by (simp add: SameMetadata_def same_column_iff)
  qed
qed (simp add: SameMetadata_def same_column_iff)

end
