(* ===== verification/Query_Session.thy ===== *)
theory Query_Session
  imports Query_Validation
begin

text \<open>
  The stateful part of \<open>query_api.cpp\<close>: the \<open>Session\<close> of one remote query with its budgets, the
  prepared query and the cursor that own it, and the client that submits, polls, pages and
  cancels. The transport, the response codec and the runtime hooks are the virtual interfaces of
  \<open>query_api.hpp\<close>; they are the fields of \<open>QueryEnv\<close> and act on a world of their own.
\<close>

section \<open>Exceptions and interfaces\<close>

text \<open>
  The exceptions the client throws, with their texts. \<open>OutOfFuel\<close> is not one of them: it marks a
  run of the polling or draining loop that was cut off, and the theorems show when it is impossible.
\<close>

datatype exn =
    runtime_error byte_string
  | logic_error byte_string
  | invalid_argument byte_string
  | ReauthRequiredException
  | OutOfFuel

text \<open>What a codec throws: the re-authentication exception, or anything else.\<close>

datatype decode_exn = DecodeReauth | DecodeOther

record 'w QueryEnv =
  env_IsCancelled :: "'w \<Rightarrow> bool \<times> 'w"
  env_NowMs :: "'w \<Rightarrow> u64 \<times> 'w"
  env_SleepMs :: "u64 \<Rightarrow> 'w \<Rightarrow> 'w"
  env_Send :: "HttpRequest \<Rightarrow> 'w \<Rightarrow> HttpResponse option \<times> 'w"
  env_Decode :: "HttpResponse \<Rightarrow> 'w \<Rightarrow> (decode_exn + QueryResponse) \<times> 'w"

section \<open>The session\<close>

datatype QueryMode = NUMBERED_V3 | DIRECT_LEGACY

record Session =
  s_options :: QueryOptions
  s_credentials :: QueryCredentials
  s_request :: HttpRequest
  s_started_at_ms :: u64
  s_total_response_bytes :: u64
  s_mode :: QueryMode
  s_metadata :: "ColumnMetadata list"
  s_query_id :: byte_string
  s_has_expected_chunks :: bool
  s_expected_chunks :: u64
  s_has_expected_rows :: bool
  s_expected_rows :: u64
  s_next_chunk_index :: u64
  s_buffered_direct :: "QueryResponse option"
  s_next_url :: byte_string
  s_visited_urls :: "byte_string list"
  s_fetched_chunks :: u64
  s_rows :: u64
  s_cells :: u64
  s_reconciled :: bool
  s_terminal :: bool
  s_arrow_response_outstanding :: bool

text \<open>
  Which object holds the session: nobody (moved from or destroyed), a \<open>PreparedQuery\<close> or a
  \<open>QueryCursor\<close>. \<open>m_sent\<close> records the requests handed to the transport, the latest first.
\<close>

datatype Owner = NoOwner | PreparedOwner | CursorOwner

record 'w Machine =
  m_world :: 'w
  m_sent :: "HttpRequest list"
  m_owner :: Owner
  m_session :: Session

abbreviation sess :: "(Session \<Rightarrow> 'a) \<Rightarrow> ('w Machine, exn, 'a) sem" where
  "sess f \<equiv> sgets (\<lambda>s. f (m_session s))"

abbreviation upd :: "(Session \<Rightarrow> Session) \<Rightarrow> ('w Machine, exn, unit) sem" where
  "upd f \<equiv> smodify (m_session_update f)"

abbreviation fail_if :: "(Session \<Rightarrow> bool) \<Rightarrow> exn \<Rightarrow> ('w Machine, exn, unit) sem" where
  "fail_if bad e \<equiv> sguard (\<lambda>s. bad (m_session s)) e"

subsection \<open>Calls into the interfaces\<close>

definition is_cancelled :: "'w QueryEnv \<Rightarrow> ('w Machine, exn, bool) sem" where
  "is_cancelled env s =
     (case env_IsCancelled env (m_world s) of (b, w) \<Rightarrow> (Inr b, s\<lparr>m_world := w\<rparr>))"

definition now_ms :: "'w QueryEnv \<Rightarrow> ('w Machine, exn, u64) sem" where
  "now_ms env s = (case env_NowMs env (m_world s) of (t, w) \<Rightarrow> (Inr t, s\<lparr>m_world := w\<rparr>))"

definition sleep_ms :: "'w QueryEnv \<Rightarrow> u64 \<Rightarrow> ('w Machine, exn, unit) sem" where
  "sleep_ms env d s = (Inr (), s\<lparr>m_world := env_SleepMs env d (m_world s)\<rparr>)"

text \<open>The transport either answers or throws; both outcomes are values here.\<close>

definition transport_send :: "'w QueryEnv \<Rightarrow> HttpRequest \<Rightarrow> ('w Machine, exn, HttpResponse option) sem" where
  "transport_send env r s =
     (case env_Send env r (m_world s) of
        (x, w) \<Rightarrow> (Inr x, s\<lparr>m_world := w, m_sent := r # m_sent s\<rparr>))"

definition codec_decode :: "'w QueryEnv \<Rightarrow> HttpResponse \<Rightarrow> ('w Machine, exn, decode_exn + QueryResponse) sem" where
  "codec_decode env r s =
     (case env_Decode env r (m_world s) of (x, w) \<Rightarrow> (Inr x, s\<lparr>m_world := w\<rparr>))"

section \<open>Session operations\<close>

text \<open>The URL all requests of the query start with.\<close>

definition api_base :: "QueryCredentials \<Rightarrow> byte_string" where
  "api_base cr = TrimTrailingSlash (qc_instance_url cr)"

definition cancellation_request :: "Session \<Rightarrow> HttpRequest" where
  "cancellation_request ses =
     (s_request ses)
       \<lparr>rq_method := ''DELETE'',
        rq_url := api_base (s_credentials ses) @ query_prefix @ s_query_id ses,
        rq_body := [],
        rq_headers := map_put ''Accept'' ''application/json'' (rq_headers (s_request ses)),
        rq_timeout_ms := op_cleanup_timeout_ms (s_options ses),
        rq_max_response_bytes := 64 * 1024,
        rq_cleanup_request := True\<rparr>"

definition Cancel :: "'w QueryEnv \<Rightarrow> ('w Machine, exn, unit) sem" where
  "Cancel env =
     sbind (sgets m_session) (\<lambda>ses.
       if s_terminal ses \<or> s_reconciled ses \<or> \<not> IsSafeQueryId (s_query_id ses) then sret ()
       else sthen (upd (s_terminal_update (\<lambda>_. True)))
            (sthen (transport_send env (cancellation_request ses)) (sret ())))"

abbreviation timed_out :: "u64 \<Rightarrow> Session \<Rightarrow> bool" where
  "timed_out now ses \<equiv> op_overall_timeout_ms (s_options ses) \<le> now - s_started_at_ms ses"

abbreviation cancelled_exn :: exn where
  "cancelled_exn \<equiv> runtime_error ''Data 360 query cancelled''"

abbreviation timeout_exn :: exn where
  "timeout_exn \<equiv> runtime_error ''Data 360 query timed out''"

definition CheckActive :: "'w QueryEnv \<Rightarrow> ('w Machine, exn, unit) sem" where
  "CheckActive env =
     sbind (is_cancelled env) (\<lambda>b.
       if b then sthrow cancelled_exn
       else sbind (now_ms env) (\<lambda>now. fail_if (timed_out now) timeout_exn))"

text \<open>
  \<open>Send\<close> is always given the session's own request, which it updates in place: the time-out and
  the response limit shrink with the budgets.
\<close>

definition transport_failure :: "'w QueryEnv \<Rightarrow> ('w Machine, exn, 'a) sem" where
  "transport_failure env =
     sbind (is_cancelled env) (\<lambda>b.
       if b then sthrow cancelled_exn
       else sbind (now_ms env) (\<lambda>now.
              sthen (fail_if (timed_out now) timeout_exn)
                (sthrow (runtime_error ''Data 360 transport failed''))))"

definition response_budget :: "Session \<Rightarrow> u64" where
  "response_budget ses = budget (op_max_total_response_bytes (s_options ses)) (s_total_response_bytes ses)"

definition limit_request :: "u64 \<Rightarrow> Session \<Rightarrow> Session" where
  "limit_request now ses =
     ses\<lparr>s_request := (s_request ses)
          \<lparr>rq_timeout_ms := min (op_request_timeout_ms (s_options ses))
             (op_overall_timeout_ms (s_options ses) - (now - s_started_at_ms ses)),
           rq_max_response_bytes := min (rq_max_response_bytes (s_request ses)) (response_budget ses)\<rparr>\<rparr>"

definition Send :: "'w QueryEnv \<Rightarrow> ('w Machine, exn, HttpResponse) sem" where
  "Send env =
     sthen (CheckActive env)
     (sbind (now_ms env) (\<lambda>now.
      sthen (upd (limit_request now))
      (sbind (sess s_request) (\<lambda>outbound.
       sbind (transport_send env outbound) (\<lambda>answer.
         case answer of
           None \<Rightarrow> transport_failure env
         | Some response \<Rightarrow>
             sthen (fail_if (\<lambda>ses. response_budget ses < size_u64 (rs_body response))
                     (runtime_error ''Data 360 Query API cumulative response limit exceeded''))
             (sthen (upd (s_total_response_bytes_update (\<lambda>n. n + size_u64 (rs_body response))))
               (sret response)))))))"

definition Decode :: "'w QueryEnv \<Rightarrow> HttpResponse \<Rightarrow> ('w Machine, exn, QueryResponse) sem" where
  "Decode env response =
     sbind (codec_decode env response) (\<lambda>r.
       case r of
         Inr q \<Rightarrow> sret q
       | Inl DecodeReauth \<Rightarrow> sthrow ReauthRequiredException
       | Inl DecodeOther \<Rightarrow>
           sbind (is_cancelled env) (\<lambda>b.
             if b then sthrow cancelled_exn
             else sthrow (runtime_error ''Data 360 response decoding failed'')))"

definition RememberQueryId :: "QueryResponse \<Rightarrow> ('w Machine, exn, unit) sem" where
  "RememberQueryId response =
     sthen
      (swhen (qr_query_id response \<noteq> [])
        (sthen (fail_if (\<lambda>_. \<not> IsSafeQueryId (qr_query_id response))
                 (runtime_error ''Data 360 Query API returned an invalid query ID''))
        (sthen (fail_if (\<lambda>ses. s_query_id ses \<noteq> [] \<and> qr_query_id response \<noteq> s_query_id ses)
                 (runtime_error ''Data 360 Query API query identity changed''))
          (upd (s_query_id_update (\<lambda>_. qr_query_id response))))))
      (swhen (IsSafeChunkPath (ch_next_url (qr_chunk response)))
        (let next_query_id = QueryIdFromChunkPath (ch_next_url (qr_chunk response))
         in sthen (fail_if (\<lambda>ses. s_query_id ses \<noteq> [] \<and> next_query_id \<noteq> s_query_id ses)
                    (runtime_error ''Data 360 Query API query identity changed''))
              (upd (s_query_id_update (\<lambda>q. if q = [] then next_query_id else q)))))"

fun accept_rows :: "Cell list list \<Rightarrow> ('w Machine, exn, unit) sem" where
  "accept_rows [] = sret ()"
| "accept_rows (row # rows) =
     sthen (fail_if (\<lambda>ses. length row \<noteq> length (s_metadata ses))
             (runtime_error ''Data 360 Query API returned an invalid row width''))
     (sthen (fail_if (\<lambda>ses. budget (op_max_cells (s_options ses)) (s_cells ses) < size_u64 row)
              (runtime_error ''Data 360 Query API materialization limit exceeded''))
      (sthen (upd (s_cells_update (\<lambda>n. n + size_u64 row)))
        (accept_rows rows)))"

definition Accept :: "QueryResponse \<Rightarrow> ('w Machine, exn, ResultChunk) sem" where
  "Accept response =
     (let chunk_rows = size_u64 (ch_rows (qr_chunk response))
      in sthen (fail_if (\<lambda>_. qr_state response \<noteq> COMPLETE)
                 (runtime_error ''Data 360 Query API chunk retrieval failed''))
      (sthen (fail_if (\<lambda>ses. qr_metadata response \<noteq> [] \<and>
                          \<not> SameMetadata (s_metadata ses) (qr_metadata response))
                 (runtime_error ''Data 360 Query API result schema changed''))
      (sthen (fail_if (\<lambda>ses. op_max_chunks (s_options ses) \<le> s_fetched_chunks ses)
                 (runtime_error ''Data 360 Query API returned too many chunks''))
      (sthen (fail_if (\<lambda>_. qr_has_returned_rows response \<and> qr_returned_rows response \<noteq> chunk_rows)
                 (runtime_error ''Data 360 Query API chunk row count mismatch''))
      (sthen (fail_if (\<lambda>ses. budget (op_max_rows (s_options ses)) (s_rows ses) < chunk_rows)
                 (runtime_error ''Data 360 Query API materialization limit exceeded''))
      (sthen (accept_rows (ch_rows (qr_chunk response)))
      (sthen (fail_if (\<lambda>ses. s_has_expected_rows ses \<and>
                          budget (s_expected_rows ses) (s_rows ses) < chunk_rows)
                 (runtime_error ''Data 360 Query API row count mismatch''))
      (sthen (upd (\<lambda>ses. ses\<lparr>s_rows := s_rows ses + chunk_rows,
                            s_fetched_chunks := s_fetched_chunks ses + 1\<rparr>))
        (sret (qr_chunk response))))))))))"

definition Finish :: "('w Machine, exn, unit) sem" where
  "Finish =
     sthen (fail_if (\<lambda>ses. s_mode ses = NUMBERED_V3 \<and> s_has_expected_chunks ses \<and>
                       s_fetched_chunks ses \<noteq> s_expected_chunks ses)
             (runtime_error ''Data 360 Query API chunk count mismatch''))
     (sthen (fail_if (\<lambda>ses. s_has_expected_rows ses \<and> s_rows ses \<noteq> s_expected_rows ses)
             (runtime_error ''Data 360 Query API row count mismatch''))
     (sthen (fail_if (\<lambda>ses. s_mode ses = DIRECT_LEGACY \<and> s_next_url ses \<noteq> [])
             (runtime_error ''Data 360 Query API chunk chain was incomplete''))
       (upd (\<lambda>ses. ses\<lparr>s_reconciled := True, s_terminal := True\<rparr>))))"

section \<open>Prepared queries and cursors\<close>

abbreviation prepared_unavailable :: exn where
  "prepared_unavailable \<equiv> logic_error ''Data 360 prepared query is not available''"

abbreviation cursor_unavailable :: exn where
  "cursor_unavailable \<equiv> logic_error ''Data 360 query cursor is not available''"

definition PreparedMetadata :: "('w Machine, exn, ColumnMetadata list) sem" where
  "PreparedMetadata =
     sthen (sguard (\<lambda>s. m_owner s \<noteq> PreparedOwner) prepared_unavailable) (sess s_metadata)"

definition OpenCursor :: "('w Machine, exn, unit) sem" where
  "OpenCursor =
     sthen (sguard (\<lambda>s. m_owner s \<noteq> PreparedOwner) prepared_unavailable)
       (smodify (m_owner_update (\<lambda>_. CursorOwner)))"

text \<open>Destruction of whichever object holds the session runs the session's destructor.\<close>

definition destroy_owner :: "'w QueryEnv \<Rightarrow> ('w Machine, exn, unit) sem" where
  "destroy_owner env =
     sbind (sgets m_owner) (\<lambda>ow.
       if ow = NoOwner then sret ()
       else sthen (Cancel env) (smodify (m_owner_update (\<lambda>_. NoOwner))))"

definition get_request :: "byte_string \<Rightarrow> Session \<Rightarrow> Session" where
  "get_request url ses =
     ses\<lparr>s_request := (s_request ses)\<lparr>rq_method := ''GET'', rq_body := [], rq_url := url\<rparr>\<rparr>"

definition chunk_url :: "Session \<Rightarrow> byte_string" where
  "chunk_url ses =
     api_base (s_credentials ses) @ query_prefix @ s_query_id ses @ chunks_separator @
     to_string (unat (s_next_chunk_index ses))"

definition send_and_decode :: "'w QueryEnv \<Rightarrow> ('w Machine, exn, QueryResponse) sem" where
  "send_and_decode env = sbind (Send env) (Decode env)"

text \<open>
  The three ways \<open>NextChunk\<close> obtains its response: the next numbered chunk, the buffered direct
  response, the next link of the legacy chain. \<open>None\<close> is the return through \<open>Finish\<close>.
\<close>

definition numbered_response :: "'w QueryEnv \<Rightarrow> ('w Machine, exn, QueryResponse option) sem" where
  "numbered_response env =
     sthen (upd (\<lambda>ses. (get_request (chunk_url ses) ses)
              \<lparr>s_next_chunk_index := s_next_chunk_index ses + 1\<rparr>))
       (sbind (send_and_decode env) (\<lambda>r. sret (Some r)))"

definition buffered_response :: "QueryResponse \<Rightarrow> ('w Machine, exn, QueryResponse option) sem" where
  "buffered_response r = sthen (upd (s_buffered_direct_update (\<lambda>_. None))) (sret (Some r))"

definition link_response :: "'w QueryEnv \<Rightarrow> ('w Machine, exn, QueryResponse option) sem" where
  "link_response env =
     sthen (fail_if (\<lambda>ses. \<not> IsSafeChunkPath (s_next_url ses) \<or>
                       s_next_url ses \<in> set (s_visited_urls ses))
             (runtime_error ''Data 360 Query API returned an unsafe chunk URL''))
     (sthen (upd (\<lambda>ses. ses\<lparr>s_visited_urls := s_next_url ses # s_visited_urls ses\<rparr>))
     (sthen (upd (\<lambda>ses. if s_query_id ses = []
                       then ses\<lparr>s_query_id := QueryIdFromChunkPath (s_next_url ses)\<rparr> else ses))
     (sthen (upd (\<lambda>ses. get_request (api_base (s_credentials ses) @ s_next_url ses) ses))
       (sbind (send_and_decode env) (\<lambda>r. sret (Some r))))))"

definition finish_response :: "('w Machine, exn, QueryResponse option) sem" where
  "finish_response = sthen Finish (sret None)"

definition next_response :: "'w QueryEnv \<Rightarrow> ('w Machine, exn, QueryResponse option) sem" where
  "next_response env =
     sbind (sgets m_session) (\<lambda>ses.
       if s_mode ses = NUMBERED_V3 then
         (if s_expected_chunks ses \<le> s_next_chunk_index ses then finish_response
          else numbered_response env)
       else
         (case s_buffered_direct ses of
            Some r \<Rightarrow> buffered_response r
          | None \<Rightarrow> if s_next_url ses = [] then finish_response else link_response env))"

text \<open>The \<open>try\<close> blocks of the cursor: cancel the remote query, then rethrow.\<close>

definition cancel_on_error :: "'w QueryEnv \<Rightarrow> ('w Machine, exn, 'a) sem \<Rightarrow> ('w Machine, exn, 'a) sem" where
  "cancel_on_error env m = scatch m (\<lambda>e. sthen (Cancel env) (sthrow e))"

definition accept_response :: "'w QueryEnv \<Rightarrow> QueryResponse \<Rightarrow> ('w Machine, exn, ResultChunk option) sem" where
  "accept_response env response =
     sthen (RememberQueryId response)
     (sthen (CheckActive env)
     (sbind (Accept response) (\<lambda>accepted.
      sthen (upd (\<lambda>ses. if s_mode ses = DIRECT_LEGACY
                        then ses\<lparr>s_next_url := ch_next_url accepted\<rparr> else ses))
        (sret (Some accepted)))))"

definition NextChunk :: "'w QueryEnv \<Rightarrow> ('w Machine, exn, ResultChunk option) sem" where
  "NextChunk env =
     sthen (sguard (\<lambda>s. m_owner s \<noteq> CursorOwner) cursor_unavailable)
     (sthen (fail_if s_arrow_response_outstanding
              (logic_error ''Data 360 Arrow response must be reported before another cursor operation''))
     (sbind (sess s_reconciled) (\<lambda>done.
        if done then sret None
        else sthen (fail_if s_terminal (logic_error ''Data 360 query cursor is terminal''))
             (cancel_on_error env
               (sbind (next_response env) (\<lambda>r.
                  case r of None \<Rightarrow> sret None | Some response \<Rightarrow> accept_response env response))))))"

definition IsNumberedV3 :: "('w Machine, exn, bool) sem" where
  "IsNumberedV3 =
     sthen (sguard (\<lambda>s. m_owner s \<noteq> CursorOwner) cursor_unavailable)
       (sess (\<lambda>ses. s_mode ses = NUMBERED_V3))"

definition arrow_request :: "Session \<Rightarrow> Session" where
  "arrow_request ses =
     ses\<lparr>s_request := (s_request ses)
          \<lparr>rq_method := ''GET'', rq_body := [],
           rq_headers := map_put ''Accept'' ''application/vnd.apache.arrow.stream''
                           (rq_headers (s_request ses)),
           rq_url := chunk_url ses\<rparr>\<rparr>"

definition http_ok :: "int \<Rightarrow> bool" where
  "http_ok status \<longleftrightarrow> \<not> (status < 200 \<or> 300 \<le> status)"

definition fetch_arrow :: "'w QueryEnv \<Rightarrow> ('w Machine, exn, HttpResponse option) sem" where
  "fetch_arrow env =
     sthen (upd arrow_request)
     (sbind (Send env) (\<lambda>response.
      sthen (if http_ok (rs_status response) then sret ()
             else sbind (codec_decode env response) (\<lambda>d.
                    if d = Inl DecodeReauth then sthrow ReauthRequiredException
                    else sthrow (runtime_error ''Data 360 Query API chunk retrieval failed'')))
      (sthen (CheckActive env)
      (sthen (upd (s_arrow_response_outstanding_update (\<lambda>_. True)))
        (sret (Some response))))))"

definition NextArrowChunk :: "'w QueryEnv \<Rightarrow> ('w Machine, exn, HttpResponse option) sem" where
  "NextArrowChunk env =
     sthen (sguard (\<lambda>s. m_owner s \<noteq> CursorOwner) cursor_unavailable)
     (sthen (fail_if (\<lambda>ses. s_mode ses \<noteq> NUMBERED_V3)
              (logic_error ''Data 360 Arrow cursor requires a numbered V3 query''))
     (sthen (fail_if s_arrow_response_outstanding
              (logic_error ''Data 360 Arrow response must be reported before fetching another chunk''))
     (sbind (sess s_reconciled) (\<lambda>done.
        if done then sret None
        else sthen (fail_if s_terminal (logic_error ''Data 360 query cursor is terminal''))
             (cancel_on_error env
               (sthen (CheckActive env)
               (sbind (sess (\<lambda>ses. s_expected_chunks ses \<le> s_next_chunk_index ses)) (\<lambda>over.
                 if over then sthen Finish (sret None) else fetch_arrow env))))))))"

definition ReportArrowChunk :: "'w QueryEnv \<Rightarrow> u64 \<Rightarrow> ('w Machine, exn, unit) sem" where
  "ReportArrowChunk env decoded_rows =
     sthen (sguard (\<lambda>s. m_owner s \<noteq> CursorOwner) cursor_unavailable)
     (sthen (fail_if (\<lambda>ses. \<not> s_arrow_response_outstanding ses)
              (logic_error ''Data 360 Arrow response row count was not expected''))
     (cancel_on_error env
       (sthen (CheckActive env)
       (sthen (fail_if (\<lambda>ses.
                 budget (op_max_rows (s_options ses)) (s_rows ses) < decoded_rows \<or>
                 (size_u64 (s_metadata ses) \<noteq> 0 \<and>
                  budget (op_max_cells (s_options ses)) (s_cells ses) div size_u64 (s_metadata ses)
                    < decoded_rows))
               (runtime_error ''Data 360 Query API materialization limit exceeded''))
       (sthen (fail_if (\<lambda>ses. s_has_expected_rows ses \<and>
                 budget (s_expected_rows ses) (s_rows ses) < decoded_rows)
               (runtime_error ''Data 360 Query API row count mismatch''))
         (upd (\<lambda>ses. ses\<lparr>s_rows := s_rows ses + decoded_rows,
                 s_cells := s_cells ses + decoded_rows * size_u64 (s_metadata ses),
                 s_fetched_chunks := s_fetched_chunks ses + 1,
                 s_next_chunk_index := s_next_chunk_index ses + 1,
                 s_arrow_response_outstanding := False\<rparr>)))))))"

section \<open>The client\<close>

definition options_invalid :: "QueryOptions \<Rightarrow> bool" where
  "options_invalid op \<longleftrightarrow>
     op_request_timeout_ms op = 0 \<or> op_overall_timeout_ms op = 0 \<or> op_poll_interval_ms op = 0 \<or>
     op_max_chunks op = 0 \<or> op_cleanup_timeout_ms op = 0 \<or> 1000 < op_cleanup_timeout_ms op \<or>
     op_max_rows op = 0 \<or> 100000 < op_max_rows op \<or> op_max_columns op = 0 \<or>
     op_max_cells op = 0 \<or> op_max_total_response_bytes op = 0 \<or>
     op_overall_timeout_ms op < op_poll_interval_ms op"

definition QueryApiV3Client :: "QueryOptions \<Rightarrow> exn + QueryOptions" where
  "QueryApiV3Client op =
     (if options_invalid op then Inl (invalid_argument ''Data 360 query options are invalid'')
      else Inr op)"

definition submit_body :: "byte_string \<Rightarrow> u64 \<Rightarrow> byte_string" where
  \<open>submit_body sql row_limit =
     ''{"sql":"'' @ JsonEscape sql @
     ''","transferMode":"ASYNC","settings":{"timezone":"Etc/UTC","language":"en_US"},'' @
     ''"queryRowLimit":'' @ to_string (unat row_limit) @ ''}''\<close>

definition submit_request :: "QueryOptions \<Rightarrow> QueryCredentials \<Rightarrow> byte_string \<Rightarrow> bool \<Rightarrow> HttpRequest" where
  "submit_request op cr sql metadata_only =
     default_HttpRequest
       \<lparr>rq_method := ''POST'',
        rq_url := api_base cr @ ''/api/v3/query'',
        rq_headers := map_put ''Accept'' ''application/json''
          (map_put ''Content-Type'' ''application/json''
            (map_put ''Authorization'' (''Bearer '' @ qc_access_token cr) [])),
        rq_body := submit_body sql (if metadata_only then 1 else op_max_rows op),
        rq_timeout_ms := op_request_timeout_ms op\<rparr>"

definition new_session :: "QueryOptions \<Rightarrow> QueryCredentials \<Rightarrow> u64 \<Rightarrow> HttpRequest \<Rightarrow> Session" where
  "new_session op cr now rq =
     \<lparr>s_options = op, s_credentials = cr, s_request = rq, s_started_at_ms = now,
      s_total_response_bytes = 0, s_mode = DIRECT_LEGACY, s_metadata = [], s_query_id = [],
      s_has_expected_chunks = False, s_expected_chunks = 0, s_has_expected_rows = False,
      s_expected_rows = 0, s_next_chunk_index = 0, s_buffered_direct = None, s_next_url = [],
      s_visited_urls = [], s_fetched_chunks = 0, s_rows = 0, s_cells = 0, s_reconciled = False,
      s_terminal = False, s_arrow_response_outstanding = False\<rparr>"

definition status_url :: "Session \<Rightarrow> byte_string" where
  "status_url ses = api_base (s_credentials ses) @ query_prefix @ s_query_id ses"

text \<open>One round of send, decode, remember the identifier, check the deadline.\<close>

definition exchange :: "'w QueryEnv \<Rightarrow> ('w Machine, exn, QueryResponse) sem" where
  "exchange env =
     sbind (send_and_decode env) (\<lambda>decoded.
       sthen (RememberQueryId decoded) (sthen (CheckActive env) (sret decoded)))"

definition poll_once :: "'w QueryEnv \<Rightarrow> ('w Machine, exn, QueryResponse) sem" where
  "poll_once env =
     sthen (fail_if (\<lambda>ses. \<not> IsSafeQueryId (s_query_id ses))
             (runtime_error ''Data 360 Query API returned an invalid async response''))
     (sbind (sess (\<lambda>ses. op_poll_interval_ms (s_options ses))) (\<lambda>interval.
      sthen (sleep_ms env interval)
      (sthen (CheckActive env)
      (sthen (upd (\<lambda>ses. get_request (status_url ses) ses))
        (exchange env)))))"

fun poll_loop :: "'w QueryEnv \<Rightarrow> nat \<Rightarrow> QueryResponse \<Rightarrow> ('w Machine, exn, QueryResponse) sem" where
  "poll_loop env fuel decoded =
     (if qr_state decoded \<noteq> RUNNING then sret decoded
      else case fuel of
             0 \<Rightarrow> sthrow OutOfFuel
           | Suc fuel' \<Rightarrow> sbind (poll_once env) (poll_loop env fuel'))"

declare poll_loop.simps [simp del]

definition numeric_incomplete :: "ColumnMetadata \<Rightarrow> bool" where
  "numeric_incomplete column \<longleftrightarrow>
     lower_string (cm_type column) = ''numeric'' \<and>
     (\<not> cm_has_precision column \<or> \<not> cm_has_scale column)"

definition open_numbered :: "'w QueryEnv \<Rightarrow> QueryResponse \<Rightarrow> ('w Machine, exn, unit) sem" where
  "open_numbered env decoded =
     sthen (fail_if (\<lambda>ses. \<not> IsSafeQueryId (s_query_id ses))
             (runtime_error ''Data 360 Query API returned an invalid completed response''))
     (sthen (upd (\<lambda>ses. ses\<lparr>s_mode := NUMBERED_V3, s_has_expected_chunks := True,
               s_expected_chunks := qr_chunk_count decoded,
               s_has_expected_rows := qr_has_row_count decoded,
               s_expected_rows := qr_row_count decoded\<rparr>))
     (sthen (fail_if (\<lambda>ses. op_max_chunks (s_options ses) < s_expected_chunks ses)
             (runtime_error ''Data 360 Query API returned too many chunks''))
     (sthen (fail_if (\<lambda>ses. s_has_expected_rows ses \<and> op_max_rows (s_options ses) < s_expected_rows ses)
             (runtime_error ''Data 360 Query API materialization limit exceeded''))
     (sthen (upd (\<lambda>ses. get_request (status_url ses @ ''/metadata'') ses))
     (sbind (send_and_decode env) (\<lambda>metadata_response.
      sthen (fail_if (\<lambda>_. qr_state metadata_response \<noteq> COMPLETE \<or> qr_metadata metadata_response = [])
             (runtime_error ''Data 360 Query API metadata retrieval failed''))
      (sthen (upd (s_metadata_update (\<lambda>_. qr_metadata metadata_response)))
        (fail_if (\<lambda>ses. \<exists>column \<in> set (s_metadata ses). numeric_incomplete column)
             (runtime_error ''Data 360 Query API numeric metadata was incomplete'')))))))))"

definition open_direct :: "QueryResponse \<Rightarrow> ('w Machine, exn, unit) sem" where
  "open_direct decoded =
     upd (\<lambda>ses. ses\<lparr>s_mode := DIRECT_LEGACY, s_metadata := qr_metadata decoded,
            s_has_expected_rows := qr_has_row_count decoded,
            s_expected_rows := qr_row_count decoded,
            s_buffered_direct := Some decoded\<rparr>)"

definition prepare_session :: "'w QueryEnv \<Rightarrow> nat \<Rightarrow> ('w Machine, exn, unit) sem" where
  "prepare_session env fuel =
     sbind (exchange env) (\<lambda>first.
     sbind (poll_loop env fuel first) (\<lambda>decoded.
     sthen (fail_if (\<lambda>_. qr_state decoded \<noteq> COMPLETE)
             (runtime_error ''Data 360 Query API did not complete''))
     (sthen (if qr_has_chunk_count decoded \<or> 0 < qr_chunk_count decoded
             then open_numbered env decoded else open_direct decoded)
     (sthen (fail_if (\<lambda>ses. op_max_columns (s_options ses) < size_u64 (s_metadata ses))
             (runtime_error ''Data 360 Query API returned too many columns''))
       (smodify (m_owner_update (\<lambda>_. PreparedOwner)))))))"

text \<open>
  On an exception the handler cancels, and the destruction of the session that follows runs the
  destructor, which cancels again.
\<close>

definition PrepareInternal ::
  "'w QueryEnv \<Rightarrow> QueryOptions \<Rightarrow> nat \<Rightarrow> byte_string \<Rightarrow> QueryCredentials \<Rightarrow> bool \<Rightarrow> ('w Machine, exn, unit) sem" where
  "PrepareInternal env op fuel sql cr metadata_only =
     sbind (is_cancelled env) (\<lambda>b.
       if b then sthrow cancelled_exn
       else if sql = [] then sthrow (invalid_argument ''Data 360 query SQL must not be empty'')
       else if qc_instance_url cr = [] \<or> qc_access_token cr = []
         then sthrow (invalid_argument ''Data 360 credentials are incomplete'')
       else if \<not> IsTrustedTenantUrl (qc_instance_url cr)
         then sthrow (invalid_argument ''Data 360 tenant URL is not trusted'')
       else sbind (now_ms env) (\<lambda>now.
         sthen (smodify (\<lambda>s. s\<lparr>m_owner := NoOwner,
                  m_session := new_session op cr now (submit_request op cr sql metadata_only)\<rparr>))
           (scatch (prepare_session env fuel)
              (\<lambda>e. sthen (Cancel env) (sthen (Cancel env) (sthrow e))))))"

definition Prepare ::
  "'w QueryEnv \<Rightarrow> QueryOptions \<Rightarrow> nat \<Rightarrow> byte_string \<Rightarrow> QueryCredentials \<Rightarrow> ('w Machine, exn, unit) sem" where
  "Prepare env op fuel sql cr = PrepareInternal env op fuel sql cr False"

fun drain :: "'w QueryEnv \<Rightarrow> nat \<Rightarrow> ResultChunk list \<Rightarrow> ('w Machine, exn, ResultChunk list) sem" where
  "drain env fuel chunks =
     (case fuel of
        0 \<Rightarrow> sthrow OutOfFuel
      | Suc fuel' \<Rightarrow>
          sbind (NextChunk env) (\<lambda>r.
            case r of None \<Rightarrow> sret chunks | Some c \<Rightarrow> drain env fuel' (chunks @ [c])))"

declare drain.simps [simp del]

text \<open>The local objects are destroyed on every way out of \<open>Execute\<close> and \<open>ExecuteMetadata\<close>.\<close>

definition with_cleanup :: "'w QueryEnv \<Rightarrow> ('w Machine, exn, 'a) sem \<Rightarrow> ('w Machine, exn, 'a) sem" where
  "with_cleanup env m =
     scatch (sbind m (\<lambda>a. sthen (destroy_owner env) (sret a)))
       (\<lambda>e. sthen (destroy_owner env) (sthrow e))"

definition Execute ::
  "'w QueryEnv \<Rightarrow> QueryOptions \<Rightarrow> nat \<Rightarrow> byte_string \<Rightarrow> QueryCredentials \<Rightarrow>
     ('w Machine, exn, ColumnMetadata list \<times> ResultChunk list) sem" where
  "Execute env op fuel sql cr =
     sthen (Prepare env op fuel sql cr)
       (with_cleanup env
         (sbind PreparedMetadata (\<lambda>metadata.
          sthen OpenCursor
          (sbind (drain env fuel []) (\<lambda>chunks. sret (metadata, chunks))))))"

definition ExecuteMetadata ::
  "'w QueryEnv \<Rightarrow> QueryOptions \<Rightarrow> nat \<Rightarrow> byte_string \<Rightarrow> QueryCredentials \<Rightarrow>
     ('w Machine, exn, ColumnMetadata list) sem" where
  "ExecuteMetadata env op fuel sql cr =
     sthen (PrepareInternal env op fuel sql cr True)
       (with_cleanup env PreparedMetadata)"

end
