(* ===== verification/Query_Invariants.thy ===== *)
theory Query_Invariants
  imports Query_Session
begin

text \<open>
  What every run of the query client keeps: the endpoints its requests go to, the budgets on rows,
  cells, chunks and response bytes, and the bookkeeping of numbered chunks. Each operation of
  \<open>Query_Session\<close> has one preservation lemma; the runs are an inductive relation over the
  operations a caller can make.
\<close>

section \<open>Endpoints\<close>

text \<open>
  The requests the client may make with its credentials: submission, status, metadata, one chunk,
  and deletion, all below the trimmed tenant URL and without redirects.
\<close>

definition endpoint_path :: "byte_string \<Rightarrow> byte_string \<Rightarrow> bool" where
  "endpoint_path verb path \<longleftrightarrow>
     (verb = ''POST'' \<and> path = ''/api/v3/query'') \<or>
     (\<exists>q. IsSafeQueryId q \<and> path = query_prefix @ q \<and> (verb = ''DELETE'' \<or> verb = ''GET'')) \<or>
     (\<exists>q. IsSafeQueryId q \<and> path = query_prefix @ q @ ''/metadata'' \<and> verb = ''GET'') \<or>
     (IsSafeChunkPath path \<and> verb = ''GET'')"

definition endpoint :: "QueryCredentials \<Rightarrow> HttpRequest \<Rightarrow> bool" where
  "endpoint cr r \<longleftrightarrow>
     \<not> rq_follow_redirects r \<and>
     map_of (rq_headers r) ''Authorization'' = Some (''Bearer '' @ qc_access_token cr) \<and>
     (\<exists>path. rq_url r = api_base cr @ path \<and> endpoint_path (rq_method r) path)"

text \<open>What holds of a session at every moment of its life.\<close>

definition base_ok :: "QueryOptions \<Rightarrow> QueryCredentials \<Rightarrow> Session \<Rightarrow> bool" where
  "base_ok op cr ses \<longleftrightarrow>
     s_options ses = op \<and> s_credentials ses = cr \<and>
     \<not> rq_follow_redirects (s_request ses) \<and>
     map_of (rq_headers (s_request ses)) ''Authorization'' = Some (''Bearer '' @ qc_access_token cr) \<and>
     (s_query_id ses \<noteq> [] \<longrightarrow> IsSafeQueryId (s_query_id ses)) \<and>
     (s_mode ses = NUMBERED_V3 \<longrightarrow> IsSafeQueryId (s_query_id ses)) \<and>
     s_total_response_bytes ses \<le> op_max_total_response_bytes op"

definition confined :: "QueryOptions \<Rightarrow> QueryCredentials \<Rightarrow> 'w Machine \<Rightarrow> bool" where
  "confined op cr s \<longleftrightarrow> base_ok op cr (m_session s) \<and> (\<forall>r \<in> set (m_sent s). endpoint cr r)"

text \<open>The same, with the session's request ready to be sent.\<close>

definition ready :: "QueryOptions \<Rightarrow> QueryCredentials \<Rightarrow> 'w Machine \<Rightarrow> bool" where
  "ready op cr s \<longleftrightarrow> confined op cr s \<and> endpoint cr (s_request (m_session s))"

lemmas confined_defs = confined_def ready_def base_ok_def endpoint_def

subsection \<open>Paths\<close>

lemma to_string_u64_length: "length (to_string (unat (n::u64))) \<le> 20"
proof (rule to_string_length)
  have "unat n < 2 ^ 64" using unsigned_less [of n] by simp
  then show "unat n < 10 ^ 20" by simp
qed simp

lemma chunk_path_safe:
  "IsSafeQueryId q \<Longrightarrow> IsSafeChunkPath (query_prefix @ q @ chunks_separator @ to_string (unat (n::u64)))"
  unfolding chunk_path_iff
  by (intro exI [of _ q] exI [of _ "to_string (unat n)"] conjI refl to_string_u64_length
      to_string_digits to_string_nonempty)

lemma safe_id_of_path: "IsSafeChunkPath p \<Longrightarrow> IsSafeQueryId (QueryIdFromChunkPath p)"
  unfolding chunk_path_iff by (elim exE conjE) (simp only: QueryIdFromChunkPath_path)

subsection \<open>Interface calls\<close>

text \<open>The hooks and the codec touch the world only.\<close>

definition world_free :: "('w Machine \<Rightarrow> bool) \<Rightarrow> bool" where
  "world_free I \<longleftrightarrow> (\<forall>s w. I s \<longrightarrow> I (s\<lparr>m_world := w\<rparr>))"

lemma world_only:
  assumes "world_free I"
  shows "keeps I (is_cancelled env)" "keeps I (now_ms env)" "keeps I (sleep_ms env d)"
    "keeps I (codec_decode env r)"
  using assms
  by (auto intro!: keepsI simp: world_free_def is_cancelled_def now_ms_def sleep_ms_def codec_decode_def
      split: prod.splits)

lemma world_only_checks:
  assumes "world_free I"
  shows "keeps I (CheckActive env)" "keeps I (transport_failure env)" "keeps I (Decode env r)"
proof -
  note hooks = world_only [OF assms]
  show "keeps I (CheckActive env)" unfolding CheckActive_def by (intro keeps_intros hooks)
  show "keeps I (transport_failure env)" unfolding transport_failure_def by (intro keeps_intros hooks)
  have step: "keeps I (case d of Inr q \<Rightarrow> sret q | Inl DecodeReauth \<Rightarrow> sthrow ReauthRequiredException
        | Inl DecodeOther \<Rightarrow> sbind (is_cancelled env) (\<lambda>b. if b then sthrow cancelled_exn
             else sthrow (runtime_error ''Data 360 response decoding failed'')))" for d
    by (cases d rule: sum.exhaust; (cases "projl d")?) (auto intro!: keeps_intros hooks split: decode_exn.splits)
  show "keeps I (Decode env r)" unfolding Decode_def by (rule keeps_bind [OF hooks(4) step])
qed

lemma confined_world_free: "world_free (confined op cr)" "world_free (ready op cr)"
  by (simp_all add: world_free_def confined_def ready_def)

lemmas confined_hooks [keeps_intros] =
  world_only [OF confined_world_free(1)] world_only_checks [OF confined_world_free(1)]
  world_only [OF confined_world_free(2)] world_only_checks [OF confined_world_free(2)]

lemma confined_owner [simp]: "confined op cr (m_owner_update f s) = confined op cr s"
  by (simp add: confined_def)

lemma confined_irrelevant [simp]:
  "confined op cr (m_session_update (s_buffered_direct_update f1) s) = confined op cr s"
  "confined op cr (m_session_update (s_metadata_update f2) s) = confined op cr s"
  "confined op cr (m_session_update (s_arrow_response_outstanding_update f3) s) = confined op cr s"
  "confined op cr (m_session_update (s_cells_update f4) s) = confined op cr s"
  by (simp_all add: confined_def base_ok_def)

lemma keeps_transport_send:
  "endpoint cr r \<Longrightarrow> keeps (confined op cr) (transport_send env r)"
  "endpoint cr r \<Longrightarrow> keeps (ready op cr) (transport_send env r)"
  by (auto intro!: keepsI simp: transport_send_def confined_def ready_def split: prod.splits)

subsection \<open>Session operations\<close>

lemma endpoint_cancellation:
  "base_ok op cr ses \<Longrightarrow> IsSafeQueryId (s_query_id ses) \<Longrightarrow> endpoint cr (cancellation_request ses)"
  by (auto simp: base_ok_def endpoint_def endpoint_path_def cancellation_request_def map_of_map_put)

lemma base_ok_terminal [simp]: "base_ok op cr (s_terminal_update f ses) = base_ok op cr ses"
  by (simp add: base_ok_def)

lemma keeps_Cancel [keeps_intros]: "keeps (confined op cr) (Cancel env)"
proof -
  have "triple (\<lambda>s. confined op cr s \<and> m_session s = ses)
          (if s_terminal ses \<or> s_reconciled ses \<or> \<not> IsSafeQueryId (s_query_id ses) then sret ()
           else sthen (upd (s_terminal_update (\<lambda>_. True)))
                (sthen (transport_send env (cancellation_request ses)) (sret ())))
          (\<lambda>_. confined op cr) (\<lambda>_. confined op cr)" for ses
    by (auto intro!: tripleI simp: sem_defs transport_send_def confined_def
        intro!: endpoint_cancellation [of op] split: prod.splits if_splits)
  then show ?thesis unfolding Cancel_def keeps_def by (rule triple_gets_bind)
qed

lemma ready_limit_request [simp]:
  "ready op cr (m_session_update (limit_request now) s) = ready op cr s"
  by (simp add: confined_defs limit_request_def)

lemma ready_spend:
  "ready op cr s \<Longrightarrow> \<not> response_budget (m_session s) < n \<Longrightarrow>
     ready op cr (m_session_update (s_total_response_bytes_update (\<lambda>k. k + n)) s)"
  by (auto simp: confined_defs response_budget_def not_less intro: budget_spend(2))

lemma keeps_Send [keeps_intros]: "keeps (ready op cr) (Send env)"
proof -
  have answer: "keeps (ready op cr) (case answer of
           None \<Rightarrow> transport_failure env
         | Some response \<Rightarrow>
             sthen (fail_if (\<lambda>ses. response_budget ses < size_u64 (rs_body response)) e)
             (sthen (upd (s_total_response_bytes_update (\<lambda>n. n + size_u64 (rs_body response))))
               (sret response)))" for answer e
  proof (cases answer)
    case (Some response)
    show ?thesis
      unfolding Some option.case
      by (rule keepsI) (auto simp: sem_defs intro: ready_spend split: if_splits)
  qed (simp add: keeps_intros)
  have sent: "keeps (ready op cr) (sbind (sess s_request) (\<lambda>outbound.
      sbind (transport_send env outbound) k))"
    if k: "\<And>a. keeps (ready op cr) (k a)" for k :: "HttpResponse option \<Rightarrow> ('a Machine, exn, HttpResponse) sem"
  proof (unfold keeps_def, rule triple_gets_bind)
    fix r
    show "triple (\<lambda>s. ready op cr s \<and> s_request (m_session s) = r) (sbind (transport_send env r) k)
        (\<lambda>_. ready op cr) (\<lambda>_. ready op cr)"
    proof (cases "endpoint cr r")
      case True
      then have "keeps (ready op cr) (sbind (transport_send env r) k)"
        using k by (intro keeps_bind keeps_transport_send(2))
      then show ?thesis unfolding keeps_def by (rule triple_pre) simp
    next
      case False
      then show ?thesis by (auto simp: triple_def ready_def)
    qed
  qed
  have limited: "keeps (ready op cr) (upd (limit_request now))" for now
    by (rule keeps_modify) simp
  show ?thesis
    unfolding Send_def
    by (rule keeps_then keeps_bind [where m = "now_ms env"] confined_hooks limited sent answer)+
qed

lemma ready_confined: "ready op cr s \<Longrightarrow> confined op cr s"
  by (simp add: ready_def)

lemma triple_send_and_decode:
  "triple (ready op cr) (send_and_decode env) (\<lambda>_. confined op cr) (\<lambda>_. confined op cr)"
proof -
  have "keeps (ready op cr) (send_and_decode env)"
    unfolding send_and_decode_def by (intro keeps_intros)
  then show ?thesis
    unfolding keeps_def by (rule triple_weaken_post) (auto dest: ready_confined)
qed

lemma confined_ids:
  "confined op cr s \<Longrightarrow> IsSafeQueryId q \<Longrightarrow>
     confined op cr (m_session_update (s_query_id_update (\<lambda>_. q)) s)"
  by (auto simp: confined_defs)

lemma keeps_RememberQueryId [keeps_intros]: "keeps (confined op cr) (RememberQueryId response)"
  by (rule keepsI)
    (auto simp: RememberQueryId_def sem_defs Let_def confined_defs safe_id_of_path split: if_splits)

lemma keeps_accept_rows [keeps_intros]: "keeps (confined op cr) (accept_rows rows)"
proof (induction rows)
  case (Cons row rows)
  then show ?case by (auto intro!: keeps_intros simp: confined_defs)
qed (simp add: keeps_intros)

lemma keeps_Accept [keeps_intros]: "keeps (confined op cr) (Accept response)"
  unfolding Accept_def Let_def by (intro keeps_intros) (simp add: confined_defs)

lemma keeps_Finish [keeps_intros]: "keeps (confined op cr) Finish"
  unfolding Finish_def by (intro keeps_intros) (simp add: confined_defs)

subsection \<open>Cursor operations\<close>

lemma ready_get:
  assumes "confined op cr s" "endpoint_path ''GET'' path"
  shows "ready op cr (m_session_update (get_request (api_base cr @ path)) s)"
  using assms by (auto simp: confined_defs get_request_def)

lemma ready_irrelevant [simp]:
  "ready op cr (m_session_update (\<lambda>ses. (f ses)\<lparr>s_next_chunk_index := g ses\<rparr>) s) =
     ready op cr (m_session_update f s)"
  "ready op cr (m_session_update (s_next_chunk_index_update h) s) = ready op cr s"
  "ready op cr (m_session_update (s_arrow_response_outstanding_update b) s) = ready op cr s"
  by (simp_all add: confined_defs)

lemma ready_chunk_get:
  assumes "confined op cr s" "s_mode (m_session s) = NUMBERED_V3"
  shows "ready op cr (m_session_update (\<lambda>ses. get_request (chunk_url ses) ses) s)"
proof -
  have "IsSafeQueryId (s_query_id (m_session s))" "s_credentials (m_session s) = cr"
    using assms by (auto simp: confined_def base_ok_def)
  then have "endpoint_path ''GET'' (query_prefix @ s_query_id (m_session s) @ chunks_separator @
      to_string (unat (s_next_chunk_index (m_session s))))"
    by (simp add: endpoint_path_def chunk_path_safe)
  from ready_get [OF assms(1) this] show ?thesis
    using \<open>s_credentials (m_session s) = cr\<close>
    by (simp add: confined_defs get_request_def chunk_url_def)
qed

lemma ready_arrow:
  assumes "confined op cr s" "s_mode (m_session s) = NUMBERED_V3"
  shows "ready op cr (m_session_update arrow_request s)"
  using ready_chunk_get [OF assms]
  by (auto simp: confined_defs get_request_def arrow_request_def map_of_map_put chunk_url_def)

lemma triple_fetch:
  assumes "\<And>s. P s \<Longrightarrow> ready op cr (g s)"
  shows "triple P (sthen (smodify g) (sbind (send_and_decode env) (\<lambda>r. sret (Some r))))
    (\<lambda>_. confined op cr) (\<lambda>_. confined op cr)"
proof (rule triple_then)
  show "triple (ready op cr) (sbind (send_and_decode env) (\<lambda>r. sret (Some r)))
      (\<lambda>_. confined op cr) (\<lambda>_. confined op cr)"
    by (rule triple_bind [OF triple_atomic(1) triple_send_and_decode])
  show "triple P (smodify g) (\<lambda>_. ready op cr) (\<lambda>_. confined op cr)"
    using assms by (auto simp: triple_def sem_defs)
qed

lemma ready_link:
  assumes "confined op cr s" "IsSafeChunkPath (s_next_url (m_session s))"
  shows "ready op cr (m_session_update
    (\<lambda>ses. get_request (api_base (s_credentials ses) @ s_next_url ses) ses) s)"
proof -
  have "ready op cr (m_session_update (get_request (api_base cr @ s_next_url (m_session s))) s)"
    using assms by (intro ready_get) (auto simp: endpoint_path_def)
  with assms(1) show ?thesis by (simp add: confined_defs get_request_def)
qed

lemma keeps_link_response: "keeps (confined op cr) (link_response env)"
proof -
  define R where "R = (\<lambda>s :: 'a Machine. confined op cr s \<and> IsSafeChunkPath (s_next_url (m_session s)))"
  have RI: "R s \<Longrightarrow> confined op cr s" for s by (simp add: R_def)
  have "keeps R (upd (\<lambda>ses. ses\<lparr>s_visited_urls := s_next_url ses # s_visited_urls ses\<rparr>))"
    "keeps R (upd (\<lambda>ses. if s_query_id ses = []
                then ses\<lparr>s_query_id := QueryIdFromChunkPath (s_next_url ses)\<rparr> else ses))"
    by (rule keeps_modify, auto simp: R_def confined_defs safe_id_of_path)+
  note steps = this
  have fetch: "triple R
     (sthen (upd (\<lambda>ses. get_request (api_base (s_credentials ses) @ s_next_url ses) ses))
       (sbind (send_and_decode env) (\<lambda>r. sret (Some r))))
      (\<lambda>_. confined op cr) (\<lambda>_. confined op cr)"
    by (rule triple_fetch) (simp add: R_def ready_link)
  show ?thesis
    unfolding link_response_def keeps_def
  proof (rule triple_guard_then, goal_cases)
    case 1
    show ?case
      apply (rule triple_pre [where P' = R])
       apply (rule fetch steps | rule triple_keeps_then | erule RI)+
      apply (simp add: R_def)
      done
  qed simp
qed

lemma keeps_next_response [keeps_intros]: "keeps (confined op cr) (next_response env)"
  unfolding next_response_def keeps_def
proof (rule triple_gets_bind)
  fix ses
  let ?P = "\<lambda>s. confined op cr s \<and> m_session s = ses"
  have parts: "keeps (confined op cr) finish_response" "keeps (confined op cr) (buffered_response r)"
      "keeps (confined op cr) (link_response env)" for r
    unfolding finish_response_def buffered_response_def
    by (intro keeps_intros, simp_all add: keeps_link_response)+
  have numbered: "triple ?P (numbered_response env) (\<lambda>_. confined op cr) (\<lambda>_. confined op cr)"
    if "s_mode ses = NUMBERED_V3"
    unfolding numbered_response_def by (rule triple_fetch) (use that in \<open>auto intro: ready_chunk_get\<close>)
  show "triple ?P
    (if s_mode ses = NUMBERED_V3 then
         (if s_expected_chunks ses \<le> s_next_chunk_index ses then finish_response
          else numbered_response env)
     else (case s_buffered_direct ses of
            Some r \<Rightarrow> buffered_response r
          | None \<Rightarrow> if s_next_url ses = [] then finish_response else link_response env))
    (\<lambda>_. confined op cr) (\<lambda>_. confined op cr)"
    using numbered parts [unfolded keeps_def, THEN triple_pre, of ?P]
    by (auto split: option.split)
qed

lemma keeps_cancel_on_error [keeps_intros]:
  "keeps (confined op cr) m \<Longrightarrow> keeps (confined op cr) (cancel_on_error env m)"
  unfolding cancel_on_error_def by (intro keeps_intros)

lemma keeps_accept_response [keeps_intros]: "keeps (confined op cr) (accept_response env response)"
  unfolding accept_response_def by (intro keeps_intros) (simp add: confined_defs)

lemma keeps_NextChunk: "keeps (confined op cr) (NextChunk env)"
  unfolding NextChunk_def by (intro keeps_intros)

lemma triple_fetch_arrow:
  "triple (\<lambda>s. confined op cr s \<and> s_mode (m_session s) = NUMBERED_V3) (fetch_arrow env)
     (\<lambda>_. confined op cr) (\<lambda>_. confined op cr)"
  unfolding fetch_arrow_def
proof (rule triple_then)
  let ?tail = "\<lambda>response. sthen (if http_ok (rs_status response) then sret ()
             else sbind (codec_decode env response) (\<lambda>d.
                    if d = Inl DecodeReauth then sthrow ReauthRequiredException
                    else sthrow (runtime_error ''Data 360 Query API chunk retrieval failed'')))
      (sthen (CheckActive env)
      (sthen (upd (s_arrow_response_outstanding_update (\<lambda>_. True))) (sret (Some response))))"
  have "keeps (ready op cr) (sbind (Send env) ?tail)"
    by (intro keeps_intros) simp
  then show "triple (ready op cr) (sbind (Send env) ?tail) (\<lambda>_. confined op cr) (\<lambda>_. confined op cr)"
    unfolding keeps_def by (rule triple_weaken_post) (auto dest: ready_confined)
  show "triple (\<lambda>s. confined op cr s \<and> s_mode (m_session s) = NUMBERED_V3) (upd arrow_request)
      (\<lambda>_. ready op cr) (\<lambda>_. confined op cr)"
    by (auto simp: triple_def sem_defs intro: ready_arrow)
qed

text \<open>The mode of a session does not change once it is open.\<close>

definition mode_is :: "QueryMode \<Rightarrow> 'w Machine \<Rightarrow> bool" where
  "mode_is md s \<longleftrightarrow> s_mode (m_session s) = md"

lemma mode_update [simp]:
  assumes "\<And>ses. s_mode (g ses) = s_mode ses"
  shows "mode_is md (m_session_update g s) = mode_is md s"
  using assms by (simp add: mode_is_def)

lemma mode_world_free: "world_free (mode_is md)"
  by (simp add: world_free_def mode_is_def)

lemma keeps_mode_transport [keeps_intros]: "keeps (mode_is md) (transport_send env r)"
  by (auto intro!: keepsI simp: transport_send_def mode_is_def split: prod.splits)

lemmas mode_hooks [keeps_intros] = world_only [OF mode_world_free] world_only_checks [OF mode_world_free]

lemma keeps_mode [keeps_intros]:
  "keeps (mode_is md) (Send env)" "keeps (mode_is md) (Cancel env)" "keeps (mode_is md) Finish"
  "keeps (mode_is md) (fetch_arrow env)"
proof -
  show send: "keeps (mode_is md) (Send env)"
    unfolding Send_def by (intro keeps_intros) (simp_all add: limit_request_def)
  show "keeps (mode_is md) (Cancel env)" unfolding Cancel_def by (intro keeps_intros) simp
  show "keeps (mode_is md) Finish" unfolding Finish_def by (intro keeps_intros) simp
  show "keeps (mode_is md) (fetch_arrow env)"
    unfolding fetch_arrow_def by (intro keeps_intros send) (simp_all add: arrow_request_def)
qed

lemma keeps_NextArrowChunk: "keeps (confined op cr) (NextArrowChunk env)"
proof (rule keeps_split [where G = "mode_is NUMBERED_V3"])
  let ?C = "\<lambda>s :: 'a Machine. confined op cr s \<and> mode_is NUMBERED_V3 s"
  have parts: "keeps ?C (CheckActive env)" "keeps ?C Finish" "keeps ?C (Cancel env)"
    by (intro keeps_conj keeps_intros)+
  have "keeps ?C (fetch_arrow env)"
  proof (rule keepsI)
    fix s r s' assume s: "?C s" "fetch_arrow env s = (r, s')"
    have "confined op cr s'"
      using triple_fetch_arrow [of op cr env] s
      by (cases r) (auto simp: mode_is_def dest: triple_ret triple_exn)
    with s show "?C s'" using keepsD [OF keeps_mode(4)] by blast
  qed
  then show "keeps ?C (NextArrowChunk env)"
    unfolding NextArrowChunk_def cancel_on_error_def by (intro keeps_intros parts)
next
  show "confined op cr (snd (NextArrowChunk env s))"
    if "confined op cr s" "\<not> mode_is NUMBERED_V3 s" for s
    using that by (auto simp: NextArrowChunk_def sem_defs mode_is_def)
qed

lemma keeps_ReportArrowChunk: "keeps (confined op cr) (ReportArrowChunk env n)"
  unfolding ReportArrowChunk_def by (intro keeps_intros) (simp add: confined_defs)

lemma keeps_destroy_owner [keeps_intros]: "keeps (confined op cr) (destroy_owner env)"
  unfolding destroy_owner_def by (intro keeps_intros) simp

subsection \<open>Preparation\<close>

lemma triple_exchange:
  "triple (ready op cr) (exchange env) (\<lambda>_. confined op cr) (\<lambda>_. confined op cr)"
  unfolding exchange_def
  by (rule triple_bind [OF keeps_triple triple_send_and_decode]) (intro keeps_intros)

lemma ready_status:
  assumes "confined op cr s" "IsSafeQueryId (s_query_id (m_session s))"
  shows "ready op cr (m_session_update (\<lambda>ses. get_request (status_url ses) ses) s)"
    "ready op cr (m_session_update (\<lambda>ses. get_request (status_url ses @ ''/metadata'') ses) s)"
proof -
  let ?q = "s_query_id (m_session s)"
  have cr: "s_credentials (m_session s) = cr" using assms(1) by (simp add: confined_def base_ok_def)
  have ep: "endpoint_path ''GET'' (query_prefix @ ?q)" "endpoint_path ''GET'' (query_prefix @ ?q @ ''/metadata'')"
    using assms(2) by (auto simp: endpoint_path_def)
  from ready_get [OF assms(1) ep(1)] ready_get [OF assms(1) ep(2)]
  show "ready op cr (m_session_update (\<lambda>ses. get_request (status_url ses) ses) s)"
    "ready op cr (m_session_update (\<lambda>ses. get_request (status_url ses @ ''/metadata'') ses) s)"
    by (simp_all add: confined_defs get_request_def status_url_def cr)
qed

lemma keeps_poll_once [keeps_intros]: "keeps (confined op cr) (poll_once env)"
proof -
  define C where "C = (\<lambda>s :: 'a Machine. confined op cr s \<and> IsSafeQueryId (s_query_id (m_session s)))"
  have "world_free C" using confined_world_free(1) by (auto simp: C_def world_free_def)
  note hooks = world_only [OF this] world_only_checks [OF this] keeps_atomic
  have CI: "C s \<Longrightarrow> confined op cr s" for s by (simp add: C_def)
  have ask: "triple C (sthen (upd (\<lambda>ses. get_request (status_url ses) ses)) (exchange env))
      (\<lambda>_. confined op cr) (\<lambda>_. confined op cr)"
    by (rule triple_modify_then [OF triple_exchange]) (simp add: C_def ready_status)
  have "triple C (sbind (sess (\<lambda>ses. op_poll_interval_ms (s_options ses))) (\<lambda>interval.
      sthen (sleep_ms env interval)
      (sthen (CheckActive env)
      (sthen (upd (\<lambda>ses. get_request (status_url ses) ses)) (exchange env)))))
      (\<lambda>_. confined op cr) (\<lambda>_. confined op cr)"
    by (intro triple_keeps_bind triple_keeps_then hooks ask CI)
  then show ?thesis
    unfolding poll_once_def keeps_def
    by (intro triple_guard_then) (auto simp: C_def elim: triple_pre)
qed

lemma keeps_poll_loop [keeps_intros]: "keeps (confined op cr) (poll_loop env fuel decoded)"
proof (induction fuel arbitrary: decoded)
  case 0
  then show ?case by (subst poll_loop.simps) (simp add: keeps_intros)
next
  case (Suc fuel)
  then show ?case by (subst poll_loop.simps) (auto intro!: keeps_intros)
qed

lemma keeps_open_numbered [keeps_intros]: "keeps (confined op cr) (open_numbered env decoded)"
proof -
  define C where "C = (\<lambda>s :: 'a Machine. confined op cr s \<and> IsSafeQueryId (s_query_id (m_session s)))"
  have CI: "C s \<Longrightarrow> confined op cr s" for s by (simp add: C_def)
  have opened: "keeps C (upd (\<lambda>ses. ses\<lparr>s_mode := NUMBERED_V3, s_has_expected_chunks := True,
      s_expected_chunks := a, s_has_expected_rows := b, s_expected_rows := c\<rparr>))" for a b c
    by (rule keeps_modify) (simp add: C_def confined_defs)
  have rest: "triple C (sthen (upd (\<lambda>ses. get_request (status_url ses @ ''/metadata'') ses))
      (sbind (send_and_decode env) k)) (\<lambda>_. confined op cr) (\<lambda>_. confined op cr)"
    if "\<And>a. keeps (confined op cr) (k a)" for k :: "QueryResponse \<Rightarrow> ('a Machine, exn, unit) sem"
    by (rule triple_modify_then [OF triple_bind [OF keeps_triple [OF that] triple_send_and_decode]])
      (simp add: C_def ready_status)
  show ?thesis
    unfolding open_numbered_def keeps_def
  proof (rule triple_guard_then, goal_cases)
    case 1
    note seq = triple_keeps_then [where C = C and E = "\<lambda>_. confined op cr", OF _ _ CI]
    show ?case
      unfolding not_not C_def [symmetric]
      by (rule rest seq opened keeps_atomic)+ (assumption | intro keeps_intros | simp)+
  qed simp
qed

lemma keeps_prepare_tail:
  "keeps (confined op cr) (sbind (poll_loop env fuel first) (\<lambda>decoded.
     sthen (fail_if (\<lambda>_. qr_state decoded \<noteq> COMPLETE) e1)
     (sthen (if qr_has_chunk_count decoded \<or> 0 < qr_chunk_count decoded
             then open_numbered env decoded else open_direct decoded)
     (sthen (fail_if (\<lambda>ses. op_max_columns (s_options ses) < size_u64 (s_metadata ses)) e2)
       (smodify (m_owner_update (\<lambda>_. PreparedOwner)))))))"
proof -
  have "keeps (confined op cr) (open_direct decoded)" for decoded
    unfolding open_direct_def by (rule keeps_modify) (auto simp: confined_defs)
  then show ?thesis by (intro keeps_intros) simp_all
qed

lemma triple_prepare_session:
  "triple (ready op cr) (prepare_session env fuel) (\<lambda>_. confined op cr) (\<lambda>_. confined op cr)"
  unfolding prepare_session_def
  by (rule triple_bind [OF keeps_triple [OF keeps_prepare_tail] triple_exchange])

lemma endpoint_submit: "endpoint cr (submit_request op cr sql b)"
  by (simp add: endpoint_def endpoint_path_def submit_request_def default_HttpRequest_def
      map_of_map_put)

lemma ready_new_session:
  "\<forall>r \<in> set (m_sent s). endpoint cr r \<Longrightarrow>
     ready op cr (s\<lparr>m_owner := ow, m_session := new_session op cr now (submit_request op cr sql b)\<rparr>)"
  using endpoint_submit [of cr op sql b]
  by (simp add: ready_def confined_def base_ok_def new_session_def endpoint_def)

end
