(* ===== verification/Query_Budgets.thy ===== *)
theory Query_Budgets
  imports Query_Invariants
begin

text \<open>
  The counters of a session: rows, cells, chunks and the position in the numbered result. The
  operations that talk to the outside leave them alone; \<open>Accept\<close> and \<open>ReportArrowChunk\<close> advance
  them within the configured limits; \<open>Finish\<close> reconciles them with what the service announced.
\<close>

section \<open>The counters and what leaves them alone\<close>

definition counters ::
  "Session \<Rightarrow> (QueryOptions \<times> QueryMode \<times> ColumnMetadata list) \<times> (bool \<times> u64 \<times> bool \<times> u64) \<times>
     (u64 \<times> u64 \<times> u64 \<times> u64) \<times> (bool \<times> bool)" where
  "counters ses =
     ((s_options ses, s_mode ses, s_metadata ses),
      (s_has_expected_chunks ses, s_expected_chunks ses, s_has_expected_rows ses, s_expected_rows ses),
      (s_next_chunk_index ses, s_fetched_chunks ses, s_rows ses, s_cells ses),
      (s_reconciled ses, s_arrow_response_outstanding ses))"

definition counters_are where
  "counters_are c s \<longleftrightarrow> counters (m_session s) = c"

lemma counters_update [simp]:
  "counters (s_request_update f1 ses) = counters ses"
  "counters (s_total_response_bytes_update f2 ses) = counters ses"
  "counters (s_query_id_update f3 ses) = counters ses"
  "counters (s_terminal_update f4 ses) = counters ses"
  "counters (s_visited_urls_update f5 ses) = counters ses"
  "counters (s_next_url_update f6 ses) = counters ses"
  "counters (s_buffered_direct_update f7 ses) = counters ses"
  "counters (limit_request now ses) = counters ses"
  "counters (get_request url ses) = counters ses"
  "counters (arrow_request ses) = counters ses"
  by (simp_all add: counters_def limit_request_def get_request_def arrow_request_def)

lemma counters_are_update:
  "(\<And>ses. counters (g ses) = counters ses) \<Longrightarrow> counters_are c (m_session_update g s) = counters_are c s"
  by (simp add: counters_are_def)

lemma counters_world_free: "world_free (counters_are c)"
  by (simp add: world_free_def counters_are_def)

lemmas counters_hooks [keeps_intros] =
  world_only [OF counters_world_free] world_only_checks [OF counters_world_free]

lemma keeps_counters_transport [keeps_intros]: "keeps (counters_are c) (transport_send env r)"
  by (auto intro!: keepsI simp: transport_send_def counters_are_def split: prod.splits)

lemma keeps_counters_Send [keeps_intros]: "keeps (counters_are c) (Send env)"
  unfolding Send_def by (intro keeps_intros) (simp_all add: counters_are_update)

lemma keeps_counters_exchange [keeps_intros]: "keeps (counters_are c) (send_and_decode env)"
  unfolding send_and_decode_def by (intro keeps_intros)

lemma keeps_counters_Cancel [keeps_intros]: "keeps (counters_are c) (Cancel env)"
  unfolding Cancel_def by (intro keeps_intros) (simp add: counters_are_update)

lemma keeps_counters_Remember [keeps_intros]: "keeps (counters_are c) (RememberQueryId r)"
  unfolding RememberQueryId_def Let_def by (intro keeps_intros) (simp_all add: counters_are_update)

lemma keeps_counters_on_error [keeps_intros]:
  "keeps (counters_are c) m \<Longrightarrow> keeps (counters_are c) (cancel_on_error env m)"
  unfolding cancel_on_error_def by (intro keeps_intros)

text \<open>A predicate of the counters alone is kept by whatever keeps each value of the counters.\<close>

lemma keeps_of_counters:
  assumes "\<And>c. keeps (counters_are c) m"
    and "\<And>s s'. counters (m_session s) = counters (m_session s') \<Longrightarrow> I s \<Longrightarrow> I s'"
  shows "keeps I m"
proof (rule keepsI)
  fix s r s' assume s: "I s" "m s = (r, s')"
  have "counters (m_session s') = counters (m_session s)"
    using keepsD [OF assms(1), of "counters (m_session s)" s r s'] s(2) by (simp add: counters_are_def)
  with s(1) show "I s'" using assms(2) by metis
qed

section \<open>The budget invariant\<close>

definition within_budgets :: "QueryOptions \<Rightarrow> Session \<Rightarrow> bool" where
  "within_budgets op ses \<longleftrightarrow>
     s_options ses = op \<and>
     s_rows ses \<le> op_max_rows op \<and> s_cells ses \<le> op_max_cells op \<and>
     s_fetched_chunks ses \<le> op_max_chunks op \<and>
     (s_has_expected_rows ses \<longrightarrow> s_rows ses \<le> s_expected_rows ses) \<and>
     (s_mode ses = NUMBERED_V3 \<longrightarrow>
        s_fetched_chunks ses \<le> s_next_chunk_index ses \<and>
        s_next_chunk_index ses \<le> s_expected_chunks ses \<and>
        s_expected_chunks ses \<le> op_max_chunks op \<and> s_has_expected_chunks ses) \<and>
     (s_arrow_response_outstanding ses \<longrightarrow>
        s_mode ses = NUMBERED_V3 \<and> s_next_chunk_index ses < s_expected_chunks ses)"

definition budgeted :: "QueryOptions \<Rightarrow> 'w Machine \<Rightarrow> bool" where
  "budgeted op s \<longleftrightarrow> within_budgets op (m_session s)"

text \<open>Between taking a numbered chunk and accepting it, the position is one ahead.\<close>

definition one_ahead :: "Session \<Rightarrow> bool" where
  "one_ahead ses \<longleftrightarrow> (s_mode ses = NUMBERED_V3 \<longrightarrow> s_fetched_chunks ses < s_next_chunk_index ses)"

lemma keeps_budgeted_of_counters:
  assumes "\<And>c. keeps (counters_are c) m"
  shows "keeps (budgeted op) m" "keeps (\<lambda>s. budgeted op s \<and> one_ahead (m_session s)) m"
  by (rule keeps_of_counters [OF assms],
      simp add: counters_def budgeted_def within_budgets_def one_ahead_def)+

lemmas budgeted_intros [keeps_intros] =
  keeps_budgeted_of_counters [OF keeps_counters_Cancel]
  keeps_budgeted_of_counters [OF counters_hooks(5)]
  keeps_budgeted_of_counters [OF keeps_counters_exchange]
  keeps_budgeted_of_counters [OF keeps_counters_Send]
  keeps_budgeted_of_counters [OF keeps_counters_Remember]
  keeps_budgeted_of_counters [OF counters_hooks(4)]

lemma keeps_budgeted_Finish [keeps_intros]: "keeps (budgeted op) Finish"
  unfolding Finish_def by (intro keeps_intros) (simp add: budgeted_def within_budgets_def)

lemma keeps_budgeted_on_error [keeps_intros]:
  "keeps (budgeted op) m \<Longrightarrow> keeps (budgeted op) (cancel_on_error env m)"
  unfolding cancel_on_error_def by (intro keeps_intros)

subsection \<open>Taking and accepting a chunk\<close>

lemma budgeted_frame:
  "counters (g (m_session s)) = counters (m_session s) \<Longrightarrow>
     budgeted op (m_session_update g s) = budgeted op s \<and>
     one_ahead (g (m_session s)) = one_ahead (m_session s)"
  by (simp add: counters_def budgeted_def within_budgets_def one_ahead_def)

lemma take_numbered_chunk:
  assumes "budgeted op s" "s_mode (m_session s) = NUMBERED_V3"
    "\<not> s_expected_chunks (m_session s) \<le> s_next_chunk_index (m_session s)"
    "\<not> s_arrow_response_outstanding (m_session s)"
  shows "budgeted op (m_session_update (s_next_chunk_index_update (\<lambda>n. n + 1)) s) \<and>
     one_ahead (s_next_chunk_index_update (\<lambda>n. n + 1) (m_session s))"
proof -
  let ?n = "s_next_chunk_index (m_session s)" and ?e = "s_expected_chunks (m_session s)"
  have lt: "?n < ?e" using assms(3) by simp
  have "unat (?n + 1) = Suc (unat ?n)" by (rule unat_Suc_u64 [OF lt])
  with lt have "?n + 1 \<le> ?e" "?n < ?n + 1"
    by (simp_all add: word_le_nat_alt word_less_nat_alt)
  with assms show ?thesis
    by (auto simp: budgeted_def within_budgets_def one_ahead_def)
qed

lemma triple_budget_next_response:
  fixes env :: "'w QueryEnv"
  shows "triple (\<lambda>s. budgeted op s \<and> \<not> s_arrow_response_outstanding (m_session s)) (next_response env)
     (\<lambda>r s. budgeted op s \<and> (r \<noteq> None \<longrightarrow> one_ahead (m_session s))) (\<lambda>_. budgeted op)"
  unfolding next_response_def
proof (rule triple_gets_bind)
  fix ses
  let ?P = "\<lambda>s :: 'w Machine. (budgeted op s \<and> \<not> s_arrow_response_outstanding (m_session s)) \<and> m_session s = ses"
  let ?Q = "\<lambda>r s. budgeted op s \<and> (r \<noteq> None \<longrightarrow> one_ahead (m_session s))"
  let ?A = "\<lambda>s :: 'w Machine. budgeted op s \<and> one_ahead (m_session s)"
  have fetch: "triple ?A (sbind (send_and_decode env) (\<lambda>r. sret (Some r))) ?Q (\<lambda>_. budgeted op)"
    by (rule triple_keeps_bind) (auto intro: keeps_intros simp: triple_def sem_defs)
  have finish: "triple ?P finish_response ?Q (\<lambda>_. budgeted op)"
    unfolding finish_response_def
    by (rule triple_pre [OF triple_keeps_then [where C = "budgeted op"]])
      (auto intro: keeps_intros simp: triple_def sem_defs)
  have numbered: "triple ?P (numbered_response env) ?Q (\<lambda>_. budgeted op)"
    if "s_mode ses = NUMBERED_V3" "\<not> s_expected_chunks ses \<le> s_next_chunk_index ses"
    unfolding numbered_response_def
  proof (rule triple_modify_then [OF fetch])
    fix s assume s: "?P s"
    then have "?A (m_session_update (s_next_chunk_index_update (\<lambda>n. n + 1)) s)"
      using take_numbered_chunk [of op s] that by auto
    then show "?A (m_session_update (\<lambda>ses. (get_request (chunk_url ses) ses)
              \<lparr>s_next_chunk_index := s_next_chunk_index ses + 1\<rparr>) s)"
      by (simp add: get_request_def budgeted_def within_budgets_def one_ahead_def)
  qed
  have buffered: "triple ?P (buffered_response r) ?Q (\<lambda>_. budgeted op)" if "s_mode ses \<noteq> NUMBERED_V3" for r
    using that by (auto simp: buffered_response_def triple_def sem_defs one_ahead_def budgeted_def
        within_budgets_def)
  have link: "triple ?P (link_response env) ?Q (\<lambda>_. budgeted op)" if "s_mode ses \<noteq> NUMBERED_V3"
  proof (rule triple_pre [where P' = ?A])
    have g: "budgeted op (m_session_update g s) \<and> one_ahead (g (m_session s))"
      if "?A s" "\<And>ses. counters (g ses) = counters ses" for g s
      using that budgeted_frame by blast
    show "triple ?A (link_response env) ?Q (\<lambda>_. budgeted op)"
      unfolding link_response_def
      by (rule fetch triple_guard_then triple_modify_then [where R = ?A])+ (auto simp: g)
  qed (use that in \<open>auto simp: one_ahead_def\<close>)
  show "triple ?P
    (if s_mode ses = NUMBERED_V3 then
         (if s_expected_chunks ses \<le> s_next_chunk_index ses then finish_response
          else numbered_response env)
     else (case s_buffered_direct ses of
            Some r \<Rightarrow> buffered_response r
          | None \<Rightarrow> if s_next_url ses = [] then finish_response else link_response env))
    ?Q (\<lambda>_. budgeted op)"
    using finish numbered buffered link by (auto split: option.split)
qed

lemma keeps_accept_rows_budget:
  "keeps (\<lambda>s. budgeted op s \<and> one_ahead (m_session s) \<and> s_rows (m_session s) = n \<and>
      s_fetched_chunks (m_session s) = k) (accept_rows rows)"
  (is "keeps ?I _")
proof (induction rows)
  case Nil
  then show ?case by (simp add: keeps_atomic)
next
  case (Cons row rows)
  have spend: "?I (m_session_update (s_cells_update (\<lambda>n. n + size_u64 row)) s)"
    if "?I s" "\<not> budget (op_max_cells (s_options (m_session s))) (s_cells (m_session s)) < size_u64 row" for s
    using that budget_spend(2) [of "size_u64 row" "op_max_cells op" "s_cells (m_session s)"]
    by (auto simp: budgeted_def within_budgets_def one_ahead_def not_less)
  have "triple ?I (accept_rows (row # rows)) (\<lambda>_. ?I) (\<lambda>_. ?I)"
    unfolding accept_rows.simps
    by (rule Cons.IH [unfolded keeps_def] triple_guard_then triple_modify_then [where R = ?I])+
      (use spend in auto)
  then show ?case by (simp only: keeps_def)
qed

lemma accept_counts:
  assumes "budgeted op s" "one_ahead (m_session s)"
    and "\<not> op_max_chunks op \<le> s_fetched_chunks (m_session s)"
    and "n \<le> budget (op_max_rows op) (s_rows (m_session s))"
    and "s_has_expected_rows (m_session s) \<Longrightarrow>
           n \<le> budget (s_expected_rows (m_session s)) (s_rows (m_session s))"
  shows "budgeted op (m_session_update (\<lambda>ses. ses\<lparr>s_rows := s_rows ses + n,
           s_fetched_chunks := s_fetched_chunks ses + 1\<rparr>) s)"
proof -
  let ?ses = "m_session s"
  note b = assms(1) [unfolded budgeted_def within_budgets_def]
  have rows: "s_rows ?ses + n \<le> op_max_rows op"
    using budget_spend(2) [OF assms(4)] b by simp
  have expected: "s_has_expected_rows ?ses \<Longrightarrow> s_rows ?ses + n \<le> s_expected_rows ?ses"
    using budget_spend(2) [OF assms(5)] b by simp
  have lt: "s_fetched_chunks ?ses < op_max_chunks op" using assms(3) by simp
  have "unat (s_fetched_chunks ?ses + 1) = Suc (unat (s_fetched_chunks ?ses))"
    by (rule unat_Suc_u64 [OF lt])
  then have "s_fetched_chunks ?ses + 1 \<le> op_max_chunks op"
    "s_fetched_chunks ?ses < s_next_chunk_index ?ses \<Longrightarrow>
       s_fetched_chunks ?ses + 1 \<le> s_next_chunk_index ?ses"
    using lt by (simp_all add: word_le_nat_alt word_less_nat_alt)
  with rows expected b assms(2) show ?thesis
    by (simp add: budgeted_def within_budgets_def one_ahead_def)
qed

lemma triple_budget_Accept:
  fixes response :: QueryResponse
  shows "triple (\<lambda>s. budgeted op s \<and> one_ahead (m_session s)) (Accept response)
    (\<lambda>_. budgeted op) (\<lambda>_. budgeted op)"
proof -
  let ?n = "size_u64 (ch_rows (qr_chunk response))"
  define C where "C = (\<lambda>s :: 'a Machine. (budgeted op s \<and> one_ahead (m_session s)) \<and>
    \<not> op_max_chunks op \<le> s_fetched_chunks (m_session s) \<and>
    \<not> budget (op_max_rows op) (s_rows (m_session s)) < ?n)"
  have options: "budgeted op s \<Longrightarrow> s_options (m_session s) = op" for s :: "'a Machine"
    by (simp add: budgeted_def within_budgets_def)
  have CI: "C s \<Longrightarrow> budgeted op s" for s by (simp add: C_def)
  have rows: "keeps C (accept_rows (ch_rows (qr_chunk response)))"
  proof (rule keepsI)
    fix s r s' assume s: "C s" "accept_rows (ch_rows (qr_chunk response)) s = (r, s')"
    with keepsD [OF keeps_accept_rows_budget [where op = op], OF _ s(2), of "s_rows (m_session s)"
        "s_fetched_chunks (m_session s)"]
    show "C s'" by (simp add: C_def)
  qed
  have finish: "triple C (sthen (fail_if (\<lambda>ses. s_has_expected_rows ses \<and>
              budget (s_expected_rows ses) (s_rows ses) < ?n) e)
      (sthen (upd (\<lambda>ses. ses\<lparr>s_rows := s_rows ses + ?n, s_fetched_chunks := s_fetched_chunks ses + 1\<rparr>))
        (sret (qr_chunk response)))) (\<lambda>_. budgeted op) (\<lambda>_. budgeted op)" for e
    by (rule triple_guard_then [OF triple_modify_then [OF triple_atomic(1)]])
      (auto simp: C_def not_less intro!: accept_counts)
  have body: "triple C (sthen (accept_rows (ch_rows (qr_chunk response)))
      (sthen (fail_if (\<lambda>ses. s_has_expected_rows ses \<and> budget (s_expected_rows ses) (s_rows ses) < ?n) e)
      (sthen (upd (\<lambda>ses. ses\<lparr>s_rows := s_rows ses + ?n, s_fetched_chunks := s_fetched_chunks ses + 1\<rparr>))
        (sret (qr_chunk response))))) (\<lambda>_. budgeted op) (\<lambda>_. budgeted op)" for e
    by (rule triple_keeps_then [OF rows finish CI])
  show ?thesis
    unfolding Accept_def Let_def
    apply (rule triple_guard_then)+
         apply (rule triple_pre [OF body])
         apply (auto simp: C_def options)
    done
qed

lemma keeps_budgeted_accept_response:
  "triple (\<lambda>s. budgeted op s \<and> one_ahead (m_session s)) (accept_response env response)
    (\<lambda>_. budgeted op) (\<lambda>_. budgeted op)"
  unfolding accept_response_def
proof (intro triple_keeps_then)
  have "keeps (budgeted op) (sthen (upd (\<lambda>ses. if s_mode ses = DIRECT_LEGACY
      then ses\<lparr>s_next_url := ch_next_url accepted\<rparr> else ses)) (sret (Some accepted)))" for accepted
    by (intro keeps_intros) (auto simp: budgeted_def within_budgets_def)
  then show "triple (\<lambda>s. budgeted op s \<and> one_ahead (m_session s))
     (sbind (Accept response) (\<lambda>accepted. sthen (upd (\<lambda>ses. if s_mode ses = DIRECT_LEGACY
        then ses\<lparr>s_next_url := ch_next_url accepted\<rparr> else ses)) (sret (Some accepted))))
     (\<lambda>_. budgeted op) (\<lambda>_. budgeted op)"
    by (intro triple_bind [OF keeps_triple triple_budget_Accept])
qed (auto intro: keeps_intros)

text \<open>Every cursor operation keeps the budgets, whether it returns or throws.\<close>

lemma keeps_budgeted_NextChunk: "keeps (budgeted op) (NextChunk env)"
proof -
  have step: "triple (\<lambda>s. budgeted op s \<and> \<not> s_arrow_response_outstanding (m_session s))
      (sbind (next_response env) (\<lambda>r. case r of None \<Rightarrow> sret None | Some response \<Rightarrow> accept_response env response))
      (\<lambda>_. budgeted op) (\<lambda>_. budgeted op)"
  proof (rule triple_bind [OF _ triple_budget_next_response])
    show "triple (\<lambda>s. budgeted op s \<and> (r \<noteq> None \<longrightarrow> one_ahead (m_session s)))
      (case r of None \<Rightarrow> sret None | Some response \<Rightarrow> accept_response env response)
      (\<lambda>_. budgeted op) (\<lambda>_. budgeted op)" for r
      using keeps_budgeted_accept_response [of op env]
      by (cases r) (auto simp: triple_def sem_defs)
  qed
  have "triple (\<lambda>s. budgeted op s \<and> \<not> s_arrow_response_outstanding (m_session s))
      (cancel_on_error env (sbind (next_response env)
         (\<lambda>r. case r of None \<Rightarrow> sret None | Some response \<Rightarrow> accept_response env response)))
      (\<lambda>_. budgeted op) (\<lambda>_. budgeted op)"
    unfolding cancel_on_error_def
    by (rule triple_catch [OF keeps_triple step]) (intro keeps_intros)
  then show ?thesis
    unfolding NextChunk_def keeps_def
    apply (intro triple_guard_then triple_gets_bind)
    apply (auto simp: triple_def sem_defs)
    done
qed

definition chunk_left :: "'w Machine \<Rightarrow> bool" where
  "chunk_left s \<longleftrightarrow> s_mode (m_session s) = NUMBERED_V3 \<and>
     s_next_chunk_index (m_session s) < s_expected_chunks (m_session s)"

lemma triple_budget_fetch_arrow:
  fixes env :: "'w QueryEnv"
  shows "triple (\<lambda>s. budgeted op s \<and> chunk_left s) (fetch_arrow env) (\<lambda>_. budgeted op) (\<lambda>_. budgeted op)"
proof -
  let ?C = "\<lambda>s :: 'w Machine. budgeted op s \<and> chunk_left s"
  have C: "keeps ?C m" if "\<And>c. keeps (counters_are c) m" for m :: "('w Machine, exn, 'z) sem"
    by (rule keeps_of_counters [OF that]) (auto simp: counters_def budgeted_def within_budgets_def chunk_left_def)
  have send: "keeps ?C (Send env)" "keeps ?C (CheckActive env)"
    by (intro C keeps_intros)+
  have status: "keeps ?C (if http_ok (rs_status response) then sret ()
             else sbind (codec_decode env response) (\<lambda>d.
                    if d = Inl DecodeReauth then sthrow ReauthRequiredException else sthrow e))" for response e
    by (intro keeps_intros C)
  have mark: "triple ?C (sthen (upd (s_arrow_response_outstanding_update (\<lambda>_. True))) (sret (Some response)))
      (\<lambda>_. budgeted op) (\<lambda>_. budgeted op)" for response
    by (auto simp: triple_def sem_defs budgeted_def within_budgets_def chunk_left_def)
  show ?thesis
    unfolding fetch_arrow_def
    apply (rule triple_modify_then [where R = ?C])
     apply (rule triple_keeps_bind [OF send(1)])
      apply (rule triple_keeps_then [OF status])
       apply (rule triple_keeps_then [OF send(2) mark])
       apply (auto simp: arrow_request_def budgeted_def within_budgets_def chunk_left_def)
    done
qed

lemma keeps_budgeted_NextArrowChunk: "keeps (budgeted op) (NextArrowChunk env)"
proof -
  have body: "triple (\<lambda>s. budgeted op s \<and> s_mode (m_session s) = NUMBERED_V3)
    (sthen (CheckActive env)
      (sbind (sess (\<lambda>ses. s_expected_chunks ses \<le> s_next_chunk_index ses)) (\<lambda>over.
         if over then sthen Finish (sret None) else fetch_arrow env)))
    (\<lambda>_. budgeted op) (\<lambda>_. budgeted op)"
    (is "triple ?C _ _ _")
  proof (rule triple_keeps_then)
    show "keeps ?C (CheckActive env)"
      by (rule keeps_of_counters, intro keeps_intros)
        (auto simp: counters_def budgeted_def within_budgets_def)
    have "triple (\<lambda>s. ?C s \<and> (s_expected_chunks (m_session s) \<le> s_next_chunk_index (m_session s)) = over)
        (if over then sthen Finish (sret None) else fetch_arrow env) (\<lambda>_. budgeted op) (\<lambda>_. budgeted op)" for over
    proof (cases over)
      case True
      have "keeps (budgeted op) (sthen Finish (sret None))" by (intro keeps_intros)
      with True show ?thesis by (auto simp: keeps_def elim: triple_pre)
    next
      case False
      with triple_budget_fetch_arrow [of op env] show ?thesis
        by (auto simp: chunk_left_def not_le elim!: triple_pre)
    qed
    then show "triple ?C (sbind (sess (\<lambda>ses. s_expected_chunks ses \<le> s_next_chunk_index ses)) (\<lambda>over.
         if over then sthen Finish (sret None) else fetch_arrow env)) (\<lambda>_. budgeted op) (\<lambda>_. budgeted op)"
      by (rule triple_gets_bind)
  qed simp
  have "triple (\<lambda>s. budgeted op s \<and> s_mode (m_session s) = NUMBERED_V3)
    (cancel_on_error env (sthen (CheckActive env)
      (sbind (sess (\<lambda>ses. s_expected_chunks ses \<le> s_next_chunk_index ses)) (\<lambda>over.
         if over then sthen Finish (sret None) else fetch_arrow env))))
    (\<lambda>_. budgeted op) (\<lambda>_. budgeted op)"
    unfolding cancel_on_error_def
    by (rule triple_catch [OF keeps_triple body]) (intro keeps_intros)
  then show ?thesis
    unfolding NextArrowChunk_def keeps_def
    apply (intro triple_guard_then triple_gets_bind)
    apply (auto simp: triple_def sem_defs)
    done
qed

lemma report_counts:
  assumes b: "budgeted op s" "s_arrow_response_outstanding (m_session s)"
    and rows: "n \<le> budget (op_max_rows op) (s_rows (m_session s))"
    and cells: "size_u64 (s_metadata (m_session s)) \<noteq> 0 \<Longrightarrow>
       n \<le> budget (op_max_cells op) (s_cells (m_session s)) div size_u64 (s_metadata (m_session s))"
    and expected: "s_has_expected_rows (m_session s) \<Longrightarrow>
       n \<le> budget (s_expected_rows (m_session s)) (s_rows (m_session s))"
  shows "budgeted op (m_session_update (\<lambda>ses. ses\<lparr>s_rows := s_rows ses + n,
      s_cells := s_cells ses + n * size_u64 (s_metadata ses),
      s_fetched_chunks := s_fetched_chunks ses + 1,
      s_next_chunk_index := s_next_chunk_index ses + 1,
      s_arrow_response_outstanding := False\<rparr>) s)"
proof -
  let ?ses = "m_session s" and ?w = "size_u64 (s_metadata (m_session s))"
  note w = b(1) [unfolded budgeted_def within_budgets_def]
  have r: "s_rows ?ses + n \<le> op_max_rows op"
    "s_has_expected_rows ?ses \<Longrightarrow> s_rows ?ses + n \<le> s_expected_rows ?ses"
    using budget_spend(2) [OF rows] budget_spend(2) [OF expected] w by simp_all
  have "n * ?w \<le> budget (op_max_cells op) (s_cells ?ses)"
  proof (cases "?w = 0")
    case False
    have "unat n \<le> unat (budget (op_max_cells op) (s_cells ?ses)) div unat ?w"
      using cells [OF False] by (simp add: word_le_nat_alt unat_div)
    then have le: "unat n * unat ?w \<le> unat (budget (op_max_cells op) (s_cells ?ses))"
      using False by (simp add: less_eq_div_iff_mult_less_eq unat_gt_0)
    have "unat (budget (op_max_cells op) (s_cells ?ses)) < 2 ^ LENGTH(64)" by (rule unsigned_less)
    with le have "unat (n * ?w) = unat n * unat ?w"
      by (simp add: unat_word_ariths)
    with le show ?thesis by (simp add: word_le_nat_alt)
  qed simp
  then have c: "s_cells ?ses + n * ?w \<le> op_max_cells op"
    using budget_spend(2) w by blast
  have num: "s_mode ?ses = NUMBERED_V3" "s_next_chunk_index ?ses < s_expected_chunks ?ses"
    "s_fetched_chunks ?ses \<le> s_next_chunk_index ?ses" "s_expected_chunks ?ses \<le> op_max_chunks op"
    using w b(2) by auto
  then have "s_fetched_chunks ?ses < s_expected_chunks ?ses" by simp
  from unat_Suc_u64 [OF this] unat_Suc_u64 [OF num(2)] num
  have "s_fetched_chunks ?ses + 1 \<le> s_next_chunk_index ?ses + 1"
    "s_next_chunk_index ?ses + 1 \<le> s_expected_chunks ?ses"
    "s_fetched_chunks ?ses + 1 \<le> op_max_chunks op"
    by (simp_all add: word_le_nat_alt word_less_nat_alt)
  with r c w num show ?thesis by (simp add: budgeted_def within_budgets_def)
qed

lemma keeps_budgeted_ReportArrowChunk: "keeps (budgeted op) (ReportArrowChunk env n)"
proof -
  let ?C = "\<lambda>s :: 'a Machine. budgeted op s \<and> s_arrow_response_outstanding (m_session s)"
  have check: "keeps ?C (CheckActive env)"
    by (rule keeps_of_counters, intro keeps_intros) (auto simp: counters_def budgeted_def within_budgets_def)
  have options: "budgeted op s \<Longrightarrow> s_options (m_session s) = op" for s :: "'a Machine"
    by (simp add: budgeted_def within_budgets_def)
  show ?thesis
    unfolding ReportArrowChunk_def cancel_on_error_def keeps_def
    apply (rule triple_guard_then)+
      apply (rule triple_catch [where E' = "\<lambda>_. budgeted op"])
       apply (rule keeps_triple, intro keeps_intros)
      apply (rule triple_pre [where P' = ?C])
       apply (rule triple_keeps_then [OF check])
        apply (rule triple_guard_then)+
          apply (auto simp: triple_def sem_defs options not_less intro!: report_counts)
    done
qed

lemma keeps_budgeted_destroy_owner: "keeps (budgeted op) (destroy_owner env)"
  unfolding destroy_owner_def by (intro keeps_intros) (simp add: budgeted_def)

end
