(* ===== verification/Query_Runs.thy ===== *)
theory Query_Runs
  imports Query_Budgets
begin

text \<open>
  Runs of the query client: preparation followed by any sequence of calls on the prepared query
  and its cursor, each of which may return or throw. The invariants of \<open>Query_Invariants\<close> and
  \<open>Query_Budgets\<close> hold in every state of every run.
\<close>

section \<open>Preparation opens a session within its budgets\<close>

definition fresh :: "QueryOptions \<Rightarrow> 'w Machine \<Rightarrow> bool" where
  "fresh op s \<longleftrightarrow>
     (let ses = m_session s
      in s_options ses = op \<and> s_mode ses = DIRECT_LEGACY \<and> s_next_chunk_index ses = 0 \<and>
         s_fetched_chunks ses = 0 \<and> s_rows ses = 0 \<and> s_cells ses = 0 \<and>
         \<not> s_arrow_response_outstanding ses \<and> \<not> s_has_expected_rows ses)"

lemma fresh_counters: "counters (m_session s) = counters (m_session s') \<Longrightarrow> fresh op s \<Longrightarrow> fresh op s'"
  by (simp add: fresh_def counters_def Let_def)

lemma keeps_fresh: "(\<And>c. keeps (counters_are c) m) \<Longrightarrow> keeps (fresh op) m"
  by (rule keeps_of_counters) (auto intro: fresh_counters)

lemma keeps_counters_round [keeps_intros]: "keeps (counters_are c) (exchange env)"
  unfolding exchange_def by (intro keeps_intros)

lemma keeps_counters_poll_once [keeps_intros]: "keeps (counters_are c) (poll_once env)"
  unfolding poll_once_def by (intro keeps_intros) (simp add: counters_are_update)

lemma keeps_counters_poll_loop [keeps_intros]: "keeps (counters_are c) (poll_loop env fuel decoded)"
proof (induction fuel arbitrary: decoded)
  case 0
  then show ?case by (subst poll_loop.simps) (simp add: keeps_intros)
next
  case (Suc fuel)
  then show ?case by (subst poll_loop.simps) (auto intro!: keeps_intros)
qed

lemma triple_budget_open_direct:
  "triple (fresh op) (open_direct decoded) (\<lambda>_. budgeted op) (\<lambda>_ _. True)"
  by (auto simp: triple_def sem_defs open_direct_def fresh_def Let_def budgeted_def within_budgets_def)

lemma triple_budget_open_numbered:
  fixes env :: "'w QueryEnv"
  shows "triple (fresh op) (open_numbered env decoded) (\<lambda>_. budgeted op) (\<lambda>_ _. True)"
proof -
  define B where "B = (\<lambda>s :: 'w Machine. s_options (m_session s) = op \<and>
     budgeted op (m_session_update (s_expected_chunks_update (\<lambda>_. 0)) s))"
  have tail: "keeps (budgeted op) (sbind (send_and_decode env) (\<lambda>metadata_response.
      sthen (fail_if (\<lambda>_. qr_state metadata_response \<noteq> COMPLETE \<or> qr_metadata metadata_response = []) e1)
      (sthen (upd (s_metadata_update (\<lambda>_. qr_metadata metadata_response)))
        (fail_if (\<lambda>ses. \<exists>column \<in> set (s_metadata ses). numeric_incomplete column) e2))))" for e1 e2
    by (intro keeps_intros) (simp add: budgeted_def within_budgets_def)
  show ?thesis
    unfolding open_numbered_def
    apply (rule triple_guard_then)
     apply (rule triple_modify_then [where R = B])
      apply (rule triple_guard_then)
       apply (rule triple_guard_then)
        apply (rule triple_modify_then [where R = "budgeted op"])
         apply (rule triple_weaken_post [OF keeps_triple [OF tail]])
          apply (auto simp: B_def fresh_def Let_def budgeted_def within_budgets_def get_request_def not_less)
    done
qed

lemma triple_budget_prepare_session:
  "triple (fresh op) (prepare_session env fuel) (\<lambda>_. budgeted op) (\<lambda>_ _. True)"
proof -
  have tail: "keeps (budgeted op)
      (sthen (fail_if (\<lambda>ses. op_max_columns (s_options ses) < size_u64 (s_metadata ses)) e)
         (smodify (m_owner_update (\<lambda>_. PreparedOwner))))" for e
    by (intro keeps_intros) (simp add: budgeted_def)
  show ?thesis
    unfolding prepare_session_def
    apply (rule triple_keeps_bind [OF keeps_fresh], intro keeps_intros)
     apply (rule triple_keeps_bind [OF keeps_fresh], intro keeps_intros)
      apply (rule triple_guard_then)
       apply (rule triple_pre [where P' = "fresh op"])
        apply (rule triple_then [OF triple_weaken_post [OF keeps_triple [OF tail]]])
          apply (auto simp: triple_budget_open_direct triple_budget_open_numbered)
    done
qed

text \<open>\<open>PrepareInternal\<close> either refuses its arguments before anything is sent, or runs a fresh session.\<close>

abbreviation started ::
  "QueryOptions \<Rightarrow> QueryCredentials \<Rightarrow> byte_string \<Rightarrow> bool \<Rightarrow> u64 \<Rightarrow> 'w Machine \<Rightarrow> 'w Machine" where
  "started op cr sql b now s \<equiv>
     s\<lparr>m_owner := NoOwner, m_session := new_session op cr now (submit_request op cr sql b)\<rparr>"

abbreviation prepare_guarded :: "'w QueryEnv \<Rightarrow> nat \<Rightarrow> ('w Machine, exn, unit) sem" where
  "prepare_guarded env fuel \<equiv>
     scatch (prepare_session env fuel) (\<lambda>e. sthen (Cancel env) (sthen (Cancel env) (sthrow e)))"

lemma PrepareInternal_cases:
  assumes "PrepareInternal env op fuel sql cr b s = (r, s')"
  obtains e where "r = Inl e" "m_sent s' = m_sent s" "m_owner s' = m_owner s" "m_session s' = m_session s"
  | w now where "IsTrustedTenantUrl (qc_instance_url cr)" "qc_access_token cr \<noteq> []" "sql \<noteq> []"
      "prepare_guarded env fuel (started op cr sql b now (s\<lparr>m_world := w\<rparr>)) = (r, s')"
proof -
  obtain c w1 where c: "env_IsCancelled env (m_world s) = (c, w1)" by force
  obtain now w2 where now: "env_NowMs env w1 = (now, w2)" by force
  show thesis
  proof (cases "c \<or> sql = [] \<or> qc_instance_url cr = [] \<or> qc_access_token cr = [] \<or>
      \<not> IsTrustedTenantUrl (qc_instance_url cr)")
    case True
    with assms c that(1) show thesis
      by (auto simp: PrepareInternal_def is_cancelled_def sbind_def sthrow_def split: if_splits)
  next
    case False
    with assms c now have "prepare_guarded env fuel (started op cr sql b now (s\<lparr>m_world := w2\<rparr>)) = (r, s')"
      by (simp add: PrepareInternal_def is_cancelled_def now_ms_def sbind_def sthen_def smodify_def)
    with False that(2) show thesis by blast
  qed
qed

lemma ready_started: "m_sent s = [] \<Longrightarrow> ready op cr (started op cr sql b now (s\<lparr>m_world := w\<rparr>))"
  by (rule ready_new_session) simp

lemma fresh_started: "fresh op (started op cr sql b now s)"
  by (simp add: fresh_def new_session_def Let_def)

lemma PrepareInternal_success:
  assumes "PrepareInternal env op fuel sql cr b s = (Inr (), s')" and "m_sent s = []"
  shows "confined op cr s' \<and> budgeted op s' \<and> IsTrustedTenantUrl (qc_instance_url cr)"
  using assms(1)
proof (cases rule: PrepareInternal_cases)
  case (2 w now)
  then have "prepare_session env fuel (started op cr sql b now (s\<lparr>m_world := w\<rparr>)) = (Inr (), s')"
    by (auto simp: sem_defs split: prod.splits sum.splits)
  with 2 show ?thesis
    using triple_ret [OF triple_prepare_session ready_started [OF assms(2)]]
      triple_ret [OF triple_budget_prepare_session fresh_started] by blast
qed simp

lemma PrepareInternal_sent:
  assumes "PrepareInternal env op fuel sql cr b s = (r, s')" and "m_sent s = []"
  shows "(\<forall>rq \<in> set (m_sent s'). endpoint cr rq) \<and>
         (m_sent s' \<noteq> [] \<longrightarrow> IsTrustedTenantUrl (qc_instance_url cr))"
  using assms(1)
proof (cases rule: PrepareInternal_cases)
  case (2 w now)
  have "triple (ready op cr) (prepare_guarded env fuel) (\<lambda>_. confined op cr) (\<lambda>_. confined op cr)"
    by (rule triple_catch [OF keeps_triple triple_prepare_session]) (intro keeps_intros)
  then have "confined op cr s'"
    using ready_started [OF assms(2)] 2(4) by (rule triple_both)
  with 2 show ?thesis by (simp add: confined_def)
qed (use assms(2) in simp)

section \<open>Runs\<close>

text \<open>
  What a caller can do with the object \<open>Prepare\<close> returned: the operations of \<open>PreparedQuery\<close> and
  \<open>QueryCursor\<close>, in any order and any number of times, going on after an exception as well.
\<close>

datatype CursorCall =
    CallMetadata
  | CallOpenCursor
  | CallNextChunk
  | CallIsNumberedV3
  | CallNextArrowChunk
  | CallReportArrowChunk u64
  | CallDestroy

fun cursor_call :: "'w QueryEnv \<Rightarrow> CursorCall \<Rightarrow> 'w Machine \<Rightarrow> 'w Machine" where
  "cursor_call env CallMetadata s = snd (PreparedMetadata s)"
| "cursor_call env CallOpenCursor s = snd (OpenCursor s)"
| "cursor_call env CallNextChunk s = snd (NextChunk env s)"
| "cursor_call env CallIsNumberedV3 s = snd (IsNumberedV3 s)"
| "cursor_call env CallNextArrowChunk s = snd (NextArrowChunk env s)"
| "cursor_call env (CallReportArrowChunk n) s = snd (ReportArrowChunk env n s)"
| "cursor_call env CallDestroy s = snd (destroy_owner env s)"

text \<open>
  The machine states a client can be in. The flag tells whether \<open>Prepare\<close> returned an object; where
  it threw, the caller has nothing to call.
\<close>

inductive client_run :: "'w QueryEnv \<Rightarrow> QueryOptions \<Rightarrow> QueryCredentials \<Rightarrow> bool \<Rightarrow> 'w Machine \<Rightarrow> bool"
  for env op cr where
  prepared: "m_sent s = [] \<Longrightarrow> PrepareInternal env op fuel sql cr b s = (Inr (), s') \<Longrightarrow>
     client_run env op cr True s'"
| refused: "m_sent s = [] \<Longrightarrow> m_owner s = NoOwner \<Longrightarrow> m_session s = new_session op cr 0 default_HttpRequest \<Longrightarrow>
     PrepareInternal env op fuel sql cr b s = (Inl e, s') \<Longrightarrow> client_run env op cr False s'"
| called: "client_run env op cr True s \<Longrightarrow> client_run env op cr True (cursor_call env c s)"

lemma keeps_cursor_call:
  assumes "keeps I (PreparedMetadata :: ('w Machine, exn, _) sem)" "keeps I (OpenCursor :: ('w Machine, exn, _) sem)"
    "keeps I (NextChunk env)" "keeps I (IsNumberedV3 :: ('w Machine, exn, _) sem)" "keeps I (NextArrowChunk env)"
    "\<And>n. keeps I (ReportArrowChunk env n)" "keeps I (destroy_owner env)"
  shows "I s \<Longrightarrow> I (cursor_call env c (s :: 'w Machine))"
  by (cases c) (simp_all add: assms keeps_snd)

lemma keeps_views:
  "keeps I PreparedMetadata" "keeps I IsNumberedV3"
  "(\<And>s f. I (m_owner_update f s) = I s) \<Longrightarrow> keeps I OpenCursor"
  unfolding PreparedMetadata_def IsNumberedV3_def OpenCursor_def by (intro keeps_intros; simp)+

lemma call_confined: "confined op cr s \<Longrightarrow> confined op cr (cursor_call env c s)"
  by (rule keeps_cursor_call) (auto intro: keeps_views keeps_NextChunk keeps_NextArrowChunk
      keeps_ReportArrowChunk keeps_destroy_owner)

lemma budgeted_owner: "budgeted op (m_owner_update f s) = budgeted op s"
  by (simp add: budgeted_def)

lemma call_budgeted: "budgeted op s \<Longrightarrow> budgeted op (cursor_call env c s)"
  by (rule keeps_cursor_call) (auto intro!: keeps_views keeps_budgeted_NextChunk keeps_budgeted_NextArrowChunk
      keeps_budgeted_ReportArrowChunk keeps_budgeted_destroy_owner simp: budgeted_owner)

lemma run_live:
  "client_run env op cr live s \<Longrightarrow> live \<Longrightarrow>
     confined op cr s \<and> budgeted op s \<and> IsTrustedTenantUrl (qc_instance_url cr)"
  by (induction rule: client_run.induct) (auto simp: PrepareInternal_success call_confined call_budgeted)

lemma run_sent:
  assumes "client_run env op cr live s" "rq \<in> set (m_sent s)"
  shows "endpoint cr rq \<and> IsTrustedTenantUrl (qc_instance_url cr)"
proof (cases live)
  case True
  with run_live [OF assms(1)] assms(2) show ?thesis by (simp add: confined_def)
next
  case False
  with assms(1) obtain s0 fuel sql b e where "m_sent s0 = []"
    "PrepareInternal env op fuel sql cr b s0 = (Inl e, s)"
    by (auto elim: client_run.cases)
  with PrepareInternal_sent assms(2) show ?thesis by fastforce
qed

end
