(* ===== verification/Query_Lifecycle.thy ===== *)
theory Query_Lifecycle
  imports Query_Runs
begin

text \<open>
  The life of the remote query: while a session is active nothing but \<open>POST\<close> and \<open>GET\<close> requests is
  sent; it stops either by reconciling its counts or by one \<open>DELETE\<close>, which is the last request
  ever sent for it; and whoever lets go of the session leaves no remote query behind.
\<close>

section \<open>Active and stopped sessions\<close>

definition is_delete :: "HttpRequest \<Rightarrow> bool" where
  "is_delete r \<longleftrightarrow> rq_method r = ''DELETE''"

definition active :: "'w Machine \<Rightarrow> bool" where
  "active s \<longleftrightarrow> \<not> s_terminal (m_session s) \<and> \<not> s_reconciled (m_session s) \<and>
     \<not> is_delete (s_request (m_session s)) \<and> (\<forall>r \<in> set (m_sent s). \<not> is_delete r)"

text \<open>A reconciled session has received exactly what the service announced.\<close>

definition announced_counts :: "Session \<Rightarrow> bool" where
  "announced_counts ses \<longleftrightarrow>
     (s_mode ses = NUMBERED_V3 \<and> s_has_expected_chunks ses \<longrightarrow> s_fetched_chunks ses = s_expected_chunks ses) \<and>
     (s_has_expected_rows ses \<longrightarrow> s_rows ses = s_expected_rows ses) \<and>
     (s_mode ses = DIRECT_LEGACY \<longrightarrow> s_next_url ses = [])"

definition reconciled :: "'w Machine \<Rightarrow> bool" where
  "reconciled s \<longleftrightarrow> s_terminal (m_session s) \<and> s_reconciled (m_session s) \<and>
     \<not> s_arrow_response_outstanding (m_session s) \<and> announced_counts (m_session s) \<and>
     (\<forall>r \<in> set (m_sent s). \<not> is_delete r)"

definition cancelled :: "'w Machine \<Rightarrow> bool" where
  "cancelled s \<longleftrightarrow> s_terminal (m_session s) \<and> \<not> s_reconciled (m_session s) \<and>
     (\<exists>d t. m_sent s = d # t \<and> is_delete d \<and> (\<forall>r \<in> set t. \<not> is_delete r) \<and>
        rq_url d = status_url (m_session s) \<and> s_query_id (m_session s) \<noteq> [])"

definition lifecycle :: "'w Machine \<Rightarrow> bool" where
  "lifecycle s \<longleftrightarrow> active s \<or> reconciled s \<or> cancelled s"

definition idle :: "'w Machine \<Rightarrow> bool" where
  "idle s \<longleftrightarrow> active s \<and> \<not> s_arrow_response_outstanding (m_session s)"

lemma idle_eq: "idle = (\<lambda>s. active s \<and> \<not> s_arrow_response_outstanding (m_session s))"
  by (simp add: idle_def fun_eq_iff)

lemma idle_active: "idle s \<Longrightarrow> active s"
  by (simp add: idle_def)

lemma active_frame [simp]:
  "active (m_owner_update ow s) = active s"
  "active (m_session_update (s_buffered_direct_update f1) s) = active s"
  "active (m_session_update (s_query_id_update f2) s) = active s"
  "active (m_session_update (s_metadata_update f3) s) = active s"
  "active (m_session_update (s_total_response_bytes_update f4) s) = active s"
  "active (m_session_update (s_cells_update f5) s) = active s"
  "active (m_session_update (s_arrow_response_outstanding_update f6) s) = active s"
  "active (m_session_update (limit_request now) s) = active s"
  by (simp_all add: active_def is_delete_def limit_request_def)

lemma active_get [simp]: "active s \<Longrightarrow> active (m_session_update (\<lambda>ses. get_request (url ses) ses) s)"
  by (simp add: active_def is_delete_def get_request_def)

lemma active_world_free: "world_free active"
  by (simp add: world_free_def active_def)

lemma idle_world_free: "world_free idle"
  by (simp add: world_free_def idle_def active_def)

lemmas active_hooks [keeps_intros] = world_only [OF active_world_free] world_only_checks [OF active_world_free]
  world_only_checks [OF idle_world_free]

section \<open>Operations while active\<close>

lemma keeps_active_Send [keeps_intros]: "keeps active (Send env)"
proof -
  have send: "keeps active (sbind (sess s_request) (\<lambda>outbound. transport_send env outbound))"
    by (rule keepsI) (auto simp: sem_defs transport_send_def active_def split: prod.splits)
  have *: "Send env = sthen (CheckActive env) (sbind (now_ms env) (\<lambda>now. sthen (upd (limit_request now))
     (sbind (sbind (sess s_request) (\<lambda>outbound. transport_send env outbound)) (\<lambda>answer.
        case answer of
           None \<Rightarrow> transport_failure env
         | Some response \<Rightarrow>
             sthen (fail_if (\<lambda>ses. response_budget ses < size_u64 (rs_body response))
                     (runtime_error ''Data 360 Query API cumulative response limit exceeded''))
             (sthen (upd (s_total_response_bytes_update (\<lambda>n. n + size_u64 (rs_body response))))
               (sret response))))))"
    by (simp add: Send_def sbind_assoc)
  show ?thesis unfolding * by (intro keeps_intros send) simp_all
qed

lemma keeps_active_send_and_decode [keeps_intros]: "keeps active (send_and_decode env)"
  unfolding send_and_decode_def by (intro keeps_intros)

lemma keeps_active_Remember [keeps_intros]: "keeps active (RememberQueryId r)"
  unfolding RememberQueryId_def Let_def by (intro keeps_intros) simp_all

lemma keeps_active_accept_rows [keeps_intros]: "keeps active (accept_rows rows)"
  by (induction rows) (auto intro!: keeps_intros)

lemma keeps_active_Accept [keeps_intros]: "keeps active (Accept response)"
  unfolding Accept_def Let_def by (intro keeps_intros) (simp add: active_def)

lemma keeps_active_accept_response [keeps_intros]: "keeps active (accept_response env response)"
  unfolding accept_response_def by (intro keeps_intros) (simp add: active_def)

lemma keeps_active_exchange [keeps_intros]: "keeps active (exchange env)"
  unfolding exchange_def by (intro keeps_intros)

lemma keeps_active_poll_once [keeps_intros]: "keeps active (poll_once env)"
  unfolding poll_once_def by (intro keeps_intros) simp

lemma keeps_active_poll_loop [keeps_intros]: "keeps active (poll_loop env fuel decoded)"
proof (induction fuel arbitrary: decoded)
  case 0
  then show ?case by (subst poll_loop.simps) (simp add: keeps_intros)
next
  case (Suc fuel)
  then show ?case by (subst poll_loop.simps) (auto intro!: keeps_intros)
qed

lemma keeps_active_prepare_session: "keeps active (prepare_session env fuel)"
proof -
  have "keeps active (open_numbered env decoded)" for decoded
    unfolding open_numbered_def by (intro keeps_intros) (simp_all add: active_def get_request_def is_delete_def)
  moreover have "keeps active (open_direct decoded)" for decoded
    unfolding open_direct_def by (intro keeps_intros) (simp add: active_def)
  ultimately show ?thesis
    unfolding prepare_session_def by (intro keeps_intros) simp_all
qed

section \<open>Operations that stop a session\<close>

lemma lifecycle_active: "active s \<Longrightarrow> lifecycle s"
  by (simp add: lifecycle_def)

lemma triple_Finish: "triple idle Finish (\<lambda>_. reconciled) (\<lambda>_. active)"
  by (auto simp: Finish_def triple_def sem_defs reconciled_def idle_def active_def announced_counts_def)

text \<open>Cancellation leaves a stopped session alone, and stops an active one that has an identifier.\<close>

lemma Cancel_stopped: "reconciled s \<or> cancelled s \<Longrightarrow> snd (Cancel env s) = s"
  by (auto simp: Cancel_def sem_defs reconciled_def cancelled_def)

text \<open>\<open>Cancel\<close> is \<open>noexcept\<close>.\<close>

lemma Cancel_noexcept [simp]: "Cancel env s \<noteq> (Inl e, s')"
  by (auto simp: Cancel_def sem_defs transport_send_def split: prod.splits)

lemma IsSafeQueryId_nonempty: "IsSafeQueryId q \<Longrightarrow> q \<noteq> []"
  by (auto simp: IsSafeQueryId_def)

lemma Cancel_active:
  assumes "active s"
  shows "if IsSafeQueryId (s_query_id (m_session s)) then cancelled (snd (Cancel env s))
         else snd (Cancel env s) = s"
  using assms IsSafeQueryId_nonempty [of "s_query_id (m_session s)"]
  by (auto simp: Cancel_def sem_defs active_def cancelled_def transport_send_def cancellation_request_def
      is_delete_def status_url_def split: prod.splits)

lemma keeps_lifecycle_Cancel [keeps_intros]: "keeps lifecycle (Cancel env)"
proof (rule keepsI)
  fix s r s' assume s: "lifecycle s" "Cancel env s = (r, s')"
  show "lifecycle s'"
  proof (cases "active s")
    case True
    with Cancel_active [OF True, of env] s show ?thesis by (auto simp: lifecycle_def split: if_splits)
  next
    case False
    with s Cancel_stopped [of s env] show ?thesis by (auto simp: lifecycle_def)
  qed
qed

text \<open>A step that yields nothing has reconciled the session; one that yields something leaves it active.\<close>

definition ended_or_active :: "'a option \<Rightarrow> 'w Machine \<Rightarrow> bool" where
  "ended_or_active r s \<longleftrightarrow> (if r = None then reconciled s else active s)"

lemma ended_or_active_simps [simp]:
  "ended_or_active None = reconciled" "ended_or_active (Some x) = active"
  by (simp_all add: ended_or_active_def fun_eq_iff)

lemma triple_finish_response: "triple idle finish_response ended_or_active (\<lambda>_. active)"
  unfolding finish_response_def
  by (rule triple_then [OF _ triple_Finish]) (rule triple_pre [OF triple_atomic(1)], simp)

lemma keeps_active_fetching:
  "keeps active (numbered_response env)" "keeps active (buffered_response q)" "keeps active (link_response env)"
  unfolding numbered_response_def buffered_response_def link_response_def
  by (intro keeps_intros; simp add: active_def get_request_def is_delete_def)+

lemma triple_active_some:
  "keeps active m \<Longrightarrow> (\<And>s s'. m s \<noteq> (Inr None, s')) \<Longrightarrow>
     triple active m ended_or_active (\<lambda>_. active)"
  by (intro tripleI) (auto simp: ended_or_active_def dest: keepsD)

lemma fetching_some:
  "numbered_response env s \<noteq> (Inr None, s')" "buffered_response q s \<noteq> (Inr None, s')"
  "link_response env s \<noteq> (Inr None, s')"
  by (auto simp: numbered_response_def buffered_response_def link_response_def sem_defs
      split: prod.splits sum.splits if_splits)

lemma triple_next_response_lifecycle:
  "triple idle (next_response env) ended_or_active (\<lambda>_. active)"
proof -
  note some = triple_active_some [OF keeps_active_fetching(1) fetching_some(1)]
    triple_active_some [OF keeps_active_fetching(2) fetching_some(2)]
    triple_active_some [OF keeps_active_fetching(3) fetching_some(3)]
  show ?thesis
    unfolding next_response_def
  proof (rule triple_gets_bind)
    fix ses :: Session
    show "triple (\<lambda>s. idle s \<and> m_session s = ses)
      (if s_mode ses = NUMBERED_V3 then
         (if s_expected_chunks ses \<le> s_next_chunk_index ses then finish_response else numbered_response env)
       else (case s_buffered_direct ses of Some r \<Rightarrow> buffered_response r
          | None \<Rightarrow> if s_next_url ses = [] then finish_response else link_response env))
      ended_or_active (\<lambda>_. active)"
      by (auto split: option.split intro: triple_pre [OF triple_finish_response] triple_pre [OF some(1)]
          triple_pre [OF some(2)] triple_pre [OF some(3)] idle_active)
  qed
qed

section \<open>The cursor\<close>

lemma triple_cancel_on_error_lifecycle:
  assumes "triple P m (\<lambda>_. lifecycle) (\<lambda>_. lifecycle)"
  shows "triple P (cancel_on_error env m) (\<lambda>_. lifecycle) (\<lambda>_. lifecycle)"
  unfolding cancel_on_error_def
  by (rule triple_catch [OF keeps_triple assms]) (intro keeps_intros)

lemma ended_lifecycle: "ended_or_active r s \<Longrightarrow> lifecycle s"
  by (auto simp: ended_or_active_def lifecycle_def split: if_splits)

text \<open>An operation that refuses a stopped session needs to be examined on active ones only.\<close>

lemma keeps_lifecycle_split:
  assumes "triple active m (\<lambda>_. lifecycle) (\<lambda>_. lifecycle)"
    and "\<And>s. reconciled s \<or> cancelled s \<Longrightarrow> snd (m s) = s"
  shows "keeps lifecycle m"
proof (rule keepsI)
  fix s r s' assume s: "lifecycle s" "m s = (r, s')"
  show "lifecycle s'"
  proof (cases "active s")
    case True
    with assms(1) s(2) show ?thesis by (blast intro: triple_both)
  next
    case False
    with s assms(2) [of s] show ?thesis by (auto simp: lifecycle_def)
  qed
qed

lemma keeps_lifecycle_NextChunk: "keeps lifecycle (NextChunk env)"
proof (rule keeps_lifecycle_split)
  have "triple idle (sbind (next_response env) (\<lambda>r. case r of None \<Rightarrow> sret None
      | Some response \<Rightarrow> accept_response env response)) (\<lambda>_. lifecycle) (\<lambda>_. lifecycle)"
  proof (rule triple_bind)
    show "triple idle (next_response env) ended_or_active (\<lambda>_. lifecycle)"
      by (rule triple_weaken_post [OF triple_next_response_lifecycle]) (auto intro: lifecycle_active)
    show "triple (ended_or_active r) (case r of None \<Rightarrow> sret None
      | Some response \<Rightarrow> accept_response env response) (\<lambda>_. lifecycle) (\<lambda>_. lifecycle)" for r
      by (cases r) (auto intro!: triple_pre [OF triple_atomic(1)] triple_of_keeps [OF keeps_active_accept_response]
          simp: lifecycle_def)
  qed
  then show "triple active (NextChunk env) (\<lambda>_. lifecycle) (\<lambda>_. lifecycle)"
    unfolding NextChunk_def idle_eq
    by (auto intro!: triple_guard_then triple_gets_bind triple_cancel_on_error_lifecycle
        triple_pre [OF triple_atomic(1)] intro: lifecycle_active elim: triple_pre)
next
  show "snd (NextChunk env s) = s" if "reconciled s \<or> cancelled s" for s
    using that by (auto simp: NextChunk_def sem_defs reconciled_def cancelled_def)
qed

lemma keeps_active_fetch_arrow: "keeps active (fetch_arrow env)"
  unfolding fetch_arrow_def by (intro keeps_intros) (simp_all add: active_def arrow_request_def is_delete_def)

lemma keeps_lifecycle_NextArrowChunk: "keeps lifecycle (NextArrowChunk env)"
proof (rule keeps_lifecycle_split)
  have "triple idle (sthen Finish (sret None)) (\<lambda>_. lifecycle) (\<lambda>_. lifecycle)"
    by (rule triple_then [where R = reconciled, OF _ triple_weaken_post [OF triple_Finish]])
      (auto intro: triple_pre [OF triple_atomic(1)] simp: lifecycle_def)
  moreover have "triple idle (fetch_arrow env) (\<lambda>_. lifecycle) (\<lambda>_. lifecycle)"
    by (rule triple_of_keeps [OF keeps_active_fetch_arrow]) (auto intro: idle_active lifecycle_active)
  ultimately have "triple idle (sbind (sess (\<lambda>ses. s_expected_chunks ses \<le> s_next_chunk_index ses)) (\<lambda>over.
      if over then sthen Finish (sret None) else fetch_arrow env)) (\<lambda>_. lifecycle) (\<lambda>_. lifecycle)"
    by (auto intro!: triple_gets_bind elim: triple_pre)
  then have "triple idle (sthen (CheckActive env)
      (sbind (sess (\<lambda>ses. s_expected_chunks ses \<le> s_next_chunk_index ses)) (\<lambda>over.
        if over then sthen Finish (sret None) else fetch_arrow env))) (\<lambda>_. lifecycle) (\<lambda>_. lifecycle)"
    by (intro triple_keeps_then) (auto intro: keeps_intros lifecycle_active idle_active)
  then show "triple active (NextArrowChunk env) (\<lambda>_. lifecycle) (\<lambda>_. lifecycle)"
    unfolding NextArrowChunk_def idle_eq
    by (auto intro!: triple_guard_then triple_gets_bind triple_cancel_on_error_lifecycle
        triple_pre [OF triple_atomic(1)] intro: lifecycle_active elim: triple_pre)
next
  show "snd (NextArrowChunk env s) = s" if "reconciled s \<or> cancelled s" for s
    using that by (auto simp: NextArrowChunk_def sem_defs reconciled_def cancelled_def)
qed

lemma lifecycle_world_free: "world_free lifecycle"
  by (simp add: world_free_def lifecycle_def active_def reconciled_def cancelled_def)

lemmas lifecycle_hooks [keeps_intros] =
  world_only [OF lifecycle_world_free] world_only_checks [OF lifecycle_world_free]

lemma keeps_lifecycle_ReportArrowChunk: "keeps lifecycle (ReportArrowChunk env n)"
proof -
  let ?I = "\<lambda>s. active s \<or> cancelled s"
  have wf: "world_free ?I" by (simp add: world_free_def active_def cancelled_def)
  have cancel: "keeps lifecycle (sthen (Cancel env) (sthrow e))" for e by (intro keeps_intros)
  have body: "keeps ?I (sthen (CheckActive env) (sthen (sguard bad e) (sthen (sguard bad' e')
      (upd (\<lambda>ses. ses\<lparr>s_rows := r1 ses, s_cells := r2 ses, s_fetched_chunks := r3 ses,
         s_next_chunk_index := r4 ses, s_arrow_response_outstanding := False\<rparr>)))))" for bad bad' e e' r1 r2 r3 r4
    by (intro keeps_intros world_only_checks [OF wf]) (simp add: active_def cancelled_def status_url_def)
  show ?thesis
    unfolding ReportArrowChunk_def cancel_on_error_def keeps_def
    by (intro triple_guard_then triple_catch [OF keeps_triple [OF cancel]])
      (auto intro!: triple_of_keeps [OF body] simp: lifecycle_def reconciled_def)
qed

lemma lifecycle_owner: "lifecycle (m_owner_update f s) = lifecycle s"
  by (simp add: lifecycle_def active_def reconciled_def cancelled_def)

lemma keeps_lifecycle_destroy_owner: "keeps lifecycle (destroy_owner env)"
  unfolding destroy_owner_def by (intro keeps_intros) (simp add: lifecycle_owner)

section \<open>Runs\<close>

lemma active_started: "m_sent s = [] \<Longrightarrow> active (started op cr sql b now s)"
  by (simp add: active_def new_session_def submit_request_def is_delete_def)

lemma PrepareInternal_active:
  assumes "PrepareInternal env op fuel sql cr b s = (Inr (), s')" "m_sent s = []"
  shows "active s' \<and> m_owner s' = PreparedOwner"
  using assms(1)
proof (cases rule: PrepareInternal_cases)
  case (2 w now)
  then have run: "prepare_session env fuel (started op cr sql b now (s\<lparr>m_world := w\<rparr>)) = (Inr (), s')"
    by (auto simp: sem_defs split: prod.splits sum.splits)
  then have "m_owner s' = PreparedOwner"
    by (auto simp: prepare_session_def sem_defs split: prod.splits sum.splits if_splits)
  moreover have "active (started op cr sql b now (s\<lparr>m_world := w\<rparr>))"
    using assms(2) by (intro active_started) simp
  ultimately show ?thesis using run keeps_active_prepare_session by (blast dest: keepsD)
qed simp

text \<open>A failed preparation has cancelled the query, if the service had named it.\<close>

lemma PrepareInternal_failure:
  assumes "PrepareInternal env op fuel sql cr b s = (Inl e, s')" "m_sent s = []"
    and "s_query_id (m_session s) = []" "active s"
  shows "cancelled s' \<or> active s' \<and> s_query_id (m_session s') = []"
  using assms(1)
proof (cases rule: PrepareInternal_cases)
  case (2 w now)
  let ?s = "started op cr sql b now (s\<lparr>m_world := w\<rparr>)"
  from 2 obtain s1 where run: "prepare_session env fuel ?s = (Inl e, s1)"
    and s': "s' = snd (Cancel env (snd (Cancel env s1)))"
    by (auto simp: sem_defs split: prod.splits sum.splits)
  have "active ?s" using assms(2) by (intro active_started) simp
  with run have act: "active s1" using keeps_active_prepare_session by (blast dest: keepsD)
  have "confined op cr s1"
    using triple_exn [OF triple_prepare_session ready_started [OF assms(2)] run] .
  then have "s_query_id (m_session s1) \<noteq> [] \<longrightarrow> IsSafeQueryId (s_query_id (m_session s1))"
    by (simp add: confined_def base_ok_def)
  then show ?thesis
    using act s' Cancel_active [OF act, of env] Cancel_stopped [of "snd (Cancel env s1)" env]
      IsSafeQueryId_nonempty
    by (cases "s_query_id (m_session s1) = []") (auto split: if_splits)
qed (use assms in \<open>auto simp: active_def\<close>)

lemma run_lifecycle: "client_run env op cr live s \<Longrightarrow> lifecycle s"
proof (induction rule: client_run.induct)
  case (prepared s fuel sql b s')
  then show ?case using PrepareInternal_active lifecycle_active by blast
next
  case (refused s fuel sql b e s')
  have "active s" using refused
    by (simp add: active_def new_session_def is_delete_def default_HttpRequest_def)
  with refused show ?case
    using PrepareInternal_failure by (fastforce simp: lifecycle_def new_session_def)
next
  case (called s c)
  show ?case
    by (rule keeps_cursor_call)
      (auto intro!: called.IH keeps_views keeps_lifecycle_NextChunk keeps_lifecycle_NextArrowChunk
        keeps_lifecycle_ReportArrowChunk keeps_lifecycle_destroy_owner simp: lifecycle_owner)
qed

section \<open>Letting go of a session\<close>

definition owner_is :: "Owner \<Rightarrow> 'w Machine \<Rightarrow> bool" where
  "owner_is ow s \<longleftrightarrow> m_owner s = ow"

lemma owner_is_session [simp]: "owner_is ow (m_session_update g s) = owner_is ow s"
  by (simp add: owner_is_def)

lemma owner_world_free: "world_free (owner_is ow)"
  by (simp add: world_free_def owner_is_def)

lemmas owner_hooks [keeps_intros] = world_only [OF owner_world_free] world_only_checks [OF owner_world_free]

lemma keeps_owner_transport [keeps_intros]: "keeps (owner_is ow) (transport_send env r)"
  by (auto intro!: keepsI simp: transport_send_def owner_is_def split: prod.splits)

lemma keeps_owner_steps [keeps_intros]:
  "keeps (owner_is ow) (Send env)" "keeps (owner_is ow) (Cancel env)" "keeps (owner_is ow) Finish"
  "keeps (owner_is ow) (RememberQueryId q)"
  unfolding Send_def Cancel_def Finish_def RememberQueryId_def Let_def by (intro keeps_intros; simp)+

lemma keeps_owner_accept_rows [keeps_intros]: "keeps (owner_is ow) (accept_rows rows)"
  by (induction rows) (auto intro!: keeps_intros)

lemma keeps_owner_Accept [keeps_intros]: "keeps (owner_is ow) (Accept q)"
  unfolding Accept_def Let_def by (intro keeps_intros) simp

lemma keeps_owner_next_response [keeps_intros]: "keeps (owner_is ow) (next_response env)"
  unfolding next_response_def numbered_response_def buffered_response_def link_response_def
    finish_response_def send_and_decode_def
  by (intro keeps_intros) simp_all

lemma keeps_owner_cursor:
  "keeps (owner_is ow) (NextChunk env)" "keeps (owner_is ow) (NextArrowChunk env)"
  "keeps (owner_is ow) (ReportArrowChunk env n)"
  unfolding NextChunk_def NextArrowChunk_def ReportArrowChunk_def cancel_on_error_def accept_response_def
    fetch_arrow_def
  by (intro keeps_intros; simp)+

text \<open>A session nobody holds is stopped, unless the service never named its query.\<close>

definition released :: "'w Machine \<Rightarrow> bool" where
  "released s \<longleftrightarrow> (m_owner s = NoOwner \<longrightarrow> s_query_id (m_session s) = [] \<or> reconciled s \<or> cancelled s)"

lemma keeps_released_of_owner:
  assumes "\<And>ow. keeps (owner_is ow) m" "\<And>s. m_owner s = NoOwner \<Longrightarrow> snd (m s) = s"
  shows "keeps released m"
proof (rule keepsI)
  fix s r s' assume s: "released s" "m s = (r, s')"
  have "m_owner s' = m_owner s"
    using keepsD [OF assms(1), of "m_owner s" s r s'] s(2) by (simp add: owner_is_def)
  then show "released s'" using assms(2) [of s] s by (auto simp: released_def)
qed

lemma released_destroy:
  assumes "confined op cr s" "lifecycle s" "released s"
  shows "released (snd (destroy_owner env s))"
proof (cases "m_owner s = NoOwner")
  case True
  then show ?thesis using assms by (simp add: destroy_owner_def sem_defs)
next
  case False
  have eq: "snd (destroy_owner env s) = m_owner_update (\<lambda>_. NoOwner) (snd (Cancel env s))"
    using False by (auto simp: destroy_owner_def sem_defs split: prod.splits sum.splits)
  have id: "s_query_id (m_session s) = [] \<or> IsSafeQueryId (s_query_id (m_session s))"
    using assms(1) by (auto simp: confined_def base_ok_def)
  have "s_query_id (m_session (snd (Cancel env s))) = [] \<or> reconciled (snd (Cancel env s)) \<or>
      cancelled (snd (Cancel env s))"
  proof (cases "active s")
    case True
    with id Cancel_active [OF True, of env] show ?thesis by (auto split: if_splits)
  next
    case False
    with assms(2) Cancel_stopped [of s env] show ?thesis by (auto simp: lifecycle_def)
  qed
  then show ?thesis
    unfolding eq by (simp add: released_def reconciled_def cancelled_def)
qed

lemma released_call:
  assumes "confined op cr s" "lifecycle s" "released s"
  shows "released (cursor_call env c s)"
proof (cases c)
  case CallOpenCursor
  then show ?thesis using assms(3) by (auto simp: OpenCursor_def sem_defs released_def)
next
  case CallDestroy
  then show ?thesis using released_destroy [OF assms] by simp
next
  case CallNextChunk
  have "keeps released (NextChunk env)"
    by (rule keeps_released_of_owner [OF keeps_owner_cursor(1)]) (simp add: NextChunk_def sem_defs)
  with CallNextChunk assms(3) show ?thesis by (simp add: keeps_snd)
next
  case CallNextArrowChunk
  have "keeps released (NextArrowChunk env)"
    by (rule keeps_released_of_owner [OF keeps_owner_cursor(2)]) (simp add: NextArrowChunk_def sem_defs)
  with CallNextArrowChunk assms(3) show ?thesis by (simp add: keeps_snd)
next
  case (CallReportArrowChunk n)
  have "keeps released (ReportArrowChunk env n)"
    by (rule keeps_released_of_owner [OF keeps_owner_cursor(3)]) (simp add: ReportArrowChunk_def sem_defs)
  with CallReportArrowChunk assms(3) show ?thesis by (simp add: keeps_snd)
qed (use assms(3) in \<open>simp_all add: keeps_snd [OF keeps_views(1)] keeps_snd [OF keeps_views(2)]\<close>)

lemma run_released: "client_run env op cr live s \<Longrightarrow> released s"
proof (induction rule: client_run.induct)
  case (prepared s fuel sql b s')
  then show ?case using PrepareInternal_active by (fastforce simp: released_def)
next
  case (refused s fuel sql b e s')
  have "active s" using refused
    by (simp add: active_def new_session_def is_delete_def default_HttpRequest_def)
  with refused show ?case
    using PrepareInternal_failure by (fastforce simp: released_def new_session_def)
next
  case (called s c)
  then show ?case using run_live run_lifecycle released_call by blast
qed

end
