(* ===== verification/Query_Errors.thy ===== *)
theory Query_Errors
  imports Query_Lifecycle
begin

text \<open>
  The exceptions the query client can throw. They are a fixed list of constant texts: nothing a
  response, a credential or an SQL text contains can reach a caller through an error message.
\<close>

section \<open>Exceptions an operation can throw\<close>

definition raises :: "'e set \<Rightarrow> ('s, 'e, 'a) sem \<Rightarrow> bool" where
  "raises E m \<longleftrightarrow> (\<forall>s e s'. m s = (Inl e, s') \<longrightarrow> e \<in> E)"

named_theorems raises_intros \<open>structural rules for the exceptions of operations\<close>

lemma raises_bind [raises_intros]: "raises E m \<Longrightarrow> (\<And>a. raises E (k a)) \<Longrightarrow> raises E (sbind m k)"
  by (fastforce simp: raises_def sbind_def split: prod.splits sum.splits)

lemma raises_then [raises_intros]: "raises E m \<Longrightarrow> raises E n \<Longrightarrow> raises E (sthen m n)"
  unfolding sthen_def by (rule raises_bind)

lemma raises_catch [raises_intros]: "(\<And>e. e \<in> D \<Longrightarrow> raises E (h e)) \<Longrightarrow> raises D m \<Longrightarrow> raises E (scatch m h)"
  by (fastforce simp: raises_def scatch_def split: prod.splits sum.splits)

lemma raises_atomic [raises_intros]:
  "raises E (sret a)" "raises E (sgets f)" "raises E (smodify g)"
  "e \<in> E \<Longrightarrow> raises E (sthrow e)" "e \<in> E \<Longrightarrow> raises E (sguard bad e)"
  by (auto simp: raises_def sem_defs split: if_splits)

lemma raises_cases [raises_intros]:
  "raises E m \<Longrightarrow> raises E n \<Longrightarrow> raises E (if b then m else n)"
  "raises E m' \<Longrightarrow> raises E (swhen b m')"
  "raises E n \<Longrightarrow> (\<And>x. raises E (f x)) \<Longrightarrow> raises E (case opt of None \<Rightarrow> n | Some x \<Rightarrow> f x)"
  "(\<And>x. raises E (g x)) \<Longrightarrow> (\<And>y. raises E (h y)) \<Longrightarrow> raises E (case u of Inl x \<Rightarrow> g x | Inr y \<Rightarrow> h y)"
  "raises E p \<Longrightarrow> raises E q \<Longrightarrow> raises E (case d of DecodeReauth \<Rightarrow> p | DecodeOther \<Rightarrow> q)"
  by (auto simp: raises_def swhen_def sret_def split: option.splits sum.splits decode_exn.splits)

lemma raisesD: "raises E m \<Longrightarrow> m s = (Inl e, s') \<Longrightarrow> e \<in> E"
  by (auto simp: raises_def)

lemma raises_mono: "raises D m \<Longrightarrow> D \<subseteq> E \<Longrightarrow> raises E m"
  by (auto simp: raises_def)

lemma raises_hooks [raises_intros]:
  "raises E (is_cancelled env)" "raises E (now_ms env)" "raises E (sleep_ms env d)"
  "raises E (transport_send env r)" "raises E (codec_decode env q)" "raises E (Cancel env)"
  by (auto simp: raises_def is_cancelled_def now_ms_def sleep_ms_def transport_send_def codec_decode_def
      split: prod.splits)

section \<open>The errors of the query client\<close>

definition argument_errors :: "exn list" where
  "argument_errors =
     [invalid_argument ''Data 360 query SQL must not be empty'',
      invalid_argument ''Data 360 credentials are incomplete'',
      invalid_argument ''Data 360 tenant URL is not trusted'']"

definition usage_errors :: "exn list" where
  "usage_errors =
     [prepared_unavailable, cursor_unavailable,
      logic_error ''Data 360 Arrow response must be reported before another cursor operation'',
      logic_error ''Data 360 Arrow cursor requires a numbered V3 query'',
      logic_error ''Data 360 Arrow response must be reported before fetching another chunk'',
      logic_error ''Data 360 Arrow response row count was not expected'',
      logic_error ''Data 360 query cursor is terminal'']"

definition query_errors :: "exn list" where
  "query_errors =
     [ReauthRequiredException, cancelled_exn, timeout_exn,
      runtime_error ''Data 360 transport failed'',
      runtime_error ''Data 360 response decoding failed'',
      runtime_error ''Data 360 Query API cumulative response limit exceeded'',
      runtime_error ''Data 360 Query API returned an invalid query ID'',
      runtime_error ''Data 360 Query API query identity changed'',
      runtime_error ''Data 360 Query API returned an invalid row width'',
      runtime_error ''Data 360 Query API materialization limit exceeded'',
      runtime_error ''Data 360 Query API chunk retrieval failed'',
      runtime_error ''Data 360 Query API result schema changed'',
      runtime_error ''Data 360 Query API returned too many chunks'',
      runtime_error ''Data 360 Query API chunk row count mismatch'',
      runtime_error ''Data 360 Query API row count mismatch'',
      runtime_error ''Data 360 Query API chunk count mismatch'',
      runtime_error ''Data 360 Query API chunk chain was incomplete'',
      runtime_error ''Data 360 Query API returned an unsafe chunk URL'',
      runtime_error ''Data 360 Query API returned an invalid async response'',
      runtime_error ''Data 360 Query API returned an invalid completed response'',
      runtime_error ''Data 360 Query API metadata retrieval failed'',
      runtime_error ''Data 360 Query API numeric metadata was incomplete'',
      runtime_error ''Data 360 Query API did not complete'',
      runtime_error ''Data 360 Query API returned too many columns'']"

definition client_errors :: "exn list" where
  "client_errors = argument_errors @ usage_errors @ query_errors"

abbreviation Errs :: "exn set" where
  "Errs \<equiv> set client_errors"

lemmas error_lists = client_errors_def argument_errors_def usage_errors_def query_errors_def

lemma no_fuel_error: "OutOfFuel \<notin> Errs"
  by (simp add: error_lists)

lemma raises_session [raises_intros]:
  "raises Errs (CheckActive env)" "raises Errs (transport_failure env)"
  "raises Errs (Decode env q)" "raises Errs (RememberQueryId r)" "raises Errs Finish"
  unfolding CheckActive_def transport_failure_def Decode_def RememberQueryId_def Finish_def Let_def
  by (intro raises_intros; simp add: error_lists)+

lemma raises_Send [raises_intros]: "raises Errs (Send env)"
  unfolding Send_def by (intro raises_intros) (simp add: error_lists)

lemma raises_accept_rows [raises_intros]: "raises Errs (accept_rows rows)"
  by (induction rows) (auto intro!: raises_intros simp: error_lists)

lemma raises_Accept [raises_intros]: "raises Errs (Accept r)"
  unfolding Accept_def Let_def by (intro raises_intros) (simp_all add: error_lists)

lemma raises_cancel_on_error [raises_intros]: "raises E m \<Longrightarrow> raises E (cancel_on_error env m)"
  unfolding cancel_on_error_def by (intro raises_intros)

lemma raises_NextChunk [raises_intros]: "raises Errs (NextChunk env)"
  unfolding NextChunk_def next_response_def numbered_response_def buffered_response_def link_response_def
    finish_response_def send_and_decode_def accept_response_def
  by (intro raises_intros) (simp_all add: error_lists)

lemma raises_NextArrowChunk [raises_intros]: "raises Errs (NextArrowChunk env)"
  unfolding NextArrowChunk_def fetch_arrow_def by (intro raises_intros) (simp_all add: error_lists)

lemma raises_ReportArrowChunk [raises_intros]: "raises Errs (ReportArrowChunk env n)"
  unfolding ReportArrowChunk_def by (intro raises_intros) (simp_all add: error_lists)

lemma raises_views [raises_intros]:
  "raises Errs PreparedMetadata" "raises Errs OpenCursor" "raises Errs IsNumberedV3" "raises E (destroy_owner env)"
  unfolding PreparedMetadata_def OpenCursor_def IsNumberedV3_def destroy_owner_def
  by (intro raises_intros; simp add: error_lists)+

lemma raises_poll_once [raises_intros]: "raises Errs (poll_once env)" "raises Errs (exchange env)"
  unfolding poll_once_def exchange_def send_and_decode_def
  by (intro raises_intros; simp add: error_lists)+

lemma raises_open [raises_intros]: "raises Errs (open_numbered env q)" "raises Errs (open_direct q)"
  unfolding open_numbered_def open_direct_def send_and_decode_def
  by (intro raises_intros; simp add: error_lists)+

text \<open>The two loops add the artefact of a run cut off, and nothing else.\<close>

lemma raises_widen: "raises Errs m \<Longrightarrow> raises (insert OutOfFuel Errs) m"
  by (erule raises_mono) blast

lemma raises_poll_loop: "raises (insert OutOfFuel Errs) (poll_loop env fuel q)"
proof (induction fuel arbitrary: q)
  case 0
  then show ?case by (subst poll_loop.simps) (simp add: raises_intros)
next
  case (Suc fuel)
  then show ?case
    by (subst poll_loop.simps) (auto intro!: raises_cases raises_atomic raises_bind raises_widen [OF raises_poll_once(1)])
qed

lemma raises_prepare_session: "raises (insert OutOfFuel Errs) (prepare_session env fuel)"
  unfolding prepare_session_def
  by (intro raises_bind raises_then raises_cases(1) raises_poll_loop raises_atomic
      raises_widen [OF raises_poll_once(2)] raises_widen [OF raises_open(1)] raises_widen [OF raises_open(2)])
    (simp_all add: error_lists)

lemma raises_PrepareInternal: "raises (insert OutOfFuel Errs) (PrepareInternal env op fuel sql cr b)"
  unfolding PrepareInternal_def
  by (intro raises_bind raises_then raises_cases(1) raises_atomic raises_hooks
      raises_catch [OF _ raises_prepare_session])
    (simp_all add: error_lists)

lemma raises_drain: "raises (insert OutOfFuel Errs) (drain env fuel acc)"
proof (induction fuel arbitrary: acc)
  case 0
  then show ?case by (subst drain.simps) (simp add: raises_intros)
next
  case (Suc fuel)
  then show ?case
    by (subst drain.simps) (auto intro!: raises_cases raises_atomic raises_bind raises_widen [OF raises_NextChunk])
qed

lemma raises_with_cleanup: "raises E m \<Longrightarrow> raises E (with_cleanup env m)"
  unfolding with_cleanup_def by (intro raises_catch raises_bind raises_then raises_atomic raises_views(4))

lemma raises_Execute: "raises (insert OutOfFuel Errs) (Execute env op fuel sql cr)"
  unfolding Execute_def Prepare_def
  by (intro raises_then raises_with_cleanup raises_bind raises_PrepareInternal raises_drain raises_atomic
      raises_widen [OF raises_views(1)] raises_widen [OF raises_views(2)])

lemma raises_ExecuteMetadata: "raises (insert OutOfFuel Errs) (ExecuteMetadata env op fuel sql cr)"
  unfolding ExecuteMetadata_def
  by (intro raises_then raises_with_cleanup raises_PrepareInternal raises_widen [OF raises_views(1)])

end
