(* ===== verification/Query_Execute.thy ===== *)
theory Query_Execute
  imports Query_Errors
begin

text \<open>
  \<open>Execute\<close> from end to end: the rows it returns, their width, their number against the limits and
  against what the service announced, the number of chunks it fetches, and that draining the cursor
  ends.
\<close>

section \<open>What one chunk adds\<close>

definition tally_is :: "ColumnMetadata list \<Rightarrow> u64 \<Rightarrow> u64 \<Rightarrow> 'w Machine \<Rightarrow> bool" where
  "tally_is md n k s \<longleftrightarrow> s_metadata (m_session s) = md \<and> s_rows (m_session s) = n \<and> s_fetched_chunks (m_session s) = k"

lemma keeps_tally_of_counters: "(\<And>c. keeps (counters_are c) m) \<Longrightarrow> keeps (tally_is md n k) m"
  by (rule keeps_of_counters) (auto simp: counters_def tally_is_def)

lemma keeps_tally_next_response: "keeps (tally_is md n k) (next_response env)"
  unfolding next_response_def numbered_response_def buffered_response_def link_response_def
    finish_response_def Finish_def
  by (intro keeps_bind keeps_then keeps_cases keeps_atomic keeps_modify keeps_tally_of_counters
      keeps_counters_exchange)
    (simp_all add: tally_is_def get_request_def)

lemma accept_rows_run:
  "accept_rows rows s = (Inr (), s') \<Longrightarrow>
     (\<forall>row \<in> set rows. length row = length (s_metadata (m_session s))) \<and>
     (\<exists>c. s' = m_session_update (s_cells_update (\<lambda>_. c)) s)"
proof (induction rows arbitrary: s)
  case Nil
  then show ?case
    by (auto simp: sem_defs intro!: exI [of _ "s_cells (m_session s)"])
next
  case (Cons row rows)
  let ?s = "m_session_update (s_cells_update (\<lambda>n. n + size_u64 row)) s"
  from Cons.prems have w: "length row = length (s_metadata (m_session s))"
    and run: "accept_rows rows ?s = (Inr (), s')"
    by (auto simp: run_returns)
  from Cons.IH [OF run] obtain c where
    "\<forall>row \<in> set rows. length row = length (s_metadata (m_session s))"
    "s' = m_session_update (s_cells_update (\<lambda>_. c)) ?s"
    by auto
  with w show ?case by (auto intro!: exI [of _ c])
qed

lemma Accept_run:
  assumes "Accept response s = (Inr c, s')"
  shows "c = qr_chunk response"
    and "\<forall>row \<in> set (ch_rows c). length row = length (s_metadata (m_session s))"
    and "s_metadata (m_session s') = s_metadata (m_session s)"
    and "s_rows (m_session s') = s_rows (m_session s) + size_u64 (ch_rows c)"
    and "size_u64 (ch_rows c) \<le> budget (op_max_rows (s_options (m_session s))) (s_rows (m_session s))"
    and "s_fetched_chunks (m_session s') = s_fetched_chunks (m_session s) + 1"
    and "s_fetched_chunks (m_session s) < op_max_chunks (s_options (m_session s))"
proof -
  let ?rows = "ch_rows (qr_chunk response)"
  from assms obtain s1 where rows: "accept_rows ?rows s = (Inr (), s1)"
    and g: "\<not> op_max_chunks (s_options (m_session s)) \<le> s_fetched_chunks (m_session s)"
      "\<not> budget (op_max_rows (s_options (m_session s))) (s_rows (m_session s)) < size_u64 ?rows"
    and s': "s' = m_session_update (\<lambda>ses. ses\<lparr>s_rows := s_rows ses + size_u64 ?rows,
                            s_fetched_chunks := s_fetched_chunks ses + 1\<rparr>) s1"
    and c: "c = qr_chunk response"
    unfolding Accept_def Let_def by (auto simp: run_returns)
  from accept_rows_run [OF rows] obtain n where
    w: "\<forall>row \<in> set ?rows. length row = length (s_metadata (m_session s))"
    and s1: "s1 = m_session_update (s_cells_update (\<lambda>_. n)) s" by auto
  show "c = qr_chunk response"
    and "\<forall>row \<in> set (ch_rows c). length row = length (s_metadata (m_session s))"
    and "s_metadata (m_session s') = s_metadata (m_session s)"
    and "s_rows (m_session s') = s_rows (m_session s) + size_u64 (ch_rows c)"
    and "size_u64 (ch_rows c) \<le> budget (op_max_rows (s_options (m_session s))) (s_rows (m_session s))"
    and "s_fetched_chunks (m_session s') = s_fetched_chunks (m_session s) + 1"
    and "s_fetched_chunks (m_session s) < op_max_chunks (s_options (m_session s))"
    using c w g s' s1 by (simp_all add: not_less not_le)
qed

text \<open>The numbers of a chunk that \<open>NextChunk\<close> hands out, without wrap-around.\<close>

definition one_more :: "ColumnMetadata list \<Rightarrow> u64 \<Rightarrow> u64 \<Rightarrow> ResultChunk option \<Rightarrow> 'w Machine \<Rightarrow> bool" where
  "one_more md n k r s \<longleftrightarrow>
     (case r of
        None \<Rightarrow> tally_is md n k s
      | Some c \<Rightarrow>
          s_metadata (m_session s) = md \<and>
          (\<forall>row \<in> set (ch_rows c). length row = length md) \<and>
          unat (s_rows (m_session s)) = unat n + unat (size_u64 (ch_rows c)) \<and>
          unat (s_fetched_chunks (m_session s)) = Suc (unat k))"

lemma triple_accept_response_tally:
  "triple (\<lambda>s. tally_is md n k s \<and> budgeted op s) (accept_response env response) (one_more md n k) (\<lambda>_ _. True)"
proof -
  have pre: "keeps (\<lambda>s. tally_is md n k s \<and> budgeted op s) m" if "\<And>c. keeps (counters_are c) m"
    for m :: "('w Machine, exn, 'z) sem"
    by (rule keeps_of_counters [OF that]) (auto simp: counters_def tally_is_def budgeted_def within_budgets_def)
  have "triple (\<lambda>s. tally_is md n k s \<and> budgeted op s) (Accept response) (\<lambda>c. one_more md n k (Some c)) (\<lambda>_ _. True)"
  proof (rule tripleI)
    fix s c s' assume s: "tally_is md n k s \<and> budgeted op s" "Accept response s = (Inr c, s')"
    note a = Accept_run [OF s(2)]
    have "n \<le> op_max_rows op" "s_options (m_session s) = op"
      using s(1) by (auto simp: tally_is_def budgeted_def within_budgets_def)
    then have "unat (n + size_u64 (ch_rows c)) = unat n + unat (size_u64 (ch_rows c))"
      using a(5) s(1) by (intro budget_spend(1)) (auto simp: tally_is_def)
    with a unat_Suc_u64 [OF a(7)] s(1) show "one_more md n k (Some c) s'"
      by (auto simp: one_more_def tally_is_def)
  qed simp
  then have "triple (\<lambda>s. tally_is md n k s \<and> budgeted op s)
     (sbind (Accept response) (\<lambda>accepted. sthen (upd (\<lambda>ses. if s_mode ses = DIRECT_LEGACY
        then ses\<lparr>s_next_url := ch_next_url accepted\<rparr> else ses)) (sret (Some accepted))))
     (one_more md n k) (\<lambda>_ _. True)"
    by (rule triple_bind [rotated]) (auto simp: triple_def sem_defs one_more_def)
  then show ?thesis
    unfolding accept_response_def
    by (intro triple_keeps_then [OF pre] keeps_counters_Remember counters_hooks) simp_all
qed

lemma NextChunk_tally:
  fixes env :: "'w QueryEnv"
  shows "triple (\<lambda>s. tally_is md n k s \<and> budgeted op s) (NextChunk env) (one_more md n k) (\<lambda>_ _. True)"
proof -
  let ?I = "\<lambda>s :: 'w Machine. tally_is md n k s \<and> budgeted op s"
  have "triple (\<lambda>s. ?I s \<and> \<not> s_arrow_response_outstanding (m_session s)) (next_response env) (\<lambda>_. ?I) (\<lambda>_ _. True)"
  proof (rule tripleI)
    fix s :: "'w Machine" and r s'
    assume s: "?I s \<and> \<not> s_arrow_response_outstanding (m_session s)" "next_response env s = (Inr r, s')"
    have "budgeted op s'"
      using triple_ret [OF triple_budget_next_response _ s(2), of op] s(1) by auto
    moreover have "tally_is md n k s'" using keepsD [OF keeps_tally_next_response _ s(2)] s(1) by blast
    ultimately show "?I s'" by simp
  qed simp
  moreover have "triple ?I (case r of None \<Rightarrow> sret None | Some response \<Rightarrow> accept_response env response)
      (one_more md n k) (\<lambda>_ _. True)" for r
    using triple_accept_response_tally [of md n k op env]
    by (cases r) (auto simp: triple_def sem_defs one_more_def)
  ultimately have body: "triple (\<lambda>s. ?I s \<and> \<not> s_arrow_response_outstanding (m_session s))
      (sbind (next_response env) (\<lambda>r. case r of None \<Rightarrow> sret None | Some response \<Rightarrow> accept_response env response))
      (one_more md n k) (\<lambda>_ _. True)"
    by (rule triple_bind [rotated])
  have "triple (\<lambda>s. ?I s \<and> \<not> s_arrow_response_outstanding (m_session s))
      (cancel_on_error env (sbind (next_response env)
         (\<lambda>r. case r of None \<Rightarrow> sret None | Some response \<Rightarrow> accept_response env response)))
      (one_more md n k) (\<lambda>_ _. True)"
    unfolding cancel_on_error_def
    by (rule triple_catch [OF _ body]) (auto simp: triple_def sem_defs split: prod.split sum.split)
  then show ?thesis
    unfolding NextChunk_def
    apply (intro triple_guard_then triple_gets_bind)
    apply (auto simp: triple_def sem_defs one_more_def)
    done
qed

text \<open>The end of the results is reported only by a reconciled session, an active one yields a chunk.\<close>

lemma NextChunk_ends:
  assumes "active s" "NextChunk env s = (Inr r, s')"
  shows "ended_or_active r s'"
proof -
  from assms have idle: "idle s"
    and run: "cancel_on_error env (sbind (next_response env)
         (\<lambda>r. case r of None \<Rightarrow> sret None | Some response \<Rightarrow> accept_response env response)) s = (Inr r, s')"
    by (auto simp: NextChunk_def run_returns idle_def active_def split: if_splits)
  from run obtain q s1 where q: "next_response env s = (Inr q, s1)"
    and r: "(case q of None \<Rightarrow> sret None | Some response \<Rightarrow> accept_response env response) s1 = (Inr r, s')"
    by (auto simp: cancel_on_error_def scatch_def sbind_def sthen_def sthrow_def split: prod.splits sum.splits)
  have e: "ended_or_active q s1" using triple_ret [OF triple_next_response_lifecycle idle q] .
  show ?thesis
  proof (cases q)
    case None
    with r e show ?thesis by (simp add: atomic_returns)
  next
    case (Some response)
    with r have run: "accept_response env response s1 = (Inr r, s')" by simp
    then have "r \<noteq> None" by (auto simp: accept_response_def run_returns)
    moreover have "active s'" using keepsD [OF keeps_active_accept_response _ run] e Some by simp
    ultimately show ?thesis by (auto simp: ended_or_active_def)
  qed
qed

section \<open>Draining the cursor\<close>

definition total_rows :: "ResultChunk list \<Rightarrow> nat" where
  "total_rows chunks = sum_list (map (\<lambda>c. unat (size_u64 (ch_rows c))) chunks)"

definition collected :: "ColumnMetadata list \<Rightarrow> ResultChunk list \<Rightarrow> 'w Machine \<Rightarrow> bool" where
  "collected md chunks s \<longleftrightarrow>
     s_metadata (m_session s) = md \<and>
     (\<forall>c \<in> set chunks. \<forall>row \<in> set (ch_rows c). length row = length md) \<and>
     unat (s_rows (m_session s)) = total_rows chunks \<and>
     unat (s_fetched_chunks (m_session s)) = length chunks"

lemma collected_step:
  assumes "collected md chunks s" "budgeted op s" "NextChunk env s = (Inr r, s')"
  shows "collected md (case r of None \<Rightarrow> chunks | Some c \<Rightarrow> chunks @ [c]) s'"
proof -
  have "tally_is md (s_rows (m_session s)) (s_fetched_chunks (m_session s)) s"
    using assms(1) by (simp add: tally_is_def collected_def)
  from triple_ret [OF NextChunk_tally _ assms(3), OF conjI, OF this assms(2)]
  show ?thesis using assms(1)
    by (cases r) (auto simp: one_more_def tally_is_def collected_def total_rows_def)
qed

lemma drain_returns:
  assumes "drain env fuel acc s = (Inr chunks, s')" "active s" "budgeted op s" "collected md acc s"
  shows "reconciled s' \<and> budgeted op s' \<and> collected md chunks s'"
  using assms
proof (induction fuel arbitrary: acc s)
  case 0
  then show ?case by (subst (asm) drain.simps) (simp add: run_returns)
next
  case (Suc fuel)
  from Suc.prems(1) obtain r s1 where step: "NextChunk env s = (Inr r, s1)"
    and rest: "(case r of None \<Rightarrow> sret acc | Some c \<Rightarrow> drain env fuel (acc @ [c])) s1 = (Inr chunks, s')"
    by (subst (asm) drain.simps) (auto simp: run_returns)
  have b: "budgeted op s1" using keepsD [OF keeps_budgeted_NextChunk Suc.prems(3) step] .
  note c = collected_step [OF Suc.prems(4,3) step] and e = NextChunk_ends [OF Suc.prems(2) step]
  show ?case
  proof (cases r)
    case None
    with rest b c e show ?thesis by (simp add: atomic_returns)
  next
    case (Some ch)
    with rest b c e Suc.IH [of "acc @ [ch]" s1] show ?thesis by simp
  qed
qed

text \<open>Every chunk is counted, so the limit on chunks bounds the number of rounds.\<close>

lemma drain_enough_fuel:
  assumes "budgeted op s" "collected md acc s" "unat (op_max_chunks op) < fuel + length acc"
  shows "fst (drain env fuel acc s) \<noteq> Inl OutOfFuel"
  using assms
proof (induction fuel arbitrary: acc s)
  case 0
  then show ?case
    by (auto simp: budgeted_def within_budgets_def collected_def unat_mono_iff)
next
  case (Suc fuel)
  obtain x s1 where step: "NextChunk env s = (x, s1)" by force
  show ?case
  proof (cases x)
    case (Inl e)
    then have "e \<noteq> OutOfFuel" using raisesD [OF raises_NextChunk] step no_fuel_error by blast
    with Inl step show ?thesis by (subst drain.simps) (simp add: sbind_def)
  next
    case (Inr r)
    have b: "budgeted op s1" using keepsD [OF keeps_budgeted_NextChunk Suc.prems(1) step] .
    have c: "collected md (case r of None \<Rightarrow> acc | Some c \<Rightarrow> acc @ [c]) s1"
      using collected_step [OF Suc.prems(2,1)] step Inr by blast
    with Inr step b Suc.IH [of s1] Suc.prems(3) show ?thesis
      by (subst drain.simps) (auto simp: sbind_def sret_def split: option.split)
  qed
qed

lemma run_drain: "client_run env op cr True s \<Longrightarrow> client_run env op cr True (snd (drain env fuel acc s))"
proof (induction fuel arbitrary: acc s)
  case 0
  then show ?case by (subst drain.simps) (simp add: sthrow_def)
next
  case (Suc fuel)
  obtain x s1 where step: "NextChunk env s = (x, s1)" by force
  have "client_run env op cr True s1" using called [OF Suc.prems, of CallNextChunk] step by simp
  with Suc.IH step show ?case
    by (subst drain.simps) (auto simp: sbind_def sret_def split: sum.split option.split)
qed

section \<open>Execute\<close>

text \<open>The machine before the first call: nothing sent, no session held.\<close>

definition initial :: "QueryOptions \<Rightarrow> QueryCredentials \<Rightarrow> 'w Machine \<Rightarrow> bool" where
  "initial op cr s \<longleftrightarrow> m_sent s = [] \<and> m_owner s = NoOwner \<and>
     m_session s = new_session op cr 0 default_HttpRequest"

definition nothing_yet :: "'w Machine \<Rightarrow> bool" where
  "nothing_yet s \<longleftrightarrow> s_rows (m_session s) = 0 \<and> s_fetched_chunks (m_session s) = 0"

lemma keeps_nothing_prepare: "keeps nothing_yet (prepare_session env fuel)"
proof -
  have ext: "keeps nothing_yet m" if "\<And>c. keeps (counters_are c) m" for m :: "('w Machine, exn, 'z) sem"
    by (rule keeps_of_counters [OF that]) (simp add: counters_def nothing_yet_def)
  have opens: "keeps nothing_yet (open_numbered env d)" "keeps nothing_yet (open_direct d)" for d
    unfolding open_numbered_def open_direct_def
    by (intro keeps_intros ext; simp add: nothing_yet_def get_request_def)+
  show ?thesis
    unfolding prepare_session_def
    by (intro keeps_bind keeps_then keeps_cases keeps_atomic keeps_modify opens ext [OF keeps_counters_round]
        ext [OF keeps_counters_poll_loop]) (simp_all add: nothing_yet_def)
qed

lemma PrepareInternal_nothing_yet:
  assumes "PrepareInternal env op fuel sql cr b s = (Inr (), s')"
  shows "collected (s_metadata (m_session s')) [] s'"
  using assms
proof (cases rule: PrepareInternal_cases)
  case (2 w now)
  then have run: "prepare_session env fuel (started op cr sql b now (s\<lparr>m_world := w\<rparr>)) = (Inr (), s')"
    by (auto simp: sem_defs split: prod.splits sum.splits)
  have "nothing_yet (started op cr sql b now (s\<lparr>m_world := w\<rparr>))"
    by (simp add: nothing_yet_def new_session_def)
  with run have "nothing_yet s'" using keeps_nothing_prepare by (blast dest: keepsD)
  then show ?thesis by (simp add: nothing_yet_def collected_def total_rows_def)
qed simp

lemma destroy_owner_noexcept [simp]: "destroy_owner env s \<noteq> (Inl e, s')"
  using raises_views(4) [of "{}" env] by (auto simp: raises_def)

lemma with_cleanup_returns:
  "with_cleanup env m s = (Inr a, s') \<longleftrightarrow> (\<exists>s1. m s = (Inr a, s1) \<and> s' = snd (destroy_owner env s1))"
  by (auto simp: with_cleanup_def scatch_def sbind_def sthen_def sret_def sthrow_def
      split: prod.splits sum.splits)

lemma with_cleanup_state: "snd (with_cleanup env m s) = snd (destroy_owner env (snd (m s)))"
  by (auto simp: with_cleanup_def scatch_def sbind_def sthen_def sret_def sthrow_def
      split: prod.splits sum.splits)

text \<open>
  The body of \<open>Execute\<close> after a successful \<open>Prepare\<close>.
\<close>

abbreviation execute_body ::
  "'w QueryEnv \<Rightarrow> nat \<Rightarrow> ('w Machine, exn, ColumnMetadata list \<times> ResultChunk list) sem" where
  "execute_body env fuel \<equiv>
     sbind PreparedMetadata (\<lambda>metadata.
       sthen OpenCursor (sbind (drain env fuel []) (\<lambda>chunks. sret (metadata, chunks))))"

lemma run_execute_body:
  assumes "client_run env op cr True s"
  shows "client_run env op cr True (snd (execute_body env fuel s))"
proof -
  have open_run: "client_run env op cr True (snd (OpenCursor s))"
    using called [OF assms, of CallOpenCursor] by simp
  have "snd (execute_body env fuel s) \<in> {s, snd (OpenCursor s), snd (drain env fuel [] (snd (OpenCursor s)))}"
    by (auto simp: PreparedMetadata_def sem_defs split: prod.split sum.split)
  with assms open_run run_drain [OF open_run, of fuel "[]"] show ?thesis by auto
qed

lemma destroy_owner_none: "m_owner (snd (destroy_owner env s)) = NoOwner"
  by (auto simp: destroy_owner_def sem_defs split: prod.split sum.split)

lemma Cancel_owner: "Cancel env s = (r, s') \<Longrightarrow> m_owner s' = m_owner s"
  using keepsD [OF keeps_owner_steps(2), of "m_owner s" s] by (simp add: owner_is_def)

lemma prepare_session_owner:
  assumes "prepare_session env fuel s = (Inl e, s')"
  shows "m_owner s' = m_owner s"
proof -
  have poll: "keeps (owner_is ow) (poll_loop env fuel d)" for ow d
  proof (induction fuel arbitrary: d)
    case 0
    then show ?case by (subst poll_loop.simps) (simp add: keeps_intros)
  next
    case (Suc fuel)
    have "keeps (owner_is ow) (poll_once env)"
      unfolding poll_once_def exchange_def send_and_decode_def by (intro keeps_intros) simp
    with Suc show ?case by (subst poll_loop.simps) (auto intro!: keeps_intros)
  qed
  have "keeps (owner_is ow) (open_numbered env d)" "keeps (owner_is ow) (open_direct d)"
    "keeps (owner_is ow) (exchange env)" for ow d
    unfolding open_numbered_def open_direct_def exchange_def send_and_decode_def by (intro keeps_intros; simp)+
  with poll have "triple (owner_is (m_owner s)) (prepare_session env fuel) (\<lambda>_ _. True) (\<lambda>_. owner_is (m_owner s))"
    unfolding prepare_session_def
    by (intro triple_keeps_bind triple_keeps_then keeps_cases keeps_atomic) (auto simp: triple_def sem_defs)
  from triple_exn [OF this _ assms] show ?thesis by (simp add: owner_is_def)
qed

text \<open>Whatever \<open>Execute\<close> and \<open>ExecuteMetadata\<close> do is a run, at whose end nobody holds the session.\<close>

lemma then_cleanup_run:
  assumes "initial op cr s" and "sthen (PrepareInternal env op fuel sql cr b) (with_cleanup env m) s = (r, s')"
    and "\<And>t. client_run env op cr True t \<Longrightarrow> client_run env op cr True (snd (m t))"
  shows "(\<exists>live. client_run env op cr live s') \<and> m_owner s' = NoOwner"
proof -
  obtain p s1 where p: "PrepareInternal env op fuel sql cr b s = (p, s1)" by force
  show ?thesis
  proof (cases p)
    case (Inl e)
    with p assms(2) have s': "s' = s1" by (simp add: sthen_def sbind_def)
    have "client_run env op cr False s1"
      using assms(1) p Inl by (auto simp: initial_def intro: refused)
    moreover have "m_owner s1 = NoOwner"
    proof -
      from p show ?thesis
      proof (cases rule: PrepareInternal_cases)
        case (2 w now)
        with Inl show ?thesis
          by (auto simp: scatch_def sthen_def sbind_def sthrow_def
              split: prod.splits sum.splits dest!: prepare_session_owner Cancel_owner)
      qed (use assms(1) in \<open>auto simp: initial_def\<close>)
    qed
    ultimately show ?thesis using s' by blast
  next
    case (Inr u)
    with p assms(2) have s': "s' = snd (with_cleanup env m s1)" by (simp add: sthen_def sbind_def)
    have "client_run env op cr True s1"
      using assms(1) p Inr by (auto simp: initial_def intro: prepared)
    from called [OF assms(3) [OF this], of CallDestroy] s' destroy_owner_none show ?thesis
      by (auto simp: with_cleanup_state)
  qed
qed

lemma Execute_run:
  assumes "initial op cr s" "Execute env op fuel sql cr s = (r, s')"
  shows "(\<exists>live. client_run env op cr live s') \<and> m_owner s' = NoOwner"
  using assms(1) assms(2) [unfolded Execute_def Prepare_def]
  by (rule then_cleanup_run) (rule run_execute_body)

lemma ExecuteMetadata_run:
  assumes "initial op cr s" "ExecuteMetadata env op fuel sql cr s = (r, s')"
  shows "(\<exists>live. client_run env op cr live s') \<and> m_owner s' = NoOwner"
  using assms(1) assms(2) [unfolded ExecuteMetadata_def]
proof (rule then_cleanup_run)
  show "client_run env op cr True (snd (PreparedMetadata t))" if "client_run env op cr True t" for t
    using called [OF that, of CallMetadata] by simp
qed

lemma Execute_returns:
  assumes "m_sent s = []" "Execute env op fuel sql cr s = (Inr (md, chunks), s')"
  shows "reconciled s' \<and> budgeted op s' \<and> collected md chunks s'"
proof -
  from assms(2) obtain s1 s2 s3 where p: "PrepareInternal env op fuel sql cr False s = (Inr (), s1)"
    and md: "md = s_metadata (m_session s1)"
    and s2: "s2 = m_owner_update (\<lambda>_. CursorOwner) s1"
    and d: "drain env fuel [] s2 = (Inr chunks, s3)"
    and s': "s' = snd (destroy_owner env s3)"
    by (auto simp: Execute_def Prepare_def run_returns with_cleanup_returns PreparedMetadata_def OpenCursor_def)
  have "active s2" using PrepareInternal_active [OF p assms(1)] s2 by simp
  moreover have "budgeted op s2" using PrepareInternal_success [OF p assms(1)] s2 by (simp add: budgeted_owner)
  moreover have "collected md [] s2"
    using PrepareInternal_nothing_yet [OF p] s2 md by (simp add: collected_def)
  ultimately have r: "reconciled s3 \<and> budgeted op s3 \<and> collected md chunks s3"
    using drain_returns [OF d] by blast
  then have "snd (Cancel env s3) = s3" by (intro Cancel_stopped) simp
  then have "s' = s3 \<or> s' = m_owner_update (\<lambda>_. NoOwner) s3"
    using s' by (auto simp: destroy_owner_def sem_defs split: prod.splits sum.splits)
  with r show ?thesis by (auto simp: reconciled_def budgeted_def collected_def)
qed

end
