(* ===== verification/Query_Polling.thy ===== *)
theory Query_Polling
  imports Query_Execute
begin

text \<open>
  The waiting of the client ends. The runtime hooks are an interface with a clock: reading it gives
  the time in milliseconds, truncated to 64 bits, no call turns it back, and sleeping lasts at least
  as long as asked. Under these laws the polling loop stops after at most one round per polling
  interval of the overall time-out, and \<open>Execute\<close> returns or throws. The steady runtime of
  \<open>native_runtime.cpp\<close> provides the interface.
\<close>

section \<open>The clock of the runtime hooks\<close>

lemma keeps_decode_exn [keeps_intros]:
  "keeps I m \<Longrightarrow> keeps I n \<Longrightarrow> keeps I (case d of DecodeReauth \<Rightarrow> m | DecodeOther \<Rightarrow> n)"
  by (cases d) auto

text \<open>The settings and the start of a session, which no exchange changes.\<close>

definition times_are :: "QueryOptions \<Rightarrow> u64 \<Rightarrow> 'w Machine \<Rightarrow> bool" where
  "times_are op st s \<longleftrightarrow> s_options (m_session s) = op \<and> s_started_at_ms (m_session s) = st"

lemma times_world_free: "world_free (times_are op st)"
  by (simp add: world_free_def times_are_def)

lemmas times_hooks [keeps_intros] = world_only [OF times_world_free] world_only_checks [OF times_world_free]

lemma keeps_times_transport [keeps_intros]: "keeps (times_are op st) (transport_send env r)"
  by (auto intro!: keepsI simp: transport_send_def times_are_def split: prod.splits)

lemma keeps_times_exchange [keeps_intros]: "keeps (times_are op st) (exchange env)"
  unfolding exchange_def send_and_decode_def Send_def RememberQueryId_def Let_def
  by (intro keeps_intros) (simp_all add: times_are_def limit_request_def)

lemma keeps_times_poll_once [keeps_intros]: "keeps (times_are op st) (poll_once env)"
  unfolding poll_once_def by (intro keeps_intros) (simp add: times_are_def get_request_def)

locale runtime_clock =
  fixes env :: "'w QueryEnv" and clock :: "'w \<Rightarrow> nat"
  assumes now_reads: "fst (env_NowMs env w) = of_nat (clock w)"
    and now_forward: "clock w \<le> clock (snd (env_NowMs env w))"
    and cancelled_forward: "clock w \<le> clock (snd (env_IsCancelled env w))"
    and send_forward: "clock w \<le> clock (snd (env_Send env r w))"
    and decode_forward: "clock w \<le> clock (snd (env_Decode env q w))"
    and sleep_lasts: "clock w + unat d \<le> clock (env_SleepMs env d w)"
begin

definition late :: "nat \<Rightarrow> 'w Machine \<Rightarrow> bool" where
  "late c s \<longleftrightarrow> c \<le> clock (m_world s)"

lemma late_session [simp]: "late c (m_session_update g s) = late c s" "late c (m_owner_update h s) = late c s"
  by (simp_all add: late_def)

lemma late_hooks [keeps_intros]:
  "keeps (late c) (is_cancelled env)" "keeps (late c) (now_ms env)" "keeps (late c) (sleep_ms env d)"
  "keeps (late c) (codec_decode env q)" "keeps (late c) (transport_send env r)"
proof -
  have on: "late c s'" if "late c s" "clock (m_world s) \<le> clock (m_world s')" for s s' :: "'w Machine"
    using that by (simp add: late_def)
  show "keeps (late c) (is_cancelled env)"
    using cancelled_forward by (auto intro!: keepsI elim!: on simp: is_cancelled_def split: prod.splits) (metis snd_conv)
  show "keeps (late c) (now_ms env)"
    using now_forward by (auto intro!: keepsI elim!: on simp: now_ms_def split: prod.splits) (metis snd_conv)
  show "keeps (late c) (sleep_ms env d)"
    using add_leD1 [OF sleep_lasts] by (auto intro!: keepsI elim!: on simp: sleep_ms_def)
  show "keeps (late c) (codec_decode env q)"
    using decode_forward by (auto intro!: keepsI elim!: on simp: codec_decode_def split: prod.splits) (metis snd_conv)
  show "keeps (late c) (transport_send env r)"
    using send_forward by (auto intro!: keepsI elim!: on simp: transport_send_def split: prod.splits) (metis snd_conv)
qed

lemma late_basic [keeps_intros]:
  "keeps (late c) (CheckActive env)" "keeps (late c) (transport_failure env)" "keeps (late c) (Cancel env)"
  "keeps (late c) (RememberQueryId r)" "keeps (late c) Finish" "keeps (late c) (Decode env q)"
proof -
  show "keeps (late c) (CheckActive env)" unfolding CheckActive_def by (intro keeps_intros)
  show "keeps (late c) (transport_failure env)" unfolding transport_failure_def by (intro keeps_intros)
  show "keeps (late c) (Cancel env)" unfolding Cancel_def by (intro keeps_intros) simp
  show "keeps (late c) (RememberQueryId r)" unfolding RememberQueryId_def Let_def by (intro keeps_intros) simp_all
  show "keeps (late c) Finish" unfolding Finish_def by (intro keeps_intros) simp
  show "keeps (late c) (Decode env q)" unfolding Decode_def by (intro keeps_intros)
qed

lemma late_Send [keeps_intros]: "keeps (late c) (Send env)" "keeps (late c) (send_and_decode env)"
proof -
  show "keeps (late c) (Send env)" unfolding Send_def by (intro keeps_intros) simp_all
  then show "keeps (late c) (send_and_decode env)" unfolding send_and_decode_def by (intro keeps_intros)
qed

lemma late_rows [keeps_intros]: "keeps (late c) (accept_rows rows)"
  by (induction rows) (auto intro!: keeps_intros)

lemma late_exchange [keeps_intros]: "keeps (late c) (exchange env)" "keeps (late c) (poll_once env)"
proof -
  show "keeps (late c) (exchange env)" unfolding exchange_def by (intro keeps_intros)
  then show "keeps (late c) (poll_once env)" unfolding poll_once_def by (intro keeps_intros) simp
qed

lemma late_NextChunk [keeps_intros]: "keeps (late c) (NextChunk env)"
  unfolding NextChunk_def next_response_def numbered_response_def buffered_response_def link_response_def
    finish_response_def accept_response_def cancel_on_error_def Accept_def Let_def
  by (intro keeps_intros) simp_all

lemma late_open [keeps_intros]: "keeps (late c) (open_numbered env q)" "keeps (late c) (open_direct q)"
proof -
  show "keeps (late c) (open_numbered env q)" unfolding open_numbered_def by (intro keeps_intros) simp_all
  show "keeps (late c) (open_direct q)" unfolding open_direct_def by (intro keeps_intros) simp
qed

lemma late_loops [keeps_intros]: "keeps (late c) (poll_loop env fuel q)" "keeps (late c) (drain env fuel acc)"
proof -
  show "keeps (late c) (poll_loop env fuel q)"
  proof (induction fuel arbitrary: q)
    case 0
    then show ?case by (subst poll_loop.simps) (simp add: keeps_intros)
  next
    case (Suc fuel)
    then show ?case by (subst poll_loop.simps) (auto intro!: keeps_intros)
  qed
  show "keeps (late c) (drain env fuel acc)"
  proof (induction fuel arbitrary: acc)
    case 0
    then show ?case by (subst drain.simps) (simp add: keeps_intros)
  next
    case (Suc fuel)
    then show ?case by (subst drain.simps) (auto intro!: keeps_intros)
  qed
qed

lemma late_prepare [keeps_intros]: "keeps (late c) (prepare_session env fuel)"
  unfolding prepare_session_def by (intro keeps_intros) simp_all

lemma late_body: "keeps (late c) (with_cleanup env (execute_body env fuel))"
  unfolding with_cleanup_def destroy_owner_def PreparedMetadata_def OpenCursor_def by (intro keeps_intros) simp_all

text \<open>Time passes: the clock after an operation is not before the clock at its start.\<close>

lemma forward: "keeps (late (clock (m_world s))) m \<Longrightarrow> m s = (r, s') \<Longrightarrow> clock (m_world s) \<le> clock (m_world s')"
  using keepsD [of "late (clock (m_world s))" m s r s'] by (simp add: late_def)

section \<open>Polling ends\<close>

text \<open>A deadline check that passes was made before the deadline, as long as the clock has not wrapped.\<close>

lemma CheckActive_in_time:
  assumes "CheckActive env s = (Inr u, s')" "clock (m_world s') < 2 ^ 64"
    and "unat (s_started_at_ms (m_session s)) \<le> clock (m_world s)"
  shows "clock (m_world s) < unat (s_started_at_ms (m_session s)) + unat (op_overall_timeout_ms (s_options (m_session s)))"
proof -
  define w where "w = snd (env_IsCancelled env (m_world s))"
  have s': "m_world s' = snd (env_NowMs env w)"
    and t: "\<not> timed_out (of_nat (clock w)) (m_session s)"
    using assms(1) now_reads [of w]
    by (auto simp: CheckActive_def run_returns is_cancelled_def now_ms_def w_def split: prod.splits if_splits)
  have le: "clock (m_world s) \<le> clock w" "clock w < 2 ^ 64"
    using cancelled_forward [of "m_world s"] now_forward [of w] assms(2) by (simp_all add: w_def s')
  let ?now = "of_nat (clock w) :: u64" and ?st = "s_started_at_ms (m_session s)"
  have now: "unat ?now = clock w" using le(2) by (simp add: unat_of_nat)
  have "?st \<le> ?now" using assms(3) le(1) by (simp add: unat_mono_iff now)
  then have "unat (?now - ?st) = clock w - unat ?st" by (simp add: unat_sub now)
  then have "clock w - unat ?st < unat (op_overall_timeout_ms (s_options (m_session s)))"
    using t by (simp add: unat_mono_iff not_le)
  with le(1) show ?thesis by simp
qed

lemma poll_once_advances:
  assumes run: "poll_once env s = (Inr q, s')" and fits: "clock (m_world s') < 2 ^ 64"
    and times: "times_are op st s" and begun: "unat st \<le> clock (m_world s)"
  shows "clock (m_world s) + unat (op_poll_interval_ms op) < unat st + unat (op_overall_timeout_ms op)"
    and "clock (m_world s) + unat (op_poll_interval_ms op) \<le> clock (m_world s')"
proof -
  define s1 where "s1 = s\<lparr>m_world := env_SleepMs env (op_poll_interval_ms op) (m_world s)\<rparr>"
  from run times obtain s2 s3 where check: "CheckActive env s1 = (Inr (), s2)"
    and s3: "s3 = m_session_update (\<lambda>ses. get_request (status_url ses) ses) s2"
    and ex: "exchange env s3 = (Inr q, s')"
    by (auto simp: poll_once_def run_returns sleep_ms_def s1_def times_are_def)
  have slept: "clock (m_world s) + unat (op_poll_interval_ms op) \<le> clock (m_world s1)"
    using sleep_lasts by (simp add: s1_def)
  have "clock (m_world s1) \<le> clock (m_world s2)" by (rule forward [OF late_basic(1) check])
  moreover have "clock (m_world s2) \<le> clock (m_world s')"
    using forward [OF late_exchange(1) ex] by (simp add: s3)
  ultimately have order: "clock (m_world s1) \<le> clock (m_world s')" and fits2: "clock (m_world s2) < 2 ^ 64"
    using fits by simp_all
  from slept order show "clock (m_world s) + unat (op_poll_interval_ms op) \<le> clock (m_world s')" by simp
  have "m_session s1 = m_session s" by (simp add: s1_def)
  then have "clock (m_world s1) < unat st + unat (op_overall_timeout_ms op)"
    using CheckActive_in_time [OF check fits2] slept begun times by (simp add: times_are_def)
  with slept show "clock (m_world s) + unat (op_poll_interval_ms op) < unat st + unat (op_overall_timeout_ms op)"
    by simp
qed

lemma poll_loop_ends:
  assumes "times_are op st s" "unat st \<le> clock (m_world s)" "0 < fuel"
    and "unat st + unat (op_overall_timeout_ms op) \<le> clock (m_world s) + fuel * unat (op_poll_interval_ms op)"
    and "clock (m_world (snd (poll_loop env fuel q s))) < 2 ^ 64"
  shows "fst (poll_loop env fuel q s) \<noteq> Inl OutOfFuel"
  using assms
proof (induction fuel arbitrary: q s)
  case (Suc fuel)
  show ?case
  proof (cases "qr_state q = RUNNING")
    case False
    then show ?thesis by (subst poll_loop.simps) (simp add: sret_def)
  next
    case True
    have eq: "poll_loop env (Suc fuel) q s = sbind (poll_once env) (poll_loop env fuel) s"
      using True by (subst poll_loop.simps) simp
    obtain x s1 where once: "poll_once env s = (x, s1)" by force
    show ?thesis
    proof (cases x)
      case (Inl e)
      then have "e \<noteq> OutOfFuel" using raisesD [OF raises_poll_once(1)] once no_fuel_error by blast
      with Inl once show ?thesis by (simp add: eq sbind_def)
    next
      case (Inr q1)
      have loop: "poll_loop env (Suc fuel) q s = poll_loop env fuel q1 s1"
        using once Inr by (simp add: eq sbind_def)
      have fits: "clock (m_world s1) < 2 ^ 64"
        using forward [OF late_loops(1) surjective_pairing, of s1 fuel q1] Suc.prems(5) loop by simp
      note adv = poll_once_advances [OF once [unfolded Inr] fits Suc.prems(1,2)]
      have "0 < fuel" using adv(1) Suc.prems(4) by (cases fuel) auto
      moreover have "times_are op st s1" using keepsD [OF keeps_times_poll_once Suc.prems(1) once] .
      ultimately show ?thesis
        unfolding loop using adv Suc.prems loop by (intro Suc.IH) auto
    qed
  qed
qed simp

text \<open>What follows the polling loop in \<open>PrepareInternal\<close>.\<close>

definition after_polling :: "QueryResponse \<Rightarrow> ('w Machine, exn, unit) sem" where
  "after_polling decoded =
     sthen (fail_if (\<lambda>_. qr_state decoded \<noteq> COMPLETE)
             (runtime_error ''Data 360 Query API did not complete''))
     (sthen (if qr_has_chunk_count decoded \<or> 0 < qr_chunk_count decoded
             then open_numbered env decoded else open_direct decoded)
     (sthen (fail_if (\<lambda>ses. op_max_columns (s_options ses) < size_u64 (s_metadata ses))
             (runtime_error ''Data 360 Query API returned too many columns''))
       (smodify (m_owner_update (\<lambda>_. PreparedOwner)))))"

lemma prepare_session_eq:
  "prepare_session env fuel = sbind (exchange env) (\<lambda>first. sbind (poll_loop env fuel first) after_polling)"
  unfolding prepare_session_def after_polling_def ..

lemma after_polling_errors: "raises Errs (after_polling q)"
  unfolding after_polling_def by (intro raises_intros) (simp_all add: error_lists)

lemma late_after_polling: "keeps (late c) (after_polling q)"
  unfolding after_polling_def by (intro keeps_intros) simp

lemma prepare_session_ends:
  assumes "times_are op st s" "unat st \<le> clock (m_world s)" "0 < fuel"
    and "unat (op_overall_timeout_ms op) \<le> fuel * unat (op_poll_interval_ms op)"
    and "clock (m_world (snd (prepare_session env fuel s))) < 2 ^ 64"
  shows "fst (prepare_session env fuel s) \<noteq> Inl OutOfFuel"
proof -
  obtain x s1 where ex: "exchange env s = (x, s1)" by force
  show ?thesis
  proof (cases x)
    case (Inl e)
    then have "e \<noteq> OutOfFuel" using raisesD [OF raises_poll_once(2)] ex no_fuel_error by blast
    with Inl ex show ?thesis by (simp add: prepare_session_eq sbind_def)
  next
    case (Inr q)
    obtain y s2 where poll: "poll_loop env fuel q s1 = (y, s2)" by force
    have rest: "prepare_session env fuel s = (case y of Inl e \<Rightarrow> (Inl e, s2) | Inr d \<Rightarrow> after_polling d s2)"
      using ex poll Inr by (simp add: prepare_session_eq sbind_def)
    have "clock (m_world s2) \<le> clock (m_world (snd (prepare_session env fuel s)))"
      using forward [OF late_after_polling surjective_pairing, of s2]
      by (simp add: rest split: sum.split)
    then have "fst (poll_loop env fuel q s1) \<noteq> Inl OutOfFuel"
      using keepsD [OF keeps_times_exchange assms(1) ex] forward [OF late_exchange(1) ex] assms(2-5) poll
      by (intro poll_loop_ends) auto
    moreover have "fst (after_polling d s2) \<noteq> Inl OutOfFuel" for d
      using raisesD [OF after_polling_errors, of d s2 OutOfFuel] no_fuel_error by (metis prod.collapse)
    ultimately show ?thesis using poll by (cases y) (auto simp: rest)
  qed
qed

lemma PrepareInternal_ends:
  assumes "0 < fuel" "unat (op_overall_timeout_ms op) \<le> fuel * unat (op_poll_interval_ms op)"
    and "clock (m_world (snd (PrepareInternal env op fuel sql cr b s))) < 2 ^ 64"
  shows "fst (PrepareInternal env op fuel sql cr b s) \<noteq> Inl OutOfFuel"
proof -
  obtain c w1 where c: "env_IsCancelled env (m_world s) = (c, w1)" by force
  obtain now w2 where now: "env_NowMs env w1 = (now, w2)" by force
  let ?s = "started op cr sql b now (s\<lparr>m_world := w2\<rparr>)"
  show ?thesis
  proof (cases "c \<or> sql = [] \<or> qc_instance_url cr = [] \<or> qc_access_token cr = [] \<or>
      \<not> IsTrustedTenantUrl (qc_instance_url cr)")
    case True
    with c show ?thesis by (auto simp: PrepareInternal_def is_cancelled_def sbind_def sthrow_def)
  next
    case False
    with c now have eq: "PrepareInternal env op fuel sql cr b s = prepare_guarded env fuel ?s"
      by (simp add: PrepareInternal_def is_cancelled_def now_ms_def sbind_def sthen_def smodify_def)
    have "keeps (late c) (sthen (Cancel env) (sthen (Cancel env) (sthrow e)))" for c e
      by (intro keeps_intros)
    then have le: "clock (m_world (snd (prepare_session env fuel ?s))) \<le> clock (m_world (snd (prepare_guarded env fuel ?s)))"
      by (auto simp: scatch_def split: prod.split sum.split intro: forward [OF _ surjective_pairing])
    have fits: "clock (m_world (snd (prepare_session env fuel ?s))) < 2 ^ 64"
      using le assms(3) by (simp add: eq)
    have w2: "clock w1 \<le> clock w2" using now_forward [of w1] now by simp
    have "clock w2 \<le> clock (m_world (snd (prepare_session env fuel ?s)))"
      using forward [OF late_prepare surjective_pairing, of ?s fuel] by simp
    with fits w2 have "clock w1 < 2 ^ 64" by simp
    then have "unat now = clock w1" using now_reads [of w1] now by (simp add: unat_of_nat)
    then have "fst (prepare_session env fuel ?s) \<noteq> Inl OutOfFuel"
      using w2 assms(1,2) fits
      by (intro prepare_session_ends [where op = op and st = now]) (auto simp: times_are_def new_session_def)
    then show ?thesis
      by (auto simp: eq scatch_def sthen_def sbind_def sthrow_def split: prod.split sum.split)
  qed
qed

text \<open>\<open>Execute\<close> ends: enough fuel for the polling rounds and for the chunks is never used up.\<close>

lemma Execute_ends:
  assumes "m_sent s = []" "0 < fuel" "unat (op_overall_timeout_ms op) \<le> fuel * unat (op_poll_interval_ms op)"
    and "unat (op_max_chunks op) < fuel"
    and "clock (m_world (snd (Execute env op fuel sql cr s))) < 2 ^ 64"
  shows "fst (Execute env op fuel sql cr s) \<noteq> Inl OutOfFuel"
proof -
  obtain x s1 where p: "PrepareInternal env op fuel sql cr False s = (x, s1)" by force
  have "clock (m_world s1) \<le> clock (m_world (snd (Execute env op fuel sql cr s)))"
    using p forward [OF late_body surjective_pairing, of s1 fuel]
    by (auto simp: Execute_def Prepare_def sthen_def sbind_def split: sum.split)
  then have x: "x \<noteq> Inl OutOfFuel"
    using PrepareInternal_ends [of fuel op sql cr False s] assms p by auto
  show ?thesis
  proof (cases x)
    case (Inl e)
    with p x show ?thesis by (simp add: Execute_def Prepare_def sthen_def sbind_def)
  next
    case (Inr u)
    have r: "budgeted op s1" "collected (s_metadata (m_session s1)) [] s1" "m_owner s1 = PreparedOwner"
      using PrepareInternal_success [of env op fuel sql cr False s s1] PrepareInternal_active [of env op fuel sql cr False s s1]
        PrepareInternal_nothing_yet [of env op fuel sql cr False s s1] assms(1) p Inr by simp_all
    define s2 where "s2 = m_owner_update (\<lambda>_. CursorOwner) s1"
    have "fst (drain env fuel [] s2) \<noteq> Inl OutOfFuel"
      using r assms(4) by (intro drain_enough_fuel [where md = "s_metadata (m_session s1)" and op = op])
        (simp_all add: s2_def budgeted_owner collected_def)
    then have "fst (execute_body env fuel s1) \<noteq> Inl OutOfFuel"
      using r(3) by (auto simp: PreparedMetadata_def OpenCursor_def s2_def sem_defs split: prod.splits sum.split)
    then show ?thesis
      using p Inr by (auto simp: Execute_def Prepare_def with_cleanup_def sthen_def sbind_def scatch_def
          sthrow_def sret_def split: prod.splits sum.splits)
  qed
qed

end

section \<open>The steady runtime\<close>

text \<open>
  \<open>SteadyRuntime\<close> reads an optional cancellation flag and \<open>std::chrono::steady_clock\<close>, and sleeps
  with \<open>std::this_thread::sleep_for\<close>, which blocks for at least the given time. The world holds the
  steady clock in milliseconds, the flag another thread may set, and the rest, on which the
  transport and the codec act; \<open>latency\<close> is how much longer than asked a sleep may take.
\<close>

record 'r SteadyWorld =
  sw_steady_ms :: nat
  sw_cancelled :: "bool option"
  sw_rest :: 'r

definition steady_IsCancelled :: "'r SteadyWorld \<Rightarrow> bool \<times> 'r SteadyWorld" where
  "steady_IsCancelled w = (sw_cancelled w = Some True, w)"

definition steady_NowMs :: "'r SteadyWorld \<Rightarrow> u64 \<times> 'r SteadyWorld" where
  "steady_NowMs w = (of_nat (sw_steady_ms w), w)"

definition steady_SleepMs :: "('r \<Rightarrow> nat) \<Rightarrow> u64 \<Rightarrow> 'r SteadyWorld \<Rightarrow> 'r SteadyWorld" where
  "steady_SleepMs latency d w = w\<lparr>sw_steady_ms := sw_steady_ms w + unat d + latency (sw_rest w)\<rparr>"

text \<open>A transport or codec on the rest of the world takes some time to answer.\<close>

definition timed :: "('r \<Rightarrow> ('a \<times> nat) \<times> 'r) \<Rightarrow> 'r SteadyWorld \<Rightarrow> 'a \<times> 'r SteadyWorld" where
  "timed act w = (case act (sw_rest w) of ((a, ms), r) \<Rightarrow>
     (a, w\<lparr>sw_steady_ms := sw_steady_ms w + ms, sw_rest := r\<rparr>))"

definition steady_env ::
  "('r \<Rightarrow> nat) \<Rightarrow> (HttpRequest \<Rightarrow> 'r \<Rightarrow> (HttpResponse option \<times> nat) \<times> 'r) \<Rightarrow>
   (HttpResponse \<Rightarrow> 'r \<Rightarrow> ((decode_exn + QueryResponse) \<times> nat) \<times> 'r) \<Rightarrow> 'r SteadyWorld QueryEnv" where
  "steady_env latency send decode =
     \<lparr>env_IsCancelled = steady_IsCancelled, env_NowMs = steady_NowMs,
      env_SleepMs = steady_SleepMs latency, env_Send = (\<lambda>rq. timed (send rq)),
      env_Decode = (\<lambda>rs. timed (decode rs))\<rparr>"

interpretation steady: runtime_clock "steady_env latency send decode" sw_steady_ms
  by unfold_locales
    (auto simp: steady_env_def steady_IsCancelled_def steady_NowMs_def steady_SleepMs_def timed_def
      split: prod.splits)

end
