(* ===== verification/Query_Demo.thy ===== *)
theory Query_Demo
  imports Query_Polling
begin

text \<open>
  A concrete environment on which the witnesses of the properties are evaluated: the steady runtime,
  with a transport that plays back a script of responses and a codec that plays back their decoded
  forms, each taking one millisecond.
\<close>

type_synonym script = "HttpResponse option list \<times> (decode_exn + QueryResponse) list"

definition play_send :: "HttpRequest \<Rightarrow> script \<Rightarrow> (HttpResponse option \<times> nat) \<times> script" where
  "play_send rq w = (case w of ([], ds) \<Rightarrow> ((None, 1), w) | (r # rs, ds) \<Rightarrow> ((r, 1), (rs, ds)))"

definition play_decode :: "HttpResponse \<Rightarrow> script \<Rightarrow> ((decode_exn + QueryResponse) \<times> nat) \<times> script" where
  "play_decode rs w = (case w of (q, []) \<Rightarrow> ((Inl DecodeOther, 1), w) | (q, d # ds) \<Rightarrow> ((d, 1), (q, ds)))"

definition demo_env :: "script SteadyWorld QueryEnv" where
  "demo_env = steady_env (\<lambda>_. 0) play_send play_decode"

definition demo_credentials :: QueryCredentials where
  "demo_credentials = \<lparr>qc_instance_url = ''https://a.c360a.salesforce.com/'', qc_access_token = ''t''\<rparr>"

definition demo_options :: QueryOptions where
  "demo_options =
     \<lparr>op_request_timeout_ms = 10, op_overall_timeout_ms = 30, op_poll_interval_ms = 2,
      op_max_chunks = 2, op_cleanup_timeout_ms = 5, op_max_rows = 3,
      op_max_columns = 2, op_max_cells = 5, op_max_total_response_bytes = 50\<rparr>"

definition ok_response :: HttpResponse where
  "ok_response = \<lparr>rs_status = 200, rs_body = ''{}'', rs_headers = []\<rparr>"

definition demo_column :: ColumnMetadata where
  "demo_column = \<lparr>cm_name = ''x'', cm_type = ''Varchar'', cm_nullable = True, cm_has_precision = False,
     cm_has_scale = False, cm_precision = 0, cm_scale = 0\<rparr>"

text \<open>A query with one numbered chunk of two rows: submission, one poll, metadata, the chunk.\<close>

definition demo_script :: script where
  "demo_script =
     (replicate 4 (Some ok_response),
      [Inr (default_QueryResponse\<lparr>qr_state := RUNNING, qr_query_id := ''q1''\<rparr>),
       Inr (default_QueryResponse\<lparr>qr_state := COMPLETE, qr_query_id := ''q1'', qr_has_chunk_count := True,
              qr_chunk_count := 1, qr_has_row_count := True, qr_row_count := 2\<rparr>),
       Inr (default_QueryResponse\<lparr>qr_state := COMPLETE, qr_metadata := [demo_column]\<rparr>),
       Inr (default_QueryResponse\<lparr>qr_state := COMPLETE,
              qr_chunk := empty_ResultChunk\<lparr>ch_rows := [[Some ''a''], [None]]\<rparr>\<rparr>)])"

definition demo_start :: "script SteadyWorld Machine" where
  "demo_start =
     \<lparr>m_world = \<lparr>sw_steady_ms = 5, sw_cancelled = None, sw_rest = demo_script\<rparr>, m_sent = [],
      m_owner = NoOwner, m_session = new_session demo_options demo_credentials 0 default_HttpRequest\<rparr>"

definition demo_prepared :: "script SteadyWorld Machine" where
  "demo_prepared = snd (PrepareInternal demo_env demo_options 3 ''SELECT 1'' demo_credentials False demo_start)"

lemma demo_prepare_returns:
  "fst (PrepareInternal demo_env demo_options 3 ''SELECT 1'' demo_credentials False demo_start) = Inr ()"
  by code_simp

end
