(* ===== verification/Query_Properties.thy ===== *)
theory Query_Properties
  imports Query_Demo
begin

text \<open>
  The properties of the query client, each with a witness on the scripted environment where it has
  hypotheses.
\<close>

section \<open>Witness states\<close>

lemma demo_initial: "initial demo_options demo_credentials demo_start"
  by (simp add: initial_def demo_start_def)

lemma demo_run: "client_run demo_env demo_options demo_credentials True demo_prepared"
proof (rule prepared)
  show "m_sent demo_start = []" by (simp add: demo_start_def)
  show "PrepareInternal demo_env demo_options 3 ''SELECT 1'' demo_credentials False demo_start = (Inr (), demo_prepared)"
    using demo_prepare_returns by (simp add: demo_prepared_def prod_eq_iff)
qed

lemma demo_sent_nonempty: "m_sent demo_prepared \<noteq> []"
  by code_simp

abbreviation demo_open :: "script SteadyWorld Machine" where
  "demo_open \<equiv> cursor_call demo_env CallOpenCursor demo_prepared"

abbreviation demo_chunk :: "script SteadyWorld Machine" where
  "demo_chunk \<equiv> cursor_call demo_env CallNextChunk demo_open"

abbreviation demo_end :: "script SteadyWorld Machine" where
  "demo_end \<equiv> cursor_call demo_env CallNextChunk demo_chunk"

abbreviation demo_dropped :: "script SteadyWorld Machine" where
  "demo_dropped \<equiv> cursor_call demo_env CallDestroy demo_open"

lemma demo_runs:
  "client_run demo_env demo_options demo_credentials True demo_chunk"
  "client_run demo_env demo_options demo_credentials True demo_dropped"
  by (intro called demo_run)+

abbreviation demo_result :: "(exn + ColumnMetadata list \<times> ResultChunk list) \<times> script SteadyWorld Machine" where
  "demo_result \<equiv> Execute demo_env demo_options 15 ''SELECT 1'' demo_credentials demo_start"

abbreviation demo_rows :: "ResultChunk list" where
  "demo_rows \<equiv> [\<lparr>ch_rows = [[Some ''a''], [None]], ch_next_url = []\<rparr>]"

lemma demo_execute: "fst demo_result = Inr ([demo_column], demo_rows)"
  by code_simp

lemma demo_chunk_ends: "fst (NextChunk demo_env demo_chunk) = Inr None"
  by code_simp

lemma demo_dropped_id: "m_owner demo_dropped = NoOwner \<and> s_query_id (m_session demo_dropped) = ''q1''"
  by code_simp

section \<open>Where requests go\<close>

lemma api_base_trusted:
  assumes "IsTrustedTenantUrl (qc_instance_url cr)"
  obtains host where "dns_host_under ''.c360a.salesforce.com'' host" "api_base cr = ''https://'' @ host"
proof -
  from assms obtain host where
    form: "qc_instance_url cr = ''https://'' @ host \<or> qc_instance_url cr = ''https://'' @ host @ ''/''"
    and ok: "dns_host_under ''.c360a.salesforce.com'' host"
    unfolding trusted_tenant_url_iff by blast
  have last: "host \<noteq> [] \<and> last host \<noteq> CHR ''/''"
    using dns_host_under_last [OF ok] dns_host_no_slash [OF ok] last_in_set by metis
  then have trim: "TrimTrailingSlash (''https://'' @ host) = ''https://'' @ host"
    by (subst TrimTrailingSlash.simps) simp
  have "TrimTrailingSlash (v @ ''/'') = TrimTrailingSlash v" for v
    by (subst TrimTrailingSlash.simps) simp
  from this [of "''https://'' @ host"]
  have "TrimTrailingSlash ((''https://'' @ host) @ ''/'') = TrimTrailingSlash (''https://'' @ host)" .
  with form trim have "api_base cr = ''https://'' @ host"
    unfolding api_base_def by (metis append_assoc)
  with ok that show thesis by blast
qed

text \<open>
  C1. Whatever the service answers and whatever the caller does, every request that carries the
  access token goes over HTTPS to a host that is a well-formed DNS name strictly below
  \<open>.c360a.salesforce.com\<close>, to one of the five endpoints of the Query API with a checked query
  identifier and chunk number, with redirects off.
\<close>

theorem requests_confined:
  assumes "client_run env op cr live s" and "rq \<in> set (m_sent s)"
  shows "\<exists>host path. dns_host_under ''.c360a.salesforce.com'' host \<and> rq_url rq = ''https://'' @ host @ path \<and>
           endpoint_path (rq_method rq) path \<and> \<not> rq_follow_redirects rq \<and>
           map_of (rq_headers rq) ''Authorization'' = Some (''Bearer '' @ qc_access_token cr)"
proof -
  note r = run_sent [OF assms]
  from r obtain path where p: "rq_url rq = api_base cr @ path" "endpoint_path (rq_method rq) path"
    by (auto simp: endpoint_def)
  from r obtain host where "dns_host_under ''.c360a.salesforce.com'' host" "api_base cr = ''https://'' @ host"
    by (auto elim: api_base_trusted)
  with p have "dns_host_under ''.c360a.salesforce.com'' host \<and> rq_url rq = ''https://'' @ host @ path" by simp
  with p r show ?thesis by (auto simp: endpoint_def)
qed

theorem requests_confined_witness:
  "\<exists>host path. dns_host_under ''.c360a.salesforce.com'' host \<and>
     rq_url (hd (m_sent demo_prepared)) = ''https://'' @ host @ path \<and>
     endpoint_path (rq_method (hd (m_sent demo_prepared))) path"
  using requests_confined [OF demo_run hd_in_set [OF demo_sent_nonempty]] by blast

text \<open>
  C2. In every state of every run the rows, cells, chunks and response bytes are within the limits
  of the options, rows never exceed the announced number, and in numbered mode the chunks handed out
  never overtake the announced number of chunks.
\<close>

theorem budgets_in_every_run:
  assumes "client_run env op cr True s"
  shows "s_rows (m_session s) \<le> op_max_rows op \<and> s_cells (m_session s) \<le> op_max_cells op \<and>
         s_fetched_chunks (m_session s) \<le> op_max_chunks op \<and>
         s_total_response_bytes (m_session s) \<le> op_max_total_response_bytes op \<and>
         (s_has_expected_rows (m_session s) \<longrightarrow> s_rows (m_session s) \<le> s_expected_rows (m_session s)) \<and>
         (s_mode (m_session s) = NUMBERED_V3 \<longrightarrow>
            s_fetched_chunks (m_session s) \<le> s_next_chunk_index (m_session s) \<and>
            s_next_chunk_index (m_session s) \<le> s_expected_chunks (m_session s))"
  using run_live [OF assms]
  by (simp add: budgeted_def within_budgets_def confined_def base_ok_def)

theorem budgets_in_every_run_witness:
  "s_rows (m_session demo_chunk) \<le> op_max_rows demo_options \<and>
   s_cells (m_session demo_chunk) \<le> op_max_cells demo_options"
  using budgets_in_every_run [OF demo_runs(1)] by blast

text \<open>
  C6. A run sends at most one \<open>DELETE\<close>, nothing is sent after it, and none is sent once the results
  have been reconciled.
\<close>

theorem cancellation_discipline:
  assumes "client_run env op cr live s"
  shows "(\<forall>rq \<in> set (tl (m_sent s)). rq_method rq \<noteq> ''DELETE'') \<and>
         (s_reconciled (m_session s) \<longrightarrow> (\<forall>rq \<in> set (m_sent s). rq_method rq \<noteq> ''DELETE''))"
proof -
  have sub: "rq \<in> set (tl xs) \<Longrightarrow> rq \<in> set xs" for rq and xs :: "HttpRequest list"
    by (cases xs) auto
  show ?thesis
    using run_lifecycle [OF assms]
    by (auto simp: lifecycle_def active_def reconciled_def cancelled_def is_delete_def dest: sub)
qed

theorem cancellation_discipline_witness:
  "list_all (\<lambda>rq. rq_method rq \<noteq> ''DELETE'') (tl (m_sent demo_dropped)) \<and>
   rq_method (hd (m_sent demo_dropped)) = ''DELETE''"
proof
  show "list_all (\<lambda>rq. rq_method rq \<noteq> ''DELETE'') (tl (m_sent demo_dropped))"
    using cancellation_discipline [OF demo_runs(2)] by (simp add: list_all_iff)
  show "rq_method (hd (m_sent demo_dropped)) = ''DELETE''" by code_simp
qed

text \<open>
  C3. No remote query is abandoned: when nobody holds the session any more, because the cursor or
  the prepared query was destroyed or preparation failed, and the service had named the query, then
  the results were reconciled or the last request sent is the \<open>DELETE\<close> of exactly that query.
\<close>

theorem no_query_abandoned:
  assumes "client_run env op cr live s" "m_owner s = NoOwner" "s_query_id (m_session s) \<noteq> []"
  shows "s_reconciled (m_session s) \<or>
         (\<exists>d t. m_sent s = d # t \<and> rq_method d = ''DELETE'' \<and> rq_url d = status_url (m_session s))"
  using run_released [OF assms(1)] assms(2,3)
  by (auto simp: released_def reconciled_def cancelled_def is_delete_def)

theorem no_query_abandoned_witness:
  "s_reconciled (m_session demo_dropped) \<or>
   (\<exists>d t. m_sent demo_dropped = d # t \<and> rq_method d = ''DELETE'' \<and> rq_url d = status_url (m_session demo_dropped))"
  using no_query_abandoned [OF demo_runs(2)] demo_dropped_id by simp

section \<open>What is returned\<close>

text \<open>
  C4. When \<open>Execute\<close> returns, every row has one cell per column of the metadata, the rows and
  chunks are within the limits, and their numbers are exactly those the service announced; the
  remote query has not been deleted.
\<close>

theorem execute_result:
  assumes "m_sent s = []" "Execute env op fuel sql cr s = (Inr (md, chunks), s')"
  shows "(\<forall>c \<in> set chunks. \<forall>row \<in> set (ch_rows c). length row = length md) \<and>
         total_rows chunks = unat (s_rows (m_session s')) \<and> total_rows chunks \<le> unat (op_max_rows op) \<and>
         length chunks \<le> unat (op_max_chunks op) \<and>
         (s_has_expected_rows (m_session s') \<longrightarrow> total_rows chunks = unat (s_expected_rows (m_session s'))) \<and>
         (s_mode (m_session s') = NUMBERED_V3 \<longrightarrow> length chunks = unat (s_expected_chunks (m_session s'))) \<and>
         (\<forall>rq \<in> set (m_sent s'). rq_method rq \<noteq> ''DELETE'')"
  using Execute_returns [OF assms]
  by (auto simp: reconciled_def announced_counts_def budgeted_def within_budgets_def collected_def
      is_delete_def unat_mono_iff)

theorem execute_result_witness:
  "length demo_rows \<le> unat (op_max_chunks demo_options) \<and> total_rows demo_rows \<le> unat (op_max_rows demo_options)"
proof -
  have start: "m_sent demo_start = []" by (simp add: demo_start_def)
  have "demo_result = (Inr ([demo_column], demo_rows), snd demo_result)"
    by (subst demo_execute [symmetric]) simp
  from execute_result [OF start this] show ?thesis by blast
qed

text \<open>
  A cursor in use that reports the end of the results has reconciled them: as many chunks as
  announced in numbered mode, as many rows as announced where a number was announced, and no next
  link left in the legacy chain.
\<close>

theorem end_of_results_reconciled:
  assumes "client_run env op cr True s" "NextChunk env s = (Inr None, s')"
  shows "s_reconciled (m_session s') \<and>
         (s_mode (m_session s') = NUMBERED_V3 \<longrightarrow>
            s_fetched_chunks (m_session s') = s_expected_chunks (m_session s')) \<and>
         (s_has_expected_rows (m_session s') \<longrightarrow> s_rows (m_session s') = s_expected_rows (m_session s')) \<and>
         (s_mode (m_session s') = DIRECT_LEGACY \<longrightarrow> s_next_url (m_session s') = [])"
proof -
  have b: "budgeted op s'"
    using keepsD [OF keeps_budgeted_NextChunk _ assms(2)] run_live [OF assms(1)] by blast
  have "reconciled s'"
  proof (cases "active s")
    case True
    with NextChunk_ends [OF _ assms(2)] show ?thesis by simp
  next
    case False
    with run_lifecycle [OF assms(1)] assms(2) show ?thesis
      by (auto simp: lifecycle_def cancelled_def reconciled_def NextChunk_def run_returns split: if_splits)
  qed
  with b show ?thesis
    by (auto simp: reconciled_def announced_counts_def budgeted_def within_budgets_def)
qed

theorem end_of_results_reconciled_witness:
  "s_reconciled (m_session (snd (NextChunk demo_env demo_chunk)))"
proof -
  have "NextChunk demo_env demo_chunk = (Inr None, snd (NextChunk demo_env demo_chunk))"
    by (subst demo_chunk_ends [symmetric]) simp
  from end_of_results_reconciled [OF demo_runs(1) this] show ?thesis by blast
qed

section \<open>Termination and errors\<close>

text \<open>
  C5. With the steady runtime \<open>Execute\<close> always comes to an end before the 64-bit clock wraps,
  whatever the transport and the codec answer and however long they take: one polling round per
  polling interval of the overall time-out and one round per chunk are enough.
\<close>

theorem execute_terminates:
  assumes "m_sent s = []" "0 < fuel"
    and "unat (op_overall_timeout_ms op) \<le> fuel * unat (op_poll_interval_ms op)"
    and "unat (op_max_chunks op) < fuel"
    and "sw_steady_ms (m_world (snd (Execute (steady_env latency send decode) op fuel sql cr s))) < 2 ^ 64"
  shows "fst (Execute (steady_env latency send decode) op fuel sql cr s) \<noteq> Inl OutOfFuel"
  using assms by (rule steady.Execute_ends)

theorem execute_terminates_witness: "fst demo_result \<noteq> Inl OutOfFuel"
proof -
  have "sw_steady_ms (m_world (snd demo_result)) < 100" by code_simp
  then have "sw_steady_ms (m_world (snd demo_result)) < 2 ^ 64" by (rule less_trans) simp
  moreover have "m_sent demo_start = []" by (simp add: demo_start_def)
  moreover have "unat (op_overall_timeout_ms demo_options) \<le> 15 * unat (op_poll_interval_ms demo_options)"
    "unat (op_max_chunks demo_options) < 15" by (simp_all add: demo_options_def)
  ultimately show ?thesis
    unfolding demo_env_def by (intro execute_terminates) simp_all
qed

text \<open>
  C7. Every exception that leaves \<open>Execute\<close>, \<open>ExecuteMetadata\<close>, the cursor and the prepared query
  is one of a fixed list of constant texts, so no byte of a response, of the token or of the SQL text
  reaches an error message.
\<close>

theorem client_errors_constant:
  "(Execute env op fuel sql cr s = (Inl e, s') \<longrightarrow> e \<in> set client_errors \<or> e = OutOfFuel) \<and>
   (ExecuteMetadata env op fuel sql cr s = (Inl e, s') \<longrightarrow> e \<in> set client_errors \<or> e = OutOfFuel) \<and>
   (Prepare env op fuel sql cr s = (Inl e, s') \<longrightarrow> e \<in> set client_errors \<or> e = OutOfFuel) \<and>
   (NextChunk env s = (Inl e, s') \<longrightarrow> e \<in> set client_errors) \<and>
   (NextArrowChunk env s = (Inl e, s') \<longrightarrow> e \<in> set client_errors) \<and>
   (ReportArrowChunk env n s = (Inl e, s') \<longrightarrow> e \<in> set client_errors)"
  unfolding Prepare_def
  by (intro conjI impI; (drule raisesD [OF raises_Execute] raisesD [OF raises_ExecuteMetadata]
      raisesD [OF raises_PrepareInternal] raisesD [OF raises_NextChunk] raisesD [OF raises_NextArrowChunk]
      raisesD [OF raises_ReportArrowChunk]; blast))

theorem client_errors_constant_witness:
  "fst (NextChunk demo_env demo_start) = Inl cursor_unavailable \<and> cursor_unavailable \<in> set client_errors"
proof -
  have "NextChunk demo_env demo_start = (Inl cursor_unavailable, demo_start)"
    by (simp add: NextChunk_def sem_defs demo_start_def)
  with client_errors_constant [of demo_env demo_options 0 "[]" demo_credentials demo_start
      cursor_unavailable demo_start 0]
  show ?thesis by simp
qed

section \<open>The checks on text from outside\<close>

text \<open>
  C8. The tenant check accepts exactly the URLs \<open>https://host\<close> and \<open>https://host/\<close> in which the host
  is a sequence of lower-case DNS labels (1 to 63 letters, digits and inner hyphens) that ends in
  \<open>.c360a.salesforce.com\<close> and is longer than it.
\<close>

theorem tenant_check_exact:
  "IsTrustedTenantUrl url \<longleftrightarrow>
     (\<exists>host. (url = ''https://'' @ host \<or> url = ''https://'' @ host @ ''/'') \<and>
             dns_host_under ''.c360a.salesforce.com'' host)"
  by (rule trusted_tenant_url_iff)

text \<open>
  C9. The chunk path check accepts exactly the paths \<open>/api/v3/query/<id>/chunks/<n>\<close> with a safe
  identifier and a chunk number of 1 to 20 digits, and the identifier read back from such a path is
  the one it was built from.
\<close>

theorem chunk_path_check_exact:
  "(IsSafeChunkPath path \<longleftrightarrow>
      (\<exists>q n. path = query_prefix @ q @ chunks_separator @ n \<and> IsSafeQueryId q \<and>
             n \<noteq> [] \<and> length n \<le> 20 \<and> list_all isdigit n)) \<and>
   (IsSafeQueryId q \<longrightarrow> QueryIdFromChunkPath (query_prefix @ q @ chunks_separator @ n) = q)"
  using chunk_path_iff [of path] QueryIdFromChunkPath_path [of q n] by (auto simp: list_all_iff)

theorem chunk_path_check_exact_witness:
  "IsSafeQueryId ''a-1'' \<and> QueryIdFromChunkPath (query_prefix @ ''a-1'' @ chunks_separator @ ''7'') = ''a-1''"
proof -
  have "IsSafeQueryId ''a-1''" by code_simp
  with chunk_path_check_exact [of "[]" "''a-1''" "''7''"] show ?thesis by blast
qed

text \<open>
  C10. The SQL text cannot break out of the submitted JSON document: a JSON reader that starts behind
  the opening quote of the \<open>sql\<close> member reads exactly the given text, whatever bytes it contains, and
  what follows is the fixed rest of the document with the row limit.
\<close>

theorem sql_text_roundtrip:
  \<open>\<exists>doc. submit_body sql row_limit = ''{"sql":"'' @ doc \<and>
     json_read_string doc =
       Some (sql, '',"transferMode":"ASYNC","settings":{"timezone":"Etc/UTC","language":"en_US"},'' @
                  ''"queryRowLimit":'' @ to_string (unat row_limit) @ ''}'')\<close>
  unfolding submit_body_def
  by (intro exI conjI, rule refl)
    (simp add: json_escape_read [of sql, simplified append_Cons])

end
