(* ===== verification/Yyjson.thy ===== *)
theory Yyjson
  imports Prelude
begin

text \<open>
  The JSON reader of the program is the third-party library \<open>yyjson\<close>. It is a parameter of every
  definition that uses it: the fields of \<open>Yyjson\<close> are the calls the program makes, over an abstract
  type \<open>'v\<close> of values. \<open>None\<close> is a null pointer. \<open>yy_read raw body\<close> is \<open>yyjson_read\<close> followed by
  \<open>yyjson_doc_get_root\<close>, where \<open>raw\<close> says that \<open>YYJSON_READ_NUMBER_AS_RAW\<close> was given.
\<close>

record 'v Yyjson =
  yy_read :: "bool \<Rightarrow> byte_string \<Rightarrow> 'v option"
  yy_is_obj :: "'v \<Rightarrow> bool"
  yy_is_arr :: "'v \<Rightarrow> bool"
  yy_is_str :: "'v \<Rightarrow> bool"
  yy_is_bool :: "'v \<Rightarrow> bool"
  yy_is_null :: "'v \<Rightarrow> bool"
  yy_is_raw :: "'v \<Rightarrow> bool"
  yy_is_uint :: "'v \<Rightarrow> bool"
  yy_is_sint :: "'v \<Rightarrow> bool"
  yy_is_num :: "'v \<Rightarrow> bool"
  yy_obj_get :: "'v \<Rightarrow> byte_string \<Rightarrow> 'v option"
  yy_obj_keys :: "'v \<Rightarrow> byte_string list"
  yy_arr_elems :: "'v \<Rightarrow> 'v list"
  yy_get_str :: "'v \<Rightarrow> byte_string"
  yy_get_raw :: "'v \<Rightarrow> byte_string"
  yy_get_bool :: "'v \<Rightarrow> bool"
  yy_get_uint :: "'v \<Rightarrow> u64"
  yy_get_sint :: "'v \<Rightarrow> int"
  yy_print_real :: "'v \<Rightarrow> byte_string"

text \<open>The type tests answer false on a null pointer.\<close>

definition is_a :: "('v \<Rightarrow> bool) \<Rightarrow> 'v option \<Rightarrow> bool" where
  "is_a test v = (case v of None \<Rightarrow> False | Some x \<Rightarrow> test x)"

lemma is_a_simps [simp]: "\<not> is_a test None" "is_a test (Some x) = test x"
  by (simp_all add: is_a_def)

lemma is_a_Some: "is_a test v \<longleftrightarrow> (\<exists>x. v = Some x \<and> test x)"
  by (cases v) simp_all

section \<open>An instance\<close>

text \<open>
  Documents as trees, for evaluation on concrete inputs: an object is the list of its members and a
  look-up finds the first one. The table of texts it reads is given.
\<close>

datatype json =
    JNull
  | JBool bool
  | JUint u64
  | JRaw byte_string
  | JStr byte_string
  | JArr "json list"
  | JObj "(byte_string \<times> json) list"

definition json_tree :: "(byte_string \<times> json) list \<Rightarrow> json Yyjson" where
  "json_tree texts =
     \<lparr>yy_read = (\<lambda>raw body. map_of texts body),
      yy_is_obj = (\<lambda>v. case v of JObj _ \<Rightarrow> True | _ \<Rightarrow> False),
      yy_is_arr = (\<lambda>v. case v of JArr _ \<Rightarrow> True | _ \<Rightarrow> False),
      yy_is_str = (\<lambda>v. case v of JStr _ \<Rightarrow> True | _ \<Rightarrow> False),
      yy_is_bool = (\<lambda>v. case v of JBool _ \<Rightarrow> True | _ \<Rightarrow> False),
      yy_is_null = (\<lambda>v. v = JNull),
      yy_is_raw = (\<lambda>v. case v of JRaw _ \<Rightarrow> True | _ \<Rightarrow> False),
      yy_is_uint = (\<lambda>v. case v of JUint _ \<Rightarrow> True | _ \<Rightarrow> False),
      yy_is_sint = (\<lambda>v. False),
      yy_is_num = (\<lambda>v. case v of JUint _ \<Rightarrow> True | _ \<Rightarrow> False),
      yy_obj_get = (\<lambda>v key. case v of JObj ms \<Rightarrow> map_of ms key | _ \<Rightarrow> None),
      yy_obj_keys = (\<lambda>v. case v of JObj ms \<Rightarrow> map fst ms | _ \<Rightarrow> []),
      yy_arr_elems = (\<lambda>v. case v of JArr vs \<Rightarrow> vs | _ \<Rightarrow> []),
      yy_get_str = (\<lambda>v. case v of JStr s \<Rightarrow> s | _ \<Rightarrow> []),
      yy_get_raw = (\<lambda>v. case v of JRaw s \<Rightarrow> s | _ \<Rightarrow> []),
      yy_get_bool = (\<lambda>v. case v of JBool b \<Rightarrow> b | _ \<Rightarrow> False),
      yy_get_uint = (\<lambda>v. case v of JUint n \<Rightarrow> n | _ \<Rightarrow> 0),
      yy_get_sint = (\<lambda>v. 0),
      yy_print_real = (\<lambda>v. [])\<rparr>"

lemma json_tree_read [simp]: "yy_read (json_tree texts) raw body = map_of texts body"
  by (simp add: json_tree_def)

lemma json_tree_obj [simp]:
  "yy_is_obj (json_tree texts) (JObj ms)"
  "yy_obj_get (json_tree texts) (JObj ms) key = map_of ms key"
  "yy_obj_keys (json_tree texts) (JObj ms) = map fst ms"
  by (simp_all add: json_tree_def)

lemma json_tree_arr [simp]:
  "yy_is_arr (json_tree texts) (JArr vs)"
  "yy_arr_elems (json_tree texts) (JArr vs) = vs"
  "\<not> yy_is_arr (json_tree texts) (JObj ms)"
  by (simp_all add: json_tree_def)

lemma json_tree_scalars [simp]:
  "yy_is_null (json_tree texts) JNull" "\<not> yy_is_null (json_tree texts) (JStr s)"
  "yy_is_str (json_tree texts) (JStr s)" "yy_get_str (json_tree texts) (JStr s) = s"
  "yy_is_bool (json_tree texts) (JBool b)" "yy_get_bool (json_tree texts) (JBool b) = b"
  "yy_is_raw (json_tree texts) (JRaw s)" "yy_get_raw (json_tree texts) (JRaw s) = s"
  "\<not> yy_is_uint (json_tree texts) (JRaw s)" "yy_is_uint (json_tree texts) (JUint n)"
  "yy_get_uint (json_tree texts) (JUint n) = n"
  by (simp_all add: json_tree_def)

end
