(* ===== verification/OAuth_Pkce.thy ===== *)
theory OAuth_Pkce
  imports Query_Validation Yyjson
begin

text \<open>
  \<open>oauth_pkce.cpp\<close>: the base64url encoder with its 32-bit accumulator, the random identifiers, the
  PKCE challenge, the comparison of secrets, the checks on the login origin, the authorization URL
  and the parser of token responses. The SHA-256 function, the entropy source of the kernel and the
  JSON reader are parameters.
\<close>

section \<open>Base64url\<close>

definition base64url_alphabet :: byte_string where
  "base64url_alphabet = ''ABCDEFGHIJKLMNOPQRSTUVWXYZabcdefghijklmnopqrstuvwxyz0123456789-_''"

text \<open>The inner loop: sextets are taken off while six bits are pending.\<close>

fun emit_sextets :: "u32 \<Rightarrow> nat \<Rightarrow> byte_string \<times> nat" where
  "emit_sextets accumulator bits =
     (if 6 \<le> bits
      then let (out, rest) = emit_sextets accumulator (bits - 6)
           in (base64url_alphabet ! unat (drop_bit (bits - 6) accumulator AND 0x3f) # out, rest)
      else ([], bits))"

declare emit_sextets.simps [simp del]

fun base64_loop :: "u32 \<Rightarrow> nat \<Rightarrow> u8 list \<Rightarrow> byte_string" where
  "base64_loop accumulator bits [] =
     (if 0 < bits then [base64url_alphabet ! unat (push_bit (6 - bits) accumulator AND 0x3f)] else [])"
| "base64_loop accumulator bits (x # xs) =
     (let accumulator' = push_bit 8 accumulator OR ucast x;
          (out, bits') = emit_sextets accumulator' (bits + 8)
      in out @ base64_loop accumulator' bits' xs)"

definition Base64Url :: "u8 list \<Rightarrow> byte_string" where
  "Base64Url input = base64_loop 0 0 input"

section \<open>Random identifiers\<close>

text \<open>
  A \<open>RandomSource\<close> fills a buffer of the given length or throws. \<open>getrandom\<close> answers with an
  interruption, a failure, or bytes, of which at most as many as asked for are stored.
\<close>

datatype oauth_exn = OAuthError byte_string | StillRunning

type_synonym 'w RandomSource = "nat \<Rightarrow> 'w \<Rightarrow> (oauth_exn + u8 list) \<times> 'w"

datatype getrandom_result = Interrupted | Unavailable | Got "u8 list"

definition entropy_error :: oauth_exn where
  "entropy_error = OAuthError ''secure entropy unavailable''"

text \<open>
  \<open>None\<close> is a loop still running when the fuel is used up, since interruptions may repeat for ever;
  \<open>StillRunning\<close> stands for it where the result of \<open>Fill\<close> is used.
\<close>

fun fill_loop ::
  "(nat \<Rightarrow> 'w \<Rightarrow> getrandom_result \<times> 'w) \<Rightarrow> nat \<Rightarrow> nat \<Rightarrow> u8 list \<Rightarrow> 'w \<Rightarrow> (oauth_exn + u8 list) option \<times> 'w" where
  "fill_loop getrandom fuel len output w =
     (if length output < len
      then case fuel of
             0 \<Rightarrow> (None, w)
           | Suc fuel' \<Rightarrow>
               (case getrandom (len - length output) w of
                  (Interrupted, w') \<Rightarrow> fill_loop getrandom fuel' len output w'
                | (Unavailable, w') \<Rightarrow> (Some (Inl entropy_error), w')
                | (Got bytes, w') \<Rightarrow>
                    if bytes = [] then (Some (Inl entropy_error), w')
                    else fill_loop getrandom fuel' len (output @ take (len - length output) bytes) w')
      else (Some (Inr output), w))"

declare fill_loop.simps [simp del]

definition SystemRandomSource_Fill :: "(nat \<Rightarrow> 'w \<Rightarrow> getrandom_result \<times> 'w) \<Rightarrow> nat \<Rightarrow> 'w RandomSource" where
  "SystemRandomSource_Fill getrandom fuel len w =
     (case fill_loop getrandom fuel len [] w of
        (None, w') \<Rightarrow> (Inl StillRunning, w')
      | (Some r, w') \<Rightarrow> (r, w'))"

definition Generate :: "'w RandomSource \<Rightarrow> nat \<Rightarrow> 'w \<Rightarrow> (oauth_exn + byte_string) \<times> 'w" where
  "Generate random bytes w =
     (case random bytes w of
        (Inl e, w') \<Rightarrow> (Inl e, w')
      | (Inr buffer, w') \<Rightarrow> (Inr (Base64Url buffer), w'))"

definition GeneratePkceVerifier :: "'w RandomSource \<Rightarrow> 'w \<Rightarrow> (oauth_exn + byte_string) \<times> 'w" where
  "GeneratePkceVerifier random = Generate random 32"

definition GenerateOAuthState :: "'w RandomSource \<Rightarrow> 'w \<Rightarrow> (oauth_exn + byte_string) \<times> 'w" where
  "GenerateOAuthState random = Generate random 16"

definition GenerateOpaqueId :: "'w RandomSource \<Rightarrow> 'w \<Rightarrow> (oauth_exn + byte_string) \<times> 'w" where
  "GenerateOpaqueId random = Generate random 16"

section \<open>Challenge and comparison\<close>

definition base64url_char :: "char \<Rightarrow> bool" where
  "base64url_char c \<longleftrightarrow> isupper c \<or> islower c \<or> isdigit c \<or> c = CHR ''-'' \<or> c = CHR ''_''"

definition IsBase64UrlValue :: "byte_string \<Rightarrow> nat \<Rightarrow> nat \<Rightarrow> bool" where
  "IsBase64UrlValue value minimum maximum =
     (if length value < minimum \<or> maximum < length value then False
      else \<forall>c \<in> set value. base64url_char c)"

text \<open>\<open>sha256\<close> is the mbedTLS digest; \<open>None\<close> is a failure of one of its calls.\<close>

definition Sha256 :: "(byte_string \<Rightarrow> u8 list option) \<Rightarrow> byte_string \<Rightarrow> byte_string + u8 list" where
  "Sha256 sha256 input = (case sha256 input of None \<Rightarrow> Inl ''SHA-256 unavailable'' | Some digest \<Rightarrow> Inr digest)"

definition CreateS256Challenge :: "(byte_string \<Rightarrow> u8 list option) \<Rightarrow> byte_string \<Rightarrow> byte_string + byte_string" where
  "CreateS256Challenge sha256 verifier =
     (if \<not> IsBase64UrlValue verifier 43 128 then Inl ''invalid PKCE verifier''
      else case Sha256 sha256 verifier of Inl e \<Rightarrow> Inl e | Inr digest \<Rightarrow> Inr (Base64Url digest))"

definition byte_at :: "byte_string \<Rightarrow> nat \<Rightarrow> u64" where
  "byte_at s i = (if i < length s then of_nat (code (s ! i)) else 0)"

definition ConstantTimeEquals :: "byte_string \<Rightarrow> byte_string \<Rightarrow> bool" where
  "ConstantTimeEquals left right \<longleftrightarrow>
     foldl (\<lambda>difference i. difference OR (byte_at left i XOR byte_at right i))
       (size_u64 left XOR size_u64 right) [0..<max (length left) (length right)] = 0"

section \<open>The login origin\<close>

definition FixedOAuthCallbackUrl :: byte_string where
  "FixedOAuthCallbackUrl = ''http://localhost:8910/oauth/callback''"

definition IsDnsLabelChar :: "char \<Rightarrow> bool" where
  "IsDnsLabelChar c \<longleftrightarrow> islower c \<or> isdigit c \<or> c = CHR ''-''"

text \<open>The loop over the labels in front of the suffix; the arguments are its local variables.\<close>

fun mydomain_loop :: "bool \<Rightarrow> nat \<Rightarrow> char \<Rightarrow> byte_string \<Rightarrow> bool" where
  "mydomain_loop label_start label_length previous [] \<longleftrightarrow>
     \<not> label_start \<and> label_length \<le> 63 \<and> previous \<noteq> CHR ''-''"
| "mydomain_loop label_start label_length previous (c # cs) \<longleftrightarrow>
     (if c = CHR ''.''
      then (if label_start \<or> 63 < label_length \<or> previous = CHR ''-'' then False
            else mydomain_loop True 0 c cs)
      else if \<not> IsDnsLabelChar c \<or> label_start \<and> c = CHR ''-'' then False
      else mydomain_loop False (label_length + 1) c cs)"

definition mydomain_suffix :: byte_string where
  "mydomain_suffix = ''.my.salesforce.com''"

definition ValidMyDomainHost :: "byte_string \<Rightarrow> bool" where
  "ValidMyDomainHost host =
     (if 253 < length host \<or> length host \<le> length mydomain_suffix \<or> \<not> suffix mydomain_suffix host then False
      else mydomain_loop True 0 (char_of (0::nat)) (take (length host - length mydomain_suffix) host))"

definition origin_error :: byte_string where
  "origin_error = ''invalid Salesforce login origin''"

definition ValidateSalesforceLoginOrigin :: "byte_string \<Rightarrow> byte_string + byte_string" where
  "ValidateSalesforceLoginOrigin origin =
     (if \<not> prefix ''https://'' origin then Inl origin_error
      else let host0 = drop (length ''https://'') origin;
               host = (if host0 \<noteq> [] \<and> last host0 = CHR ''/'' then butlast host0 else host0)
           in if host = [] \<or> str_find_if (\<lambda>c. c \<in> set (''/@:?#'' @ [CHR 0x5C])) host \<noteq> None \<or>
                 (host \<noteq> ''login.salesforce.com'' \<and> host \<noteq> ''test.salesforce.com'' \<and> \<not> ValidMyDomainHost host)
              then Inl origin_error else Inr (''https://'' @ host))"

section \<open>The authorization URL\<close>

definition hex_upper :: byte_string where
  "hex_upper = ''0123456789ABCDEF''"

definition unreserved :: "char \<Rightarrow> bool" where
  "unreserved c \<longleftrightarrow> isupper c \<or> islower c \<or> isdigit c \<or> c = CHR ''-'' \<or> c = CHR ''_'' \<or>
     c = CHR ''.'' \<or> c = CHR ''~''"

definition percent_encode_char :: "char \<Rightarrow> byte_string" where
  "percent_encode_char c =
     (if unreserved c then [c]
      else [CHR ''%'', hex_upper ! (code c div 16), hex_upper ! (code c mod 16)])"

definition PercentEncode :: "byte_string \<Rightarrow> byte_string" where
  "PercentEncode value = concat (map percent_encode_char value)"

definition authorization_url ::
  "byte_string \<Rightarrow> byte_string \<Rightarrow> byte_string \<Rightarrow> byte_string \<Rightarrow> byte_string \<Rightarrow> byte_string" where
  "authorization_url origin client_id code_challenge state redirect_uri =
     origin @ ''/services/oauth2/authorize?response_type=code&client_id='' @ PercentEncode client_id @
     ''&redirect_uri='' @ PercentEncode redirect_uri @
     ''&scope=api%20cdp_query_api&code_challenge='' @ PercentEncode code_challenge @
     ''&code_challenge_method=S256&state='' @ PercentEncode state"

definition BuildSalesforceAuthorizationUrl ::
  "byte_string \<Rightarrow> byte_string \<Rightarrow> byte_string \<Rightarrow> byte_string \<Rightarrow> byte_string \<Rightarrow> byte_string + byte_string" where
  "BuildSalesforceAuthorizationUrl login_origin client_id code_challenge state redirect_uri =
     (case ValidateSalesforceLoginOrigin login_origin of
        Inl e \<Rightarrow> Inl e
      | Inr origin \<Rightarrow>
          if client_id = [] \<or> 1024 < length client_id then Inl ''invalid OAuth client identifier''
          else if \<exists>c \<in> set client_id. code c < 0x20 \<or> code c = 0x7f then Inl ''invalid OAuth client identifier''
          else if \<not> IsBase64UrlValue code_challenge 1 128 \<or> \<not> IsBase64UrlValue state 1 128
            then Inl ''invalid public OAuth parameter''
          else if redirect_uri \<noteq> FixedOAuthCallbackUrl then Inl ''invalid OAuth callback URL''
          else Inr (authorization_url origin client_id code_challenge state redirect_uri))"

section \<open>Token responses\<close>

record OAuthTokenResponse =
  tr_access_token :: byte_string
  tr_instance_url :: byte_string
  tr_expires_in_seconds :: u64

definition token_error :: byte_string where
  "token_error = ''invalid OAuth token response''"

definition BoundedJsonString :: "'v Yyjson \<Rightarrow> 'v option \<Rightarrow> nat \<Rightarrow> byte_string option" where
  "BoundedJsonString js v maximum =
     (case v of
        None \<Rightarrow> None
      | Some x \<Rightarrow>
          if \<not> yy_is_str js x \<or> length (yy_get_str js x) = 0 \<or> maximum < length (yy_get_str js x)
          then None else Some (yy_get_str js x))"

text \<open>The lifetime: an unsigned number of at most a year, or 0 where there is none; \<open>None\<close> throws.\<close>

definition token_lifetime :: "'v Yyjson \<Rightarrow> 'v option \<Rightarrow> u64 option" where
  "token_lifetime js v =
     (case v of
        None \<Rightarrow> Some 0
      | Some x \<Rightarrow>
          if \<not> yy_is_uint js x \<or> yy_get_uint js x = 0 \<or> 86400 * 365 < yy_get_uint js x then None
          else Some (yy_get_uint js x))"

definition ParseOAuthTokenResponse :: "'v Yyjson \<Rightarrow> byte_string \<Rightarrow> byte_string + OAuthTokenResponse" where
  "ParseOAuthTokenResponse js json =
     (if json = [] \<or> 64 * 1024 < length json then Inl token_error
      else case yy_read js False json of
             None \<Rightarrow> Inl token_error
           | Some root \<Rightarrow>
               if \<not> yy_is_obj js root then Inl token_error
               else if \<not> distinct (yy_obj_keys js root) then Inl token_error
               else (case BoundedJsonString js (yy_obj_get js root ''access_token'') (16 * 1024) of
                       None \<Rightarrow> Inl token_error
                     | Some access_token \<Rightarrow>
                   (case BoundedJsonString js (yy_obj_get js root ''instance_url'') 2048 of
                       None \<Rightarrow> Inl token_error
                     | Some instance_url \<Rightarrow>
                         if yy_obj_get js root ''token_type'' \<noteq> None \<and>
                            BoundedJsonString js (yy_obj_get js root ''token_type'') 16 \<noteq> Some ''Bearer''
                         then Inl token_error
                         else (case token_lifetime js (yy_obj_get js root ''expires_in'') of
                                 None \<Rightarrow> Inl token_error
                               | Some seconds \<Rightarrow>
                                   Inr \<lparr>tr_access_token = access_token, tr_instance_url = instance_url,
                                        tr_expires_in_seconds = seconds\<rparr>))))"

end
