(* ===== verification/OAuth_Encoding.thy ===== *)
theory OAuth_Encoding
  imports OAuth_Pkce
begin

text \<open>
  The base64url encoder against the bit-level definition of RFC 4648: the output is the sequence of
  sextets of the input bits, and decoding gives the input back, so different random bytes have
  different identifiers. The lengths of verifiers and identifiers follow. The random sources are an
  interface which the kernel's entropy source provides.
\<close>

section \<open>Bits and sextets\<close>

text \<open>The low bits of a number, the most significant first.\<close>

definition low_bits :: "nat \<Rightarrow> 'a::semiring_bits \<Rightarrow> bool list" where
  "low_bits n a = rev (map (bit a) [0..<n])"

lemma length_low_bits [simp]: "length (low_bits n a) = n"
  by (simp add: low_bits_def)

definition sextet_char :: "bool list \<Rightarrow> char" where
  "sextet_char bs = base64url_alphabet ! horner_sum of_bool 2 (rev bs)"

fun sextets :: "bool list \<Rightarrow> byte_string" where
  "sextets bs =
     (if bs = [] then []
      else sextet_char (take 6 bs @ replicate (6 - length bs) False) # sextets (drop 6 bs))"

declare sextets.simps [simp del]

lemma sextets_Nil [simp]: "sextets [] = []"
  by (subst sextets.simps) simp

lemma sextets_append: "length bs = 6 \<Longrightarrow> sextets (bs @ cs) = sextet_char bs # sextets cs"
  by (subst sextets.simps) auto

lemma low_bits_split: "low_bits (n + m) a = rev (map (bit a) [n..<n + m]) @ low_bits n a"
  by (simp add: low_bits_def upt_add_eq_append [of 0 n m] del: upt_Suc)

lemma unat_sextet: "horner_sum of_bool 2 (map (bit w) [n..<n + 6]) = unat (drop_bit n w AND 0x3f)" for w :: u32
proof -
  have mask: "(0x3f :: u32) = mask 6" by (simp add: mask_eq_exp_minus_1)
  have map: "map (bit w) [n..<n + 6] = map (bit (drop_bit n (unat w))) [0..<6]"
    by (simp add: list_eq_iff_nth_eq bit_drop_bit_eq bit_unsigned_iff possible_bit_def ac_simps del: upt_Suc)
  have w: "unat w < 2 ^ 32" using unsigned_less [of w] by simp
  show ?thesis
    unfolding map horner_sum_bit_eq_take_bit mask take_bit_eq_mask [symmetric]
    using w by (simp add: unsigned_take_bit_eq unsigned_drop_bit_eq take_bit_nat_eq_self)
qed

lemma emit_sextets_bits:
  "emit_sextets acc n = (out, r) \<Longrightarrow>
     r < 6 \<and> sextets (low_bits n acc @ bs) = out @ sextets (low_bits r acc @ bs)"
proof (induction acc n arbitrary: out r rule: emit_sextets.induct)
  case (1 acc n)
  show ?case
  proof (cases "6 \<le> n")
    case True
    define m where "m = n - 6"
    have n: "n = m + 6" using True by (simp add: m_def)
    from "1.prems" True obtain out' where rec: "emit_sextets acc (n - 6) = (out', r)"
      and out: "out = base64url_alphabet ! unat (drop_bit m acc AND 0x3f) # out'"
      by (subst (asm) emit_sextets.simps) (auto simp: m_def split: prod.splits)
    note ih = "1.IH" [OF True rec]
    have "sextets (low_bits n acc @ bs) = sextet_char (rev (map (bit acc) [m..<m + 6])) # sextets (low_bits m acc @ bs)"
      unfolding n low_bits_split append_assoc by (rule sextets_append) simp
    moreover have "sextet_char (rev (map (bit acc) [m..<m + 6])) = base64url_alphabet ! unat (drop_bit m acc AND 0x3f)"
      unfolding sextet_char_def rev_rev_ident by (simp only: unat_sextet)
    ultimately show ?thesis using ih out by (simp add: m_def)
  next
    case False
    with "1.prems" show ?thesis by (subst (asm) emit_sextets.simps) auto
  qed
qed

lemma low_bits_shift_in:
  fixes acc :: u32 and x :: u8
  assumes "n + 8 \<le> 32"
  shows "low_bits (n + 8) (push_bit 8 acc OR ucast x) = low_bits n acc @ low_bits 8 x"
proof -
  have "map (bit (push_bit 8 acc OR ucast x)) [0..<n + 8] = map (bit x) [0..<8] @ map (bit acc) [0..<n]"
  proof (rule nth_equalityI)
    fix i assume "i < length (map (bit (push_bit 8 acc OR (ucast x :: u32))) [0..<n + 8])"
    then have i: "i < n + 8" by simp
    show "map (bit (push_bit 8 acc OR ucast x)) [0..<n + 8] ! i = (map (bit x) [0..<8] @ map (bit acc) [0..<n]) ! i"
    proof (cases "i < 8")
      case True
      with i assms show ?thesis
        by (simp add: nth_append bit_or_iff bit_push_bit_iff bit_ucast_iff del: upt_Suc)
    next
      case False
      have "\<not> bit x i" using False by (auto dest: bit_imp_le_length)
      with False i assms show ?thesis
        by (simp add: nth_append bit_or_iff bit_push_bit_iff bit_ucast_iff del: upt_Suc)
    qed
  qed simp
  then show ?thesis by (simp add: low_bits_def del: upt_Suc)
qed

lemma pad_sextet:
  fixes acc :: u32
  assumes "0 < n" "n < 6"
  shows "sextets (low_bits n acc) = [base64url_alphabet ! unat (push_bit (6 - n) acc AND 0x3f)]"
proof -
  have "map (bit (push_bit (6 - n) acc)) [0..<6] = replicate (6 - n) False @ map (bit acc) [0..<n]"
  proof (rule nth_equalityI)
    fix i assume "i < length (map (bit (push_bit (6 - n) acc)) [0..<6])"
    then have "i < 6" by simp
    then show "map (bit (push_bit (6 - n) acc)) [0..<6] ! i = (replicate (6 - n) False @ map (bit acc) [0..<n]) ! i"
      using assms by (auto simp: nth_append bit_push_bit_iff simp del: upt_Suc)
  qed (use assms in simp)
  then have "low_bits n acc @ replicate (6 - n) False = rev (map (bit (push_bit (6 - n) acc)) [0..<6])"
    by (simp add: low_bits_def del: upt_Suc)
  then have "sextet_char (low_bits n acc @ replicate (6 - n) False) =
      base64url_alphabet ! unat (push_bit (6 - n) acc AND 0x3f)"
    using unat_sextet [of "push_bit (6 - n) acc" 0] by (simp add: sextet_char_def del: upt_Suc)
  moreover have "low_bits n acc \<noteq> []" using assms length_low_bits by (metis less_irrefl list.size(3))
  ultimately show ?thesis using assms by (subst sextets.simps) simp
qed

text \<open>The encoder writes the sextets of the input bits.\<close>

definition byte_bits :: "u8 list \<Rightarrow> bool list" where
  "byte_bits xs = concat (map (low_bits 8) xs)"

lemma base64_loop_bits: "n < 6 \<Longrightarrow> base64_loop acc n xs = sextets (low_bits n acc @ byte_bits xs)"
proof (induction xs arbitrary: acc n)
  case Nil
  have "low_bits 0 acc = []" by (simp add: low_bits_def)
  with Nil show ?case by (cases "n = 0") (auto simp: byte_bits_def pad_sextet)
next
  case (Cons x xs)
  let ?acc = "push_bit 8 acc OR ucast x"
  obtain out r where e: "emit_sextets ?acc (n + 8) = (out, r)" by force
  note bits = emit_sextets_bits [OF e, of "byte_bits xs"]
  have "base64_loop acc n (x # xs) = out @ sextets (low_bits r ?acc @ byte_bits xs)"
    using Cons.IH [of r ?acc] bits e by (simp add: Let_def)
  also have "\<dots> = sextets (low_bits (n + 8) ?acc @ byte_bits xs)" using bits by simp
  also have "low_bits (n + 8) ?acc = low_bits n acc @ low_bits 8 x"
    using Cons.prems by (intro low_bits_shift_in) simp
  finally show ?case by (simp add: byte_bits_def)
qed

lemma Base64Url_sextets: "Base64Url xs = sextets (byte_bits xs)"
  using base64_loop_bits [of 0 0 xs] by (simp add: Base64Url_def low_bits_def)

lemma length_byte_bits: "length (byte_bits xs) = 8 * length xs"
  by (induction xs) (simp_all add: byte_bits_def)

lemma length_sextets: "length (sextets bs) = (length bs + 5) div 6"
proof (induction bs rule: sextets.induct)
  case (1 bs)
  show ?case
  proof (cases "bs = []")
    case False
    then have "length (sextets bs) = Suc ((length bs - 6 + 5) div 6)" using 1 by (subst sextets.simps) simp
    also have "\<dots> = (length bs + 5) div 6"
    proof (cases "6 \<le> length bs")
      case True
      then obtain m where "length bs = m + 6" by (metis le_add_diff_inverse2)
      then show ?thesis by simp
    next
      case short: False
      have "(length bs + 5) div 6 = 1"
        using short False by (intro div_nat_eqI) (auto simp: Suc_le_eq)
      with short show ?thesis by simp
    qed
    finally show ?thesis .
  qed simp
qed

lemma length_Base64Url: "length (Base64Url xs) = (8 * length xs + 5) div 6"
  by (simp add: Base64Url_sextets length_sextets length_byte_bits)

section \<open>Decoding\<close>

definition sextet_index :: "char \<Rightarrow> nat" where
  "sextet_index c = (case str_find_if (\<lambda>d. d = c) base64url_alphabet of Some i \<Rightarrow> i | None \<Rightarrow> 0)"

fun octets :: "bool list \<Rightarrow> u8 list" where
  "octets bs = (if length bs < 8 then [] else horner_sum of_bool 2 (rev (take 8 bs)) # octets (drop 8 bs))"

declare octets.simps [simp del]

text \<open>The decoder of RFC 4648 without padding: six bits per character, cut into octets.\<close>

definition base64url_decode :: "byte_string \<Rightarrow> u8 list" where
  "base64url_decode s = octets (concat (map (\<lambda>c. low_bits 6 (sextet_index c)) s))"

lemma alphabet_checked:
  "list_all (\<lambda>n. sextet_index (base64url_alphabet ! n) = n \<and> base64url_char (base64url_alphabet ! n)) [0..<64]"
  by code_simp

lemma alphabet_facts: "n < 64 \<Longrightarrow> sextet_index (base64url_alphabet ! n) = n \<and> base64url_char (base64url_alphabet ! n)"
  using alphabet_checked by (simp add: list_all_iff del: upt_Suc)

lemma sextet_less: "length bs = 6 \<Longrightarrow> horner_sum of_bool (2::nat) (rev bs) < 64"
proof -
  assume "length bs = 6"
  then have "horner_sum of_bool (2::nat) (rev bs) < 2 ^ 6"
    using horner_sum_of_bool_2_less [of "rev bs", where 'a = nat] by simp
  then show ?thesis by simp
qed

lemma low_bits_sextet_char: "length bs = 6 \<Longrightarrow> low_bits 6 (sextet_index (sextet_char bs)) = bs"
proof -
  assume l: "length bs = 6"
  have "map (bit (horner_sum of_bool (2::nat) (rev bs))) [0..<6] = rev bs"
    using l by (intro nth_equalityI) (simp_all add: bit_horner_sum_bit_iff del: upt_Suc)
  then have "low_bits 6 (horner_sum of_bool (2::nat) (rev bs)) = bs"
    by (simp add: low_bits_def del: upt_Suc)
  then show ?thesis using alphabet_facts [OF sextet_less [OF l]] by (simp add: sextet_char_def)
qed

lemma sextets_decode:
  "\<exists>k<6. concat (map (\<lambda>c. low_bits 6 (sextet_index c)) (sextets bs)) = bs @ replicate k False"
proof (induction bs rule: sextets.induct)
  case (1 bs)
  show ?case
  proof (cases "bs = []")
    case True
    then show ?thesis by (intro exI [of _ 0]) simp
  next
    case False
    with 1 obtain k where k: "k < 6"
      "concat (map (\<lambda>c. low_bits 6 (sextet_index c)) (sextets (drop 6 bs))) = drop 6 bs @ replicate k False"
      by blast
    let ?pad = "replicate (6 - length bs) False"
    have "low_bits 6 (sextet_index (sextet_char (take 6 bs @ ?pad))) = take 6 bs @ ?pad"
      by (intro low_bits_sextet_char) simp
    with False k(2) have eq: "concat (map (\<lambda>c. low_bits 6 (sextet_index c)) (sextets bs)) =
        take 6 bs @ ?pad @ drop 6 bs @ replicate k False"
      by (subst sextets.simps) simp
    show ?thesis
    proof (cases "6 \<le> length bs")
      case True
      with eq k(1) show ?thesis by (intro exI [of _ k]) (simp flip: append_assoc)
    next
      case short: False
      then have "sextets (drop 6 bs) = []" by simp
      with k(2) short have "k = 0" by simp
      with eq short False show ?thesis by (intro exI [of _ "6 - length bs"]) (cases bs, auto)
    qed
  qed
qed

lemma octets_short: "length p < 8 \<Longrightarrow> octets p = []"
  by (subst octets.simps) simp

lemma octets_byte_bits: "length p < 8 \<Longrightarrow> octets (byte_bits xs @ p) = xs"
proof (induction xs)
  case Nil
  then show ?case by (simp add: byte_bits_def octets_short)
next
  case (Cons x xs)
  have "horner_sum of_bool 2 (map (bit x) [0..<8]) = take_bit 8 x" by (simp add: horner_sum_bit_eq_take_bit)
  also have "\<dots> = x" by (rule take_bit_length_eq [where 'a = 8, simplified])
  finally have x: "horner_sum of_bool 2 (rev (low_bits 8 x)) = x" by (simp add: low_bits_def del: upt_Suc)
  have b: "byte_bits (x # xs) @ p = low_bits 8 x @ byte_bits xs @ p" by (simp add: byte_bits_def)
  show ?case
    unfolding b using Cons x by (subst octets.simps) simp
qed

lemma base64url_decode_encode: "base64url_decode (Base64Url xs) = xs"
proof -
  obtain k where "k < 6"
    "concat (map (\<lambda>c. low_bits 6 (sextet_index c)) (sextets (byte_bits xs))) = byte_bits xs @ replicate k False"
    using sextets_decode by blast
  then show ?thesis by (simp add: base64url_decode_def Base64Url_sextets octets_byte_bits)
qed

lemma sextets_chars: "c \<in> set (sextets bs) \<Longrightarrow> base64url_char c"
proof (induction bs rule: sextets.induct)
  case (1 bs)
  show ?case
  proof (cases "bs = []")
    case False
    let ?p = "take 6 bs @ replicate (6 - length bs) False"
    have "length ?p = 6" by simp
    then have "base64url_char (sextet_char ?p)"
      using alphabet_facts [OF sextet_less [of ?p]] by (simp only: sextet_char_def)
    with 1 False show ?thesis by (subst (asm) (2) sextets.simps) auto
  qed (use 1 in simp)
qed

section \<open>Random sources\<close>

locale random_source =
  fixes random :: "'w RandomSource"
  assumes fills: "random n w = (Inr bytes, w') \<Longrightarrow> length bytes = n"
begin

lemma Generate_value:
  assumes "Generate random n w = (Inr v, w')"
  shows "length v = (8 * n + 5) div 6 \<and> (\<forall>c \<in> set v. base64url_char c) \<and> length (base64url_decode v) = n"
proof -
  from assms obtain bytes where r: "random n w = (Inr bytes, w')" and v: "v = Base64Url bytes"
    by (auto simp: Generate_def split: prod.splits sum.splits)
  have "base64url_char c" if "c \<in> set v" for c
    using that sextets_chars by (simp add: v Base64Url_sextets)
  with fills [OF r] v show ?thesis by (simp add: length_Base64Url base64url_decode_encode)
qed

lemma verifier_usable: "GeneratePkceVerifier random w = (Inr v, w') \<Longrightarrow> length v = 43 \<and> IsBase64UrlValue v 43 128"
  using Generate_value [of 32 w v w'] by (simp add: GeneratePkceVerifier_def IsBase64UrlValue_def)

lemma identifier_usable:
  "GenerateOAuthState random w = (Inr v, w') \<Longrightarrow> length v = 22 \<and> IsBase64UrlValue v 1 128"
  "GenerateOpaqueId random w = (Inr v, w') \<Longrightarrow> length v = 22 \<and> IsBase64UrlValue v 1 128"
  using Generate_value [of 16 w v w']
  by (simp_all add: GenerateOAuthState_def GenerateOpaqueId_def IsBase64UrlValue_def)

end

text \<open>The kernel's entropy source fills the whole buffer, in as many calls as it takes.\<close>

lemma fill_loop_length:
  "fill_loop getrandom fuel n stored w = (Some (Inr bytes), w') \<Longrightarrow> length stored \<le> n \<Longrightarrow> length bytes = n"
proof (induction getrandom fuel n stored w rule: fill_loop.induct)
  case (1 getrandom fuel n stored w)
  show ?case
  proof (cases "length stored < n")
    case True
    then obtain fuel' where fuel: "fuel = Suc fuel'"
      using "1.prems" by (subst (asm) fill_loop.simps) (auto split: nat.splits)
    obtain g w1 where g: "getrandom (n - length stored) w = (g, w1)" by force
    from "1.prems"(1) True fuel g show ?thesis
      by (subst (asm) fill_loop.simps)
        (auto split: getrandom_result.splits if_splits intro: "1.IH"(1) [OF True fuel g [symmetric]]
          "1.IH"(2) [OF True fuel g [symmetric]])
  next
    case False
    with "1.prems" show ?thesis by (subst (asm) fill_loop.simps) simp
  qed
qed

interpretation system_random: random_source "SystemRandomSource_Fill getrandom fuel"
  by unfold_locales
    (auto simp: SystemRandomSource_Fill_def split: prod.splits option.splits sum.splits dest: fill_loop_length)

text \<open>Without interruptions every call stores a byte or fails, so the length of the buffer bounds the calls.\<close>

lemma fill_loop_ends:
  assumes "\<And>k v. fst (getrandom k v) \<noteq> Interrupted" and "n \<le> length stored + fuel"
  shows "fst (fill_loop getrandom fuel n stored w) \<noteq> None"
  using assms(2)
proof (induction fuel arbitrary: stored w)
  case 0
  then show ?case by (subst fill_loop.simps) simp
next
  case (Suc fuel)
  obtain g w1 where g: "getrandom (n - length stored) w = (g, w1)" by force
  show ?case
  proof (cases g)
    case Interrupted
    with assms(1) g show ?thesis by (metis fst_conv)
  next
    case Unavailable
    with g show ?thesis by (subst fill_loop.simps) simp
  next
    case (Got bytes)
    have "n \<le> length (stored @ take (n - length stored) bytes) + fuel" if "bytes \<noteq> []" "length stored < n"
      using that Suc.prems by (cases bytes) auto
    with g Got Suc.IH show ?thesis by (subst fill_loop.simps) auto
  qed
qed

section \<open>Comparing secrets\<close>

lemma word_or_zero: "a OR b = 0 \<longleftrightarrow> a = 0 \<and> b = (0 :: u64)"
  by (auto simp: bit_eq_iff bit_or_iff)

lemma foldl_or_zero: "foldl (\<lambda>d i. d OR f i) a xs = (0 :: u64) \<longleftrightarrow> a = 0 \<and> (\<forall>i \<in> set xs. f i = 0)"
  by (induction xs arbitrary: a) (auto simp: word_or_zero)

lemma word_xor_zero: "a XOR b = 0 \<longleftrightarrow> a = (b :: u64)"
  by (auto simp: bit_eq_iff bit_xor_iff)

lemma ConstantTimeEquals_iff:
  assumes "length left < 2 ^ 64" "length right < 2 ^ 64"
  shows "ConstantTimeEquals left right \<longleftrightarrow> left = right"
proof
  assume "ConstantTimeEquals left right"
  then have size: "size_u64 left = size_u64 right"
    and bytes: "\<forall>i < max (length left) (length right). byte_at left i = byte_at right i"
    by (auto simp: ConstantTimeEquals_def foldl_or_zero word_xor_zero)
  have len: "length left = length right"
    using arg_cong [OF size, of unat] assms by (simp add: unat_size_u64)
  show "left = right"
  proof (rule nth_equalityI [OF len])
    fix i assume i: "i < length left"
    with bytes len have "of_nat (code (left ! i)) = (of_nat (code (right ! i)) :: u64)"
      by (simp add: byte_at_def)
    then have "unat (of_nat (code (left ! i)) :: u64) = unat (of_nat (code (right ! i)) :: u64)" by simp
    moreover have "unat (of_nat (code c) :: u64) = code c" for c :: char
      by (simp add: unat_of_nat order_less_trans [OF code_less_256])
    ultimately show "left ! i = right ! i" by simp
  qed
next
  assume "left = right"
  then show "ConstantTimeEquals left right"
    unfolding ConstantTimeEquals_def foldl_or_zero by (simp add: word_xor_zero)
qed

end
