(* ===== verification/Loopback_Parser.thy ===== *)
theory Loopback_Parser
  imports OAuth_Encoding
begin

text \<open>
  The parser of \<open>loopback_listener.cpp\<close> for the one HTTP request the browser makes to the loopback
  listener: percent decoding, the query fields, the header lines, and the result with its one-time
  authorization code.
\<close>

section \<open>Percent decoding\<close>

definition HexValue :: "char \<Rightarrow> int" where
  "HexValue c =
     (if isdigit c then int (code c) - 48
      else if 65 \<le> code c \<and> code c \<le> 70 then int (code c) - 65 + 10
      else if 97 \<le> code c \<and> code c \<le> 102 then int (code c) - 97 + 10
      else -1)"

definition MAX_CALLBACK_REQUEST_BYTES :: nat where
  "MAX_CALLBACK_REQUEST_BYTES = 8192"

definition MAX_CALLBACK_VALUE_BYTES :: nat where
  "MAX_CALLBACK_VALUE_BYTES = 2048"

definition malformed_callback :: byte_string where
  "malformed_callback = ''malformed OAuth callback''"

definition control_byte :: "nat \<Rightarrow> bool" where
  "control_byte n \<longleftrightarrow> n < 0x20 \<or> n = 0x7f"

text \<open>The decoding loop; \<open>None\<close> is the exception of a malformed value.\<close>

fun decode_loop :: "byte_string \<Rightarrow> byte_string option" where
  "decode_loop [] = Some []"
| "decode_loop (c # cs) =
     (if c = CHR ''%''
      then (case cs of
              h # l # rest \<Rightarrow>
                (let high = HexValue h; low = HexValue l; decoded = nat (push_bit 4 high OR low)
                 in if high < 0 \<or> low < 0 then None
                    else if control_byte decoded then None
                    else map_option (\<lambda>out. char_of decoded # out) (decode_loop rest))
            | _ \<Rightarrow> None)
      else if c = CHR ''+'' \<or> control_byte (code c) then None
      else map_option (\<lambda>out. c # out) (decode_loop cs))"

definition PercentDecode :: "byte_string \<Rightarrow> byte_string + byte_string" where
  "PercentDecode value =
     (case decode_loop value of
        None \<Rightarrow> Inl malformed_callback
      | Some out \<Rightarrow>
          if MAX_CALLBACK_VALUE_BYTES < length out then Inl ''oversized OAuth callback field'' else Inr out)"

section \<open>Query fields\<close>

text \<open>The loop over the items between ampersands, filling the map of fields.\<close>

fun parse_items ::
  "byte_string list \<Rightarrow> (byte_string \<times> byte_string) list \<Rightarrow> byte_string + (byte_string \<times> byte_string) list" where
  "parse_items [] values = Inr values"
| "parse_items (item # items) values =
     (case str_find ''='' item of
        None \<Rightarrow> Inl malformed_callback
      | Some equals \<Rightarrow>
          if item = [] \<or> equals = 0 then Inl malformed_callback
          else (case PercentDecode (take equals item) of
                  Inl e \<Rightarrow> Inl e
                | Inr key \<Rightarrow>
                    (case PercentDecode (drop (equals + 1) item) of
                       Inl e \<Rightarrow> Inl e
                     | Inr val \<Rightarrow>
                         if map_of values key \<noteq> None then Inl ''duplicate OAuth callback field''
                         else parse_items items (map_put key val values))))"

definition ParseQuery :: "byte_string \<Rightarrow> byte_string + (byte_string \<times> byte_string) list" where
  "ParseQuery query = parse_items (split_on CHR ''&'' query) []"

section \<open>The callback request\<close>

datatype CallbackStatus = CODE_RECEIVED | ACCESS_DENIED

record CallbackResult =
  cb_status :: CallbackStatus
  cb_state :: byte_string
  cb_code :: byte_string
  cb_safe_error_code :: byte_string
  cb_code_taken :: bool

definition make_CallbackResult ::
  "CallbackStatus \<Rightarrow> byte_string \<Rightarrow> byte_string \<Rightarrow> byte_string \<Rightarrow> CallbackResult" where
  "make_CallbackResult status state code_p safe_error_code =
     \<lparr>cb_status = status, cb_state = state, cb_code = code_p, cb_safe_error_code = safe_error_code,
      cb_code_taken = False\<rparr>"

text \<open>The code is moved out, so the result keeps an empty one.\<close>

definition TakeCode :: "CallbackResult \<Rightarrow> (byte_string + byte_string) \<times> CallbackResult" where
  "TakeCode r =
     (if cb_status r \<noteq> CODE_RECEIVED \<or> cb_code_taken r \<or> cb_code r = []
      then (Inl ''authorization code unavailable'', r)
      else (Inr (cb_code r), r\<lparr>cb_code_taken := True, cb_code := []\<rparr>))"

definition crlf :: byte_string where
  "crlf = [CHR 0x0D, CHR 0x0A]"

definition blank :: "char \<Rightarrow> bool" where
  "blank c \<longleftrightarrow> c = CHR '' '' \<or> c = CHR 0x09"

definition trim_blanks :: "byte_string \<Rightarrow> byte_string" where
  "trim_blanks value = rev (dropWhile blank (rev (dropWhile blank value)))"

definition malformed_header :: byte_string where
  "malformed_header = ''malformed callback header''"

definition body_forbidden :: byte_string where
  "body_forbidden = ''callback request body forbidden''"

text \<open>One header line: the new value of \<open>found_host\<close>, or the exception.\<close>

definition header_line :: "bool \<Rightarrow> byte_string \<Rightarrow> byte_string + bool" where
  "header_line found_host line =
     (case str_find '':'' line of
        None \<Rightarrow> Inl malformed_header
      | Some colon \<Rightarrow>
          if colon = 0 \<or> blank (line ! (colon - 1)) then Inl malformed_header
          else let key = take colon line; lkey = lower_string key; val = trim_blanks (drop (colon + 1) line)
               in if \<exists>c \<in> set key. \<not> isalnum c \<and> c \<noteq> CHR ''-'' then Inl malformed_header
                  else if \<exists>c \<in> set val. code c < 0x20 \<and> c \<noteq> CHR 0x09 then Inl malformed_header
                  else if lkey = ''content-length'' \<or> lkey = ''transfer-encoding'' then Inl body_forbidden
                  else if lkey = ''host''
                    then (if found_host \<or> val \<noteq> ''localhost:8910'' then Inl ''invalid callback host'' else Inr True)
                  else Inr found_host)"

function header_loop :: "bool \<Rightarrow> byte_string \<Rightarrow> byte_string + bool" where
  "header_loop found_host rest =
     (if rest = [] then Inr found_host
      else case str_find crlf rest of
             None \<Rightarrow> header_line found_host rest
           | Some end_at \<Rightarrow>
               (case header_line found_host (take end_at rest) of
                  Inl e \<Rightarrow> Inl e
                | Inr found \<Rightarrow> header_loop found (drop (end_at + 2) rest)))"
  by pat_completeness auto
termination
  by (relation "measure (\<lambda>(_, rest). length rest)") (auto simp: crlf_def dest!: str_find_Some)

declare header_loop.simps [simp del]

definition request_prefix :: byte_string where
  "request_prefix = ''GET /oauth/callback?''"

definition request_suffix :: byte_string where
  "request_suffix = '' HTTP/1.1''"

text \<open>What the fields of the query amount to.\<close>

definition callback_fields :: "(byte_string \<times> byte_string) list \<Rightarrow> byte_string + CallbackResult" where
  "callback_fields fs =
     (case map_of fs ''state'' of
        None \<Rightarrow> Inl ''OAuth callback state missing''
      | Some state \<Rightarrow>
          if state = [] then Inl ''OAuth callback state missing''
          else (case map_of fs ''error'' of
                  Some error \<Rightarrow>
                    if map_of fs ''code'' \<noteq> None \<or> error \<noteq> ''access_denied''
                    then Inl ''OAuth provider rejected callback''
                    else Inr (make_CallbackResult ACCESS_DENIED state [] ''USER_DENIED'')
                | None \<Rightarrow>
                    (case map_of fs ''code'' of
                       None \<Rightarrow> Inl ''authorization code missing''
                     | Some code_v \<Rightarrow>
                         if code_v = [] then Inl ''authorization code missing''
                         else Inr (make_CallbackResult CODE_RECEIVED state code_v []))))"

text \<open>
  The header block is \<open>substr(line_end + 2, header_end - (line_end + 2))\<close>. Where there is no header
  line the count wraps around, which takes everything up to the end of the request.
\<close>

definition header_block :: "byte_string \<Rightarrow> nat \<Rightarrow> nat \<Rightarrow> byte_string" where
  "header_block request line_end header_end =
     (if line_end + 2 \<le> header_end then take (header_end - (line_end + 2)) (drop (line_end + 2) request)
      else drop (line_end + 2) request)"

definition ParseOAuthCallbackRequest :: "byte_string \<Rightarrow> byte_string + CallbackResult" where
  "ParseOAuthCallbackRequest request =
     (if request = [] \<or> MAX_CALLBACK_REQUEST_BYTES < length request
      then Inl ''invalid or oversized callback request''
      else case str_find (crlf @ crlf) request of
             None \<Rightarrow> Inl body_forbidden
           | Some header_end \<Rightarrow>
               if header_end + 4 \<noteq> length request then Inl body_forbidden
               else (case str_find crlf request of
                       None \<Rightarrow> Inl malformed_callback
                     | Some line_end \<Rightarrow>
                         let request_line = take line_end request
                         in if \<not> prefix request_prefix request_line \<or>
                               length request_line \<le> length request_prefix + length request_suffix \<or>
                               \<not> suffix request_suffix request_line
                            then Inl ''invalid OAuth callback method or path''
                            else (case header_loop False (header_block request line_end header_end) of
                                    Inl e \<Rightarrow> Inl e
                                  | Inr found_host \<Rightarrow>
                                      if \<not> found_host then Inl ''invalid callback host''
                                      else (case ParseQuery (take (length request_line - length request_prefix -
                                                     length request_suffix) (drop (length request_prefix) request_line)) of
                                              Inl e \<Rightarrow> Inl e
                                            | Inr fs \<Rightarrow> callback_fields fs))))"

text \<open>The two fixed answers to the browser.\<close>

definition SuccessResponse :: byte_string where
  "SuccessResponse =
     ''HTTP/1.1 200 OK'' @ crlf @ ''Content-Type: text/html; charset=utf-8'' @ crlf @
     ''Cache-Control: no-store'' @ crlf @ ''Connection: close'' @ crlf @ ''Content-Length: 76'' @ crlf @ crlf @
     ''<!doctype html><title>Authorization received</title>You may close this page.''"

definition FailureResponse :: byte_string where
  "FailureResponse =
     ''HTTP/1.1 400 Bad Request'' @ crlf @ ''Content-Type: text/html; charset=utf-8'' @ crlf @
     ''Cache-Control: no-store'' @ crlf @ ''Connection: close'' @ crlf @ ''Content-Length: 74'' @ crlf @ crlf @
     ''<!doctype html><title>Authorization failed</title>Please return to DuckDB.''"

end
