(* ===== verification/Loopback_Correct.thy ===== *)
theory Loopback_Correct
  imports Loopback_Parser
begin

text \<open>
  Correctness of the callback parser: percent encoding and decoding are inverse, a query built from
  fields is parsed back to them, what is accepted has the one allowed shape, and a well-formed
  request is accepted.
\<close>

section \<open>Percent encoding\<close>

lemma HexValue_hex_upper: "d < 16 \<Longrightarrow> HexValue (hex_upper ! d) = int d"
proof -
  have "list_all (\<lambda>d. HexValue (hex_upper ! d) = int d) [0..<16]" by code_simp
  then show "d < 16 \<Longrightarrow> ?thesis" by (simp add: list_all_iff del: upt_Suc)
qed

lemma nibbles_or: "b < 16 \<Longrightarrow> nat (push_bit 4 (int a) OR int b) = 16 * a + b"
proof -
  assume b: "b < 16"
  then have "take_bit 4 (int b) = int b" by (simp add: take_bit_int_eq_self)
  then have "push_bit 4 (int a) OR int b = concat_bit 4 (int b) (int a)" by (simp add: concat_bit_def ac_simps)
  also have "\<dots> = int b + push_bit 4 (int a)" using \<open>take_bit 4 (int b) = int b\<close> by (simp add: concat_bit_eq)
  also have "\<dots> = int (16 * a + b)" by (simp add: push_bit_eq_mult)
  finally show ?thesis by (simp only: nat_int)
qed

lemma hex_facts:
  assumes "n < 256"
  shows "nat (push_bit 4 (HexValue (hex_upper ! (n div 16))) OR HexValue (hex_upper ! (n mod 16))) = n"
    and "\<not> HexValue (hex_upper ! (n div 16)) < 0" "\<not> HexValue (hex_upper ! (n mod 16)) < 0"
proof -
  have d: "n div 16 < 16" "n mod 16 < 16" using assms by (simp_all add: div_less_iff_less_mult)
  show "nat (push_bit 4 (HexValue (hex_upper ! (n div 16))) OR HexValue (hex_upper ! (n mod 16))) = n"
    by (simp only: HexValue_hex_upper d nibbles_or mult_div_mod_eq)
  show "\<not> HexValue (hex_upper ! (n div 16)) < 0" "\<not> HexValue (hex_upper ! (n mod 16)) < 0"
    using d by (simp_all add: HexValue_hex_upper)
qed

lemma decode_encoded_char:
  assumes "\<not> control_byte (code c)"
  shows "decode_loop (percent_encode_char c @ cs) = map_option (\<lambda>out. c # out) (decode_loop cs)"
proof (cases "unreserved c")
  case True
  then have "c \<noteq> CHR ''%''" "c \<noteq> CHR ''+''" by (auto simp: unreserved_def ctype_defs)
  with True assms show ?thesis by (simp add: percent_encode_char_def)
next
  case False
  with assms hex_facts [of "code c"] show ?thesis
    by (simp add: percent_encode_char_def Let_def)
qed

lemma decode_loop_encode: "\<forall>c \<in> set v. \<not> control_byte (code c) \<Longrightarrow> decode_loop (PercentEncode v) = Some v"
  by (induction v) (simp_all add: PercentEncode_def decode_encoded_char)

lemma PercentDecode_PercentEncode:
  assumes "\<forall>c \<in> set v. \<not> control_byte (code c)" "length v \<le> MAX_CALLBACK_VALUE_BYTES"
  shows "PercentDecode (PercentEncode v) = Inr v"
  using assms by (simp add: PercentDecode_def decode_loop_encode)

lemma hex_upper_char: "n < 16 \<Longrightarrow> unreserved (hex_upper ! n)"
proof -
  have "list_all (\<lambda>n. unreserved (hex_upper ! n)) [0..<16]" by code_simp
  then show "n < 16 \<Longrightarrow> ?thesis" by (simp add: list_all_iff del: upt_Suc)
qed

lemma PercentEncode_chars: "c \<in> set (PercentEncode v) \<Longrightarrow> unreserved c \<or> c = CHR ''%''"
proof -
  assume "c \<in> set (PercentEncode v)"
  then obtain d where "c \<in> set (percent_encode_char d)" by (auto simp: PercentEncode_def)
  moreover have "code d div 16 < 16" using code_less_256 [of d] by (simp add: div_less_iff_less_mult)
  ultimately show ?thesis by (auto simp: percent_encode_char_def hex_upper_char split: if_splits)
qed

lemma PercentEncode_clean:
  "CHR ''&'' \<notin> set (PercentEncode v)" "CHR ''='' \<notin> set (PercentEncode v)" "CHR '' '' \<notin> set (PercentEncode v)"
  "CHR 0x0D \<notin> set (PercentEncode v)" "CHR ''#'' \<notin> set (PercentEncode v)" "CHR ''?'' \<notin> set (PercentEncode v)"
  by (auto dest!: PercentEncode_chars simp: unreserved_def ctype_defs)

lemma PercentEncode_Nil [simp]: "PercentEncode v = [] \<longleftrightarrow> v = []"
  by (cases v) (auto simp: PercentEncode_def percent_encode_char_def)

section \<open>Query fields\<close>

definition field_text :: "byte_string \<times> byte_string \<Rightarrow> byte_string" where
  "field_text f = PercentEncode (fst f) @ ''='' @ PercentEncode (snd f)"

fun join_fields :: "(byte_string \<times> byte_string) list \<Rightarrow> byte_string" where
  "join_fields [] = []"
| "join_fields [f] = field_text f"
| "join_fields (f # g # fs) = field_text f @ ''&'' @ join_fields (g # fs)"

definition transmissible :: "byte_string \<times> byte_string \<Rightarrow> bool" where
  "transmissible f \<longleftrightarrow> fst f \<noteq> [] \<and>
     (\<forall>c \<in> set (fst f) \<union> set (snd f). \<not> control_byte (code c)) \<and>
     length (fst f) \<le> MAX_CALLBACK_VALUE_BYTES \<and> length (snd f) \<le> MAX_CALLBACK_VALUE_BYTES"

lemma field_text_no_amp: "CHR ''&'' \<notin> set (field_text f)"
  by (simp add: field_text_def PercentEncode_clean)

lemma split_join_fields: "fs \<noteq> [] \<Longrightarrow> split_on CHR ''&'' (join_fields fs) = map field_text fs"
proof (induction fs rule: join_fields.induct)
  case (3 f g fs)
  then show ?case
    using split_on_append [of "CHR ''&''" "field_text f"] by (simp add: field_text_no_amp)
qed (simp_all add: field_text_no_amp)

lemma str_find_char: "c \<notin> set p \<Longrightarrow> str_find [c] (p @ c # q) = Some (length p)"
  by (induction p) auto

lemma parse_field:
  assumes "transmissible f" "map_of vs (fst f) = None"
  shows "parse_items (field_text f # items) vs = parse_items items (map_put (fst f) (snd f) vs)"
proof -
  have "str_find ''='' (field_text f) = Some (length (PercentEncode (fst f)))"
    unfolding field_text_def by (simp add: str_find_char PercentEncode_clean)
  moreover have "PercentEncode (fst f) \<noteq> []" using assms by (simp add: transmissible_def)
  moreover have "take (length (PercentEncode (fst f))) (field_text f) = PercentEncode (fst f)"
    "drop (length (PercentEncode (fst f)) + 1) (field_text f) = PercentEncode (snd f)"
    by (simp_all add: field_text_def)
  moreover have "PercentDecode (PercentEncode (fst f)) = Inr (fst f)" "PercentDecode (PercentEncode (snd f)) = Inr (snd f)"
    using assms(1) by (auto simp: transmissible_def intro!: PercentDecode_PercentEncode)
  ultimately show ?thesis using assms(2) by (simp add: field_text_def)
qed

lemma parse_fields:
  assumes "\<forall>f \<in> set fs. transmissible f" "distinct (map fst fs)" "\<forall>f \<in> set fs. map_of vs (fst f) = None"
  shows "\<exists>m. parse_items (map field_text fs) vs = Inr m \<and>
     (\<forall>k. map_of m k = (case map_of fs k of Some v \<Rightarrow> Some v | None \<Rightarrow> map_of vs k))"
  using assms
proof (induction fs arbitrary: vs)
  case (Cons f fs)
  have "map_of (map_put (fst f) (snd f) vs) (fst g) = None" if "g \<in> set fs" for g
  proof -
    have "fst f \<notin> fst ` set fs" using Cons.prems(2) by simp
    then have "fst g \<noteq> fst f" using that by (metis imageI)
    with Cons.prems(3) that show ?thesis by (simp add: smap.find_put)
  qed
  then obtain m where m: "parse_items (map field_text fs) (map_put (fst f) (snd f) vs) = Inr m"
    "\<forall>k. map_of m k = (case map_of fs k of Some v \<Rightarrow> Some v | None \<Rightarrow> map_of (map_put (fst f) (snd f) vs) k)"
    using Cons.IH [of "map_put (fst f) (snd f) vs"] Cons.prems(1,2) by auto
  have "map_of fs (fst f) = None" using Cons.prems(2) by (simp add: map_of_eq_None_iff)
  with m(2) have "\<forall>k. map_of m k = (case map_of (f # fs) k of Some v \<Rightarrow> Some v | None \<Rightarrow> map_of vs k)"
    by (auto simp: smap.find_put split: option.split)
  moreover have "parse_items (map field_text (f # fs)) vs = Inr m"
    using parse_field [of f vs "map field_text fs"] Cons.prems m(1) by (simp del: parse_items.simps)
  ultimately show ?case by blast
qed simp

lemma ParseQuery_join:
  assumes "fs \<noteq> []" "\<forall>f \<in> set fs. transmissible f" "distinct (map fst fs)"
  shows "\<exists>m. ParseQuery (join_fields fs) = Inr m \<and> map_of m = map_of fs"
proof -
  obtain m where "parse_items (map field_text fs) [] = Inr m"
    "\<forall>k. map_of m k = (case map_of fs k of Some v \<Rightarrow> Some v | None \<Rightarrow> map_of [] k)"
    using parse_fields [OF assms(2,3), of "[]"] by auto
  then have "ParseQuery (join_fields fs) = Inr m \<and> map_of m = map_of fs"
    using assms(1) by (auto simp: ParseQuery_def split_join_fields fun_eq_iff split: option.split)
  then show ?thesis by blast
qed

section \<open>The request\<close>

text \<open>The request a browser makes when it is redirected to the fixed callback URL with these fields.\<close>

definition host_header :: byte_string where
  "host_header = ''Host: localhost:8910''"

definition callback_request :: "(byte_string \<times> byte_string) list \<Rightarrow> byte_string" where
  "callback_request fs = request_prefix @ join_fields fs @ request_suffix @ crlf @ host_header @ crlf @ crlf"

lemma str_find_skip:
  "c \<notin> set p \<Longrightarrow> str_find (c # r) (p @ q) = map_option (\<lambda>i. length p + i) (str_find (c # r) q)"
  by (induction p; cases "str_find (c # r) q") simp_all

lemma join_fields_no_cr: "CHR 0x0D \<notin> set (join_fields fs)"
  by (induction fs rule: join_fields.induct) (simp_all add: field_text_def PercentEncode_clean)

lemma callback_fields_cong:
  assumes "map_of m = map_of fs"
  shows "callback_fields m = callback_fields fs"
  unfolding callback_fields_def assms ..

lemma callback_tail:
  "str_find (crlf @ crlf) (crlf @ host_header @ crlf @ crlf) = Some 22"
  "str_find crlf (crlf @ host_header @ crlf @ crlf) = Some 0"
  "header_loop False host_header = Inr True"
  "length host_header = 20"
  by code_simp+

lemma ParseOAuthCallbackRequest_request:
  assumes "fs \<noteq> []" "\<forall>f \<in> set fs. transmissible f" "distinct (map fst fs)"
    and "length (callback_request fs) \<le> MAX_CALLBACK_REQUEST_BYTES"
  shows "ParseOAuthCallbackRequest (callback_request fs) = callback_fields fs"
proof -
  let ?line = "request_prefix @ join_fields fs @ request_suffix" and ?tail = "crlf @ host_header @ crlf @ crlf"
  have req: "callback_request fs = ?line @ ?tail" by (simp add: callback_request_def)
  have no_cr: "CHR 0x0D \<notin> set ?line"
    using join_fields_no_cr by (simp add: request_prefix_def request_suffix_def)
  have find: "str_find (crlf @ crlf) (?line @ ?tail) = Some (length ?line + 22)"
    "str_find crlf (?line @ ?tail) = Some (length ?line)"
    using str_find_skip [OF no_cr, of "CHR 0x0A # crlf" ?tail] str_find_skip [OF no_cr, of "[CHR 0x0A]" ?tail]
      callback_tail(1,2) by (simp_all add: crlf_def)
  have block: "header_block (?line @ ?tail) (length ?line) (length ?line + 22) = host_header"
    by (simp add: header_block_def crlf_def callback_tail(4))
  have len: "length (?line @ ?tail) = length ?line + 26" by (simp add: crlf_def callback_tail(4))
  have "0 < length (join_fields fs)"
    using assms(1) by (cases fs rule: join_fields.cases) (simp_all add: field_text_def)
  then have shape: "prefix request_prefix ?line" "suffix request_suffix ?line"
    "\<not> length ?line \<le> length request_prefix + length request_suffix"
    by (auto simp: prefix_def suffix_def)
  have query: "take (length ?line - length request_prefix - length request_suffix) (drop (length request_prefix) ?line)
      = join_fields fs" by simp
  obtain m where m: "ParseQuery (join_fields fs) = Inr m" "map_of m = map_of fs"
    using ParseQuery_join [OF assms(1-3)] by blast
  have take: "take (length ?line) (?line @ ?tail) = ?line" by simp
  have big: "\<not> (?line @ ?tail = [] \<or> MAX_CALLBACK_REQUEST_BYTES < length ?line + 26)"
    using assms(4) unfolding req len by (simp add: request_prefix_def)
  have good: "\<not> (\<not> prefix request_prefix ?line \<or>
      length ?line \<le> length request_prefix + length request_suffix \<or> \<not> suffix request_suffix ?line)"
    using shape by blast
  have ends: "\<not> length ?line + 22 + 4 \<noteq> length ?line + 26" "\<not> \<not> True" by simp_all
  show ?thesis
    unfolding req ParseOAuthCallbackRequest_def if_not_P [OF big] find option.case len if_not_P [OF ends(1)]
      take Let_def if_not_P [OF good] block callback_tail(3) sum.case if_not_P [OF ends(2)] query m(1)
    by (rule callback_fields_cong [OF m(2)])
qed

text \<open>What the parser accepts.\<close>

lemma callback_fields_result:
  assumes "callback_fields fs = Inr r"
  shows "cb_state r \<noteq> [] \<and> \<not> cb_code_taken r \<and> (cb_status r = CODE_RECEIVED \<longleftrightarrow> cb_code r \<noteq> [])"
  using assms
  by (auto simp: callback_fields_def make_CallbackResult_def split: option.splits if_splits)

lemma ParseOAuthCallbackRequest_accepts:
  assumes "ParseOAuthCallbackRequest request = Inr r"
  shows "length request \<le> MAX_CALLBACK_REQUEST_BYTES \<and> prefix request_prefix request \<and>
     suffix (crlf @ crlf) request \<and> cb_state r \<noteq> [] \<and> \<not> cb_code_taken r \<and>
     (cb_status r = CODE_RECEIVED \<longleftrightarrow> cb_code r \<noteq> [])"
proof -
  from assms obtain header_end line_end fs where
    len: "\<not> (request = [] \<or> MAX_CALLBACK_REQUEST_BYTES < length request)"
    and h: "str_find (crlf @ crlf) request = Some header_end" "header_end + 4 = length request"
    and p: "prefix request_prefix (take line_end request)" and f: "callback_fields fs = Inr r"
    by (auto simp: ParseOAuthCallbackRequest_def Let_def split: if_splits option.splits sum.splits)
  have "prefix request_prefix request" using p take_is_prefix prefix_order.trans by blast
  moreover have "suffix (crlf @ crlf) request"
    using str_find_Some [OF h(1)] h(2) by (auto simp: suffix_def crlf_def)
  ultimately show ?thesis using len callback_fields_result [OF f] by auto
qed

end
