(* ===== verification/OAuth_Origin.thy ===== *)
theory OAuth_Origin
  imports Loopback_Correct
begin

text \<open>
  The login origin and the authorization URL: the origins accepted are exactly the two Salesforce
  login hosts and the well-formed My Domain hosts, and no argument can change the structure of the
  URL the user is sent to.
\<close>

section \<open>My Domain hosts\<close>

lemma IsDnsLabelChar_dot [simp]: "\<not> IsDnsLabelChar CHR ''.''"
  by (simp add: IsDnsLabelChar_def ctype_defs)

lemma dns_label_snd: "dns_label l \<Longrightarrow> c \<in> set l \<Longrightarrow> IsDnsLabelChar c"
  by (auto simp: dns_label_def IsDnsLabelChar_def)

lemma mydomain_loop_labels:
  assumes "\<forall>c \<in> set cur. IsDnsLabelChar c" "cur \<noteq> [] \<longrightarrow> hd cur \<noteq> CHR ''-'' \<and> prev = last cur"
  shows "mydomain_loop (cur = []) (length cur) prev cs \<longleftrightarrow> (\<forall>l \<in> set (split_on CHR ''.'' (cur @ cs)). dns_label l)"
  using assms
proof (induction cs arbitrary: cur prev)
  case Nil
  have "CHR ''.'' \<notin> set cur" using Nil(1) IsDnsLabelChar_dot by blast
  with Nil show ?case by (auto simp: dns_label_def IsDnsLabelChar_def)
next
  case (Cons c cs)
  have dot: "CHR ''.'' \<notin> set cur" using Cons.prems(1) IsDnsLabelChar_dot by blast
  show ?case
  proof (cases "c = CHR ''.''")
    case True
    have "split_on CHR ''.'' (cur @ c # cs) = cur # split_on CHR ''.'' cs"
      using dot by (simp add: True split_on_append)
    moreover have "dns_label cur \<longleftrightarrow> \<not> (cur = [] \<or> 63 < length cur \<or> prev = CHR ''-'')"
      using Cons.prems by (auto simp: dns_label_def IsDnsLabelChar_def)
    ultimately show ?thesis using Cons.IH [of "[]" "CHR ''.''"] True by auto
  next
    case False
    show ?thesis
    proof (cases "\<not> IsDnsLabelChar c \<or> cur = [] \<and> c = CHR ''-''")
      case True
      have "\<exists>l \<in> set (split_on CHR ''.'' (cur @ c # cs)). \<not> dns_label l"
      proof (cases "IsDnsLabelChar c")
        case False
        have "\<exists>f \<in> set (split_on CHR ''.'' (cur @ c # cs)). c \<in> set f"
          using set_split_on [of c "cur @ c # cs" "CHR ''.''"] \<open>c \<noteq> CHR ''.''\<close> by auto
        with False dns_label_snd show ?thesis by blast
      next
        case label: True
        with True have "cur = []" "c = CHR ''-''" by auto
        then show ?thesis by (simp add: dns_label_def)
      qed
      with True False show ?thesis by auto
    next
      case ok: False
      have "mydomain_loop (cur @ [c] = []) (length (cur @ [c])) c cs \<longleftrightarrow>
          (\<forall>l \<in> set (split_on CHR ''.'' ((cur @ [c]) @ cs)). dns_label l)"
        using Cons.prems ok by (intro Cons.IH) (auto simp: hd_append)
      with False ok show ?thesis by (cases "cur = []") auto
    qed
  qed
qed

lemma ValidMyDomainHost_iff:
  "ValidMyDomainHost host \<longleftrightarrow> length host \<le> 253 \<and> dns_host_under mydomain_suffix host"
proof (cases "suffix mydomain_suffix host \<and> length mydomain_suffix < length host")
  case True
  then obtain p where h: "host = p @ mydomain_suffix" by (blast elim: suffixE)
  have "split_on CHR ''.'' (p @ CHR ''.'' # ''my.salesforce.com'') = split_on CHR ''.'' p @ split_on CHR ''.'' ''my.salesforce.com''"
    by (rule split_on_append)
  moreover have "list_all dns_label (split_on CHR ''.'' ''my.salesforce.com'')" by code_simp
  ultimately have "(\<forall>l \<in> set (split_on CHR ''.'' host). dns_label l) \<longleftrightarrow> (\<forall>l \<in> set (split_on CHR ''.'' p). dns_label l)"
    by (auto simp: h mydomain_suffix_def list_all_iff simp del: split_on_Cons)
  then show ?thesis
    using True mydomain_loop_labels [of "[]" "char_of (0::nat)" p]
    by (auto simp: ValidMyDomainHost_def dns_host_under_def h)
next
  case False
  then show ?thesis by (auto simp: ValidMyDomainHost_def dns_host_under_def)
qed

section \<open>The login origin\<close>

definition login_host :: "byte_string \<Rightarrow> bool" where
  "login_host host \<longleftrightarrow> host = ''login.salesforce.com'' \<or> host = ''test.salesforce.com'' \<or>
     length host \<le> 253 \<and> dns_host_under ''.my.salesforce.com'' host"

lemma login_host_chars:
  assumes "login_host host"
  shows "host \<noteq> [] \<and> (\<forall>c \<in> set host. islower c \<or> isdigit c \<or> c = CHR ''-'' \<or> c = CHR ''.'')"
proof (cases "dns_host_under ''.my.salesforce.com'' host")
  case True
  then show ?thesis using dns_host_under_chars dns_host_under_last by blast
next
  case False
  have "list_all (\<lambda>host. host \<noteq> [] \<and> list_all (\<lambda>c. islower c \<or> isdigit c \<or> c = CHR ''-'' \<or> c = CHR ''.'') host)
      [''login.salesforce.com'', ''test.salesforce.com'']" by code_simp
  moreover have "host \<in> set [''login.salesforce.com'', ''test.salesforce.com'']"
    using False assms by (auto simp: login_host_def)
  ultimately show ?thesis unfolding list_all_iff by blast
qed

lemma ValidateSalesforceLoginOrigin_iff:
  "ValidateSalesforceLoginOrigin origin = Inr r \<longleftrightarrow>
     (\<exists>host. login_host host \<and> r = ''https://'' @ host \<and> (origin = r \<or> origin = r @ ''/''))"
proof
  assume v: "ValidateSalesforceLoginOrigin origin = Inr r"
  then obtain host0 where o: "origin = ''https://'' @ host0"
    by (auto simp: ValidateSalesforceLoginOrigin_def prefix_def split: if_splits)
  define host where "host = (if host0 \<noteq> [] \<and> last host0 = CHR ''/'' then butlast host0 else host0)"
  have "login_host host \<and> r = ''https://'' @ host"
    using v unfolding o ValidateSalesforceLoginOrigin_def
    by (auto simp: host_def [symmetric] Let_def ValidMyDomainHost_iff login_host_def mydomain_suffix_def split: if_splits)
  moreover have "host0 = host \<or> host0 = host @ ''/''"
    by (auto simp: host_def) (metis append_butlast_last_id)
  ultimately show "\<exists>host. login_host host \<and> r = ''https://'' @ host \<and> (origin = r \<or> origin = r @ ''/'')"
    using o by auto
next
  assume "\<exists>host. login_host host \<and> r = ''https://'' @ host \<and> (origin = r \<or> origin = r @ ''/'')"
  then obtain host where h: "login_host host" and r: "r = ''https://'' @ host"
    and o: "origin = ''https://'' @ host \<or> origin = ''https://'' @ host @ ''/''" by auto
  note chars = login_host_chars [OF h]
  have slash: "last host \<noteq> CHR ''/''" using chars last_in_set by (fastforce simp: ctype_defs)
  have clean: "str_find_if (\<lambda>c. c \<in> set (''/@:?#'' @ [CHR 0x5C])) host = None"
    unfolding str_find_if_None using chars by (fastforce simp: ctype_defs)
  have valid: "host \<noteq> [] \<and> (host = ''login.salesforce.com'' \<or> host = ''test.salesforce.com'' \<or> ValidMyDomainHost host)"
    using h chars by (auto simp: login_host_def ValidMyDomainHost_iff mydomain_suffix_def)
  show "ValidateSalesforceLoginOrigin origin = Inr r"
    using o slash clean valid unfolding r ValidateSalesforceLoginOrigin_def by (auto simp: Let_def)
qed

section \<open>The authorization URL\<close>

lemma BuildSalesforceAuthorizationUrl_structure:
  assumes "BuildSalesforceAuthorizationUrl login_origin client_id code_challenge state redirect_uri = Inr url"
  shows "\<exists>origin query. ValidateSalesforceLoginOrigin login_origin = Inr origin \<and>
     url = origin @ ''/services/oauth2/authorize?'' @ query \<and>
     split_on CHR ''&'' query =
       [''response_type=code'', ''client_id='' @ PercentEncode client_id,
        ''redirect_uri='' @ PercentEncode FixedOAuthCallbackUrl, ''scope=api%20cdp_query_api'',
        ''code_challenge='' @ PercentEncode code_challenge, ''code_challenge_method=S256'',
        ''state='' @ PercentEncode state] \<and>
     PercentDecode (PercentEncode client_id) = Inr client_id"
proof -
  from assms obtain origin where o: "ValidateSalesforceLoginOrigin login_origin = Inr origin"
    and cl: "length client_id \<le> 1024" "\<not> (\<exists>c \<in> set client_id. code c < 0x20 \<or> code c = 0x7f)"
    and uri: "redirect_uri = FixedOAuthCallbackUrl"
    and url: "url = authorization_url origin client_id code_challenge state redirect_uri"
    unfolding BuildSalesforceAuthorizationUrl_def
    by (auto simp: not_less split: sum.splits if_splits)
  define query where "query = ''response_type=code&client_id='' @ PercentEncode client_id @
                    ''&redirect_uri='' @ PercentEncode redirect_uri @
                    ''&scope=api%20cdp_query_api&code_challenge='' @ PercentEncode code_challenge @
                    ''&code_challenge_method=S256&state='' @ PercentEncode state"
  have "url = origin @ ''/services/oauth2/authorize?'' @ query" by (simp add: url authorization_url_def query_def)
  moreover have "split_on CHR ''&'' query =
       [''response_type=code'', ''client_id='' @ PercentEncode client_id,
        ''redirect_uri='' @ PercentEncode FixedOAuthCallbackUrl, ''scope=api%20cdp_query_api'',
        ''code_challenge='' @ PercentEncode code_challenge, ''code_challenge_method=S256'',
        ''state='' @ PercentEncode state]"
    (is "_ = ?pieces")
  proof -
    have "query = join_on CHR ''&'' ?pieces" by (simp add: query_def uri)
    moreover have "list_all (\<lambda>f. CHR ''&'' \<notin> set f) ?pieces" by (simp add: PercentEncode_clean)
    ultimately show ?thesis by (simp only: split_on_join_on list.distinct not_False_eq_True)
  qed
  moreover have "PercentDecode (PercentEncode client_id) = Inr client_id"
    using cl by (intro PercentDecode_PercentEncode) (auto simp: control_byte_def MAX_CALLBACK_VALUE_BYTES_def)
  ultimately show ?thesis using o by blast
qed

end
