(* ===== verification/Auth_Registry.thy ===== *)
theory Auth_Registry
  imports Error_Codes OAuth_Encoding
begin

text \<open>
  \<open>auth_session_registry.cpp\<close>: the authorization sessions and the credentials of one database. Every
  public operation holds the registry's mutex while it touches the two maps, so it is one step of the
  state; the callback owners it has to stop are stopped after the mutex is released and are recorded
  in the order in which that happens.
\<close>

section \<open>State\<close>

datatype AuthSessionStatus =
    PENDING_USER_ACTION
  | CALLBACK_RECEIVED
  | COMPLETING
  | AUTHORIZED
  | ACCESS_DENIED_STATUS
  | EXPIRED
  | CANCELLED
  | FAILED_STATUS

text \<open>A callback owner is known by a number; stopping it is recorded.\<close>

type_synonym owner = nat

record AuthSession =
  se_status :: AuthSessionStatus
  se_expected_state :: byte_string
  se_pkce_verifier :: byte_string
  se_authorization_code :: byte_string
  se_login_origin :: byte_string
  se_client_id :: byte_string
  se_secret_name :: byte_string
  se_expires_at_ms :: u64
  se_expires_at_utc_micros :: int
  se_fault :: "AuthFault option"
  se_callback_owner :: "owner option"

record Credential =
  cd_instance_url :: byte_string
  cd_access_token :: byte_string
  cd_expires_at_ms :: u64

record AuthStartRequest =
  as_login_origin :: byte_string
  as_client_id :: byte_string
  as_secret_name :: byte_string
  as_expected_state :: byte_string
  as_pkce_verifier :: byte_string
  as_expires_at_monotonic_ms :: u64
  as_expires_at_utc_micros :: int
  as_callback_owner :: "owner option"

record AuthSessionSnapshot =
  sn_status :: AuthSessionStatus
  sn_secret_name :: byte_string
  sn_expires_at_utc_micros :: int
  sn_fault :: "AuthFault option"

record AuthCompletionMaterial =
  cm_authorization_code :: byte_string
  cm_pkce_verifier :: byte_string
  cm_login_origin :: byte_string
  cm_client_id :: byte_string
  cm_secret_name :: byte_string

type_synonym sessions = "(byte_string \<times> AuthSession) list"
type_synonym credentials = "(byte_string \<times> Credential) list"

record 'w Registry =
  rg_world :: 'w
  rg_sessions :: sessions
  rg_credentials :: credentials
  rg_stopped :: "owner list"

text \<open>The random source and the clock of the registry.\<close>

record 'w AuthEnv =
  ae_random :: "'w RandomSource"
  ae_NowMs :: "'w \<Rightarrow> u64 \<times> 'w"

datatype auth_exn = AuthSessionError AuthFault | RandomError oauth_exn

section \<open>Session transitions\<close>

definition Terminal :: "AuthSessionStatus \<Rightarrow> bool" where
  "Terminal st \<longleftrightarrow> st = AUTHORIZED \<or> st = ACCESS_DENIED_STATUS \<or> st = EXPIRED \<or> st = CANCELLED \<or> st = FAILED_STATUS"

definition IsActive :: "AuthSessionStatus \<Rightarrow> bool" where
  "IsActive st \<longleftrightarrow> \<not> Terminal st"

text \<open>\<open>TerminalLocked\<close> gives the session and the owner that was released.\<close>

definition TerminalLocked ::
  "AuthSession \<Rightarrow> AuthSessionStatus \<Rightarrow> AuthFault option \<Rightarrow> bool \<Rightarrow> AuthSession \<times> owner option" where
  "TerminalLocked ses st fault release_owner =
     (if Terminal (se_status ses) then (ses, None)
      else let cleared = ses\<lparr>se_status := st, se_fault := fault, se_expected_state := [],
                             se_pkce_verifier := [], se_authorization_code := []\<rparr>
           in if release_owner then (cleared\<lparr>se_callback_owner := None\<rparr>, se_callback_owner ses)
              else (cleared, None))"

definition ExpireLocked :: "AuthSession \<Rightarrow> u64 \<Rightarrow> bool \<Rightarrow> AuthSession \<times> owner option" where
  "ExpireLocked ses now release_owner =
     (if se_status ses \<noteq> COMPLETING \<and> IsActive (se_status ses) \<and> se_expires_at_ms ses \<le> now
      then TerminalLocked ses EXPIRED (Some SESSION_EXPIRED) release_owner else (ses, None))"

section \<open>Access to the state\<close>

abbreviation put_session :: "byte_string \<Rightarrow> AuthSession \<Rightarrow> ('w Registry, auth_exn, unit) sem" where
  "put_session key ses \<equiv> smodify (rg_sessions_update (map_put key ses))"

definition auth_now :: "'w AuthEnv \<Rightarrow> ('w Registry, auth_exn, u64) sem" where
  "auth_now env s = (case ae_NowMs env (rg_world s) of (t, w) \<Rightarrow> (Inr t, s\<lparr>rg_world := w\<rparr>))"

definition FindLocked :: "byte_string \<Rightarrow> ('w Registry, auth_exn, AuthSession) sem" where
  "FindLocked auth_id =
     sbind (sgets (\<lambda>s. map_of (rg_sessions s) auth_id)) (\<lambda>found.
       case found of None \<Rightarrow> sthrow (AuthSessionError AUTH_SESSION_NOT_FOUND) | Some ses \<Rightarrow> sret ses)"

text \<open>\<open>StopOwners\<close>, and the stopping of one owner where there is one.\<close>

definition StopOwners :: "owner list \<Rightarrow> ('w Registry, auth_exn, unit) sem" where
  "StopOwners owners = smodify (rg_stopped_update (\<lambda>st. rev owners @ st))"

definition stop_owner :: "owner option \<Rightarrow> ('w Registry, auth_exn, unit) sem" where
  "stop_owner ow = (case ow of None \<Rightarrow> sret () | Some o' \<Rightarrow> StopOwners [o'])"

definition draw_id :: "'w AuthEnv \<Rightarrow> ('w Registry, auth_exn, byte_string) sem" where
  "draw_id env s =
     (case GenerateOpaqueId (ae_random env) (rg_world s) of
        (Inl e, w) \<Rightarrow> (Inl (RandomError e), s\<lparr>rg_world := w\<rparr>)
      | (Inr v, w) \<Rightarrow> (Inr v, s\<lparr>rg_world := w\<rparr>))"

text \<open>The attempts to draw an identifier that is not in use; the empty one where all failed.\<close>

fun fresh_id :: "'w AuthEnv \<Rightarrow> nat \<Rightarrow> ('w Registry, auth_exn, byte_string) sem" where
  "fresh_id env 0 = sret []"
| "fresh_id env (Suc attempts) =
     sbind (draw_id env) (\<lambda>v.
     sbind (sgets (\<lambda>s. map_of (rg_sessions s) v = None \<and> map_of (rg_credentials s) v = None)) (\<lambda>unused.
       if unused then sret v else fresh_id env attempts))"

section \<open>Creating sessions\<close>

text \<open>The sweep over all sessions: their new states and the owners released, in key order.\<close>

definition sweep :: "u64 \<Rightarrow> sessions \<Rightarrow> sessions \<times> owner list" where
  "sweep now m =
     (map (\<lambda>(k, ses). (k, fst (ExpireLocked ses now True))) m,
      concat (map (\<lambda>(k, ses). case snd (ExpireLocked ses now True) of None \<Rightarrow> [] | Some ow \<Rightarrow> [ow]) m))"

function evict :: "sessions \<Rightarrow> sessions" where
  "evict m =
     (if 32 \<le> length m
      then case find (\<lambda>e. Terminal (se_status (snd e))) m of
             None \<Rightarrow> m
           | Some e \<Rightarrow> evict (map_erase (fst e) m)
      else m)"
  by pat_completeness auto
termination
proof (relation "measure length")
  fix m :: sessions and e
  assume "find (\<lambda>e. Terminal (se_status (snd e))) m = Some e"
  then have "e \<in> set m" by (auto simp: find_Some_iff)
  then show "(map_erase (fst e) m, m) \<in> measure length"
    by (auto simp: map_erase_def intro!: length_filter_less)
qed simp

declare evict.simps [simp del]

definition active_count :: "sessions \<Rightarrow> nat" where
  "active_count m = length (filter (\<lambda>e. IsActive (se_status (snd e))) m)"

definition session_of_request :: "AuthStartRequest \<Rightarrow> AuthSession" where
  "session_of_request r =
     \<lparr>se_status = PENDING_USER_ACTION, se_expected_state = as_expected_state r,
      se_pkce_verifier = as_pkce_verifier r, se_authorization_code = [],
      se_login_origin = as_login_origin r, se_client_id = as_client_id r,
      se_secret_name = as_secret_name r, se_expires_at_ms = as_expires_at_monotonic_ms r,
      se_expires_at_utc_micros = as_expires_at_utc_micros r, se_fault = None,
      se_callback_owner = as_callback_owner r\<rparr>"

definition limit_reached :: "owner list \<Rightarrow> ('w Registry, auth_exn, 'a) sem" where
  "limit_reached owners = sthen (StopOwners owners) (sthrow (AuthSessionError AUTH_SESSION_LIMIT_REACHED))"

definition Create :: "'w AuthEnv \<Rightarrow> AuthStartRequest \<Rightarrow> ('w Registry, auth_exn, byte_string) sem" where
  "Create env request =
     (if as_expected_state request = [] \<or> as_pkce_verifier request = [] \<or> as_expires_at_monotonic_ms request = 0
      then sthrow (AuthSessionError CALLBACK_PROTOCOL_ERROR)
      else sbind (auth_now env) (\<lambda>now.
        if as_expires_at_monotonic_ms request \<le> now then sthrow (AuthSessionError SESSION_EXPIRED)
        else sbind (sgets (\<lambda>s. snd (sweep now (rg_sessions s)))) (\<lambda>expired_owners.
          sthen (smodify (rg_sessions_update (\<lambda>m. evict (fst (sweep now m)))))
          (sbind (sgets (\<lambda>s. active_count (rg_sessions s))) (\<lambda>active.
             if 4 \<le> active then limit_reached expired_owners
             else sbind (fresh_id env 16) (\<lambda>new_id.
                    if new_id = [] then limit_reached expired_owners
                    else sthen (put_session new_id (session_of_request request))
                         (sthen (StopOwners expired_owners) (sret new_id))))))))"

text \<open>The compatibility entry point, with a time to live.\<close>

definition Create_ttl ::
  "'w AuthEnv \<Rightarrow> byte_string \<Rightarrow> byte_string \<Rightarrow> u64 \<Rightarrow> owner option \<Rightarrow> ('w Registry, auth_exn, byte_string) sem" where
  "Create_ttl env expected_state pkce_verifier ttl_ms callback_owner =
     sbind (auth_now env) (\<lambda>now.
       if ttl_ms = 0 \<or> 0xFFFFFFFFFFFFFFFF - now < ttl_ms then sthrow (AuthSessionError SESSION_EXPIRED)
       else Create env
              \<lparr>as_login_origin = [], as_client_id = [], as_secret_name = [],
               as_expected_state = expected_state, as_pkce_verifier = pkce_verifier,
               as_expires_at_monotonic_ms = now + ttl_ms, as_expires_at_utc_micros = 0,
               as_callback_owner = callback_owner\<rparr>)"

section \<open>Operations on a session\<close>

definition Snapshot :: "'w AuthEnv \<Rightarrow> byte_string \<Rightarrow> ('w Registry, auth_exn, AuthSessionSnapshot) sem" where
  "Snapshot env auth_id =
     sbind (FindLocked auth_id) (\<lambda>ses0.
     sbind (auth_now env) (\<lambda>now.
       let (ses1, ow1) = ExpireLocked ses0 now True;
           (ses, ow) = (if Terminal (se_status ses1) \<and> ow1 = None
                        then (ses1\<lparr>se_callback_owner := None\<rparr>, se_callback_owner ses1) else (ses1, ow1))
       in sthen (put_session auth_id ses)
          (sthen (stop_owner ow)
            (sret \<lparr>sn_status = se_status ses, sn_secret_name = se_secret_name ses,
                   sn_expires_at_utc_micros = se_expires_at_utc_micros ses, sn_fault = se_fault ses\<rparr>))))"

definition Status :: "'w AuthEnv \<Rightarrow> byte_string \<Rightarrow> ('w Registry, auth_exn, AuthSessionStatus) sem" where
  "Status env auth_id = sbind (Snapshot env auth_id) (\<lambda>sn. sret (sn_status sn))"

definition ReceiveCallback ::
  "'w AuthEnv \<Rightarrow> byte_string \<Rightarrow> byte_string \<Rightarrow> byte_string \<Rightarrow> ('w Registry, auth_exn, unit) sem" where
  "ReceiveCallback env auth_id state authorization_code =
     sbind (FindLocked auth_id) (\<lambda>ses0.
     sbind (auth_now env) (\<lambda>now.
       let ses = fst (ExpireLocked ses0 now False)
       in if se_status ses \<noteq> PENDING_USER_ACTION \<or> authorization_code = []
          then sthen (put_session auth_id ses) (sthrow (AuthSessionError CALLBACK_PROTOCOL_ERROR))
          else if \<not> ConstantTimeEquals (se_expected_state ses) state
          then sthen (put_session auth_id (fst (TerminalLocked ses FAILED_STATUS (Some STATE_MISMATCH) False)))
                 (sthrow (AuthSessionError STATE_MISMATCH))
          else put_session auth_id
                 (ses\<lparr>se_authorization_code := authorization_code, se_expected_state := [],
                      se_status := CALLBACK_RECEIVED\<rparr>)))"

definition ReceiveDenied :: "'w AuthEnv \<Rightarrow> byte_string \<Rightarrow> byte_string \<Rightarrow> ('w Registry, auth_exn, unit) sem" where
  "ReceiveDenied env auth_id state =
     sbind (FindLocked auth_id) (\<lambda>ses0.
     sbind (auth_now env) (\<lambda>now.
       let ses = fst (ExpireLocked ses0 now False)
       in if se_status ses \<noteq> PENDING_USER_ACTION
          then sthen (put_session auth_id ses) (sthrow (AuthSessionError CALLBACK_PROTOCOL_ERROR))
          else if \<not> ConstantTimeEquals (se_expected_state ses) state
          then sthen (put_session auth_id (fst (TerminalLocked ses FAILED_STATUS (Some STATE_MISMATCH) False)))
                 (sthrow (AuthSessionError STATE_MISMATCH))
          else put_session auth_id (fst (TerminalLocked ses ACCESS_DENIED_STATUS (Some USER_DENIED) False))))"

text \<open>The code and the verifier are moved out of the session, which keeps empty strings.\<close>

definition BeginCompletion :: "'w AuthEnv \<Rightarrow> byte_string \<Rightarrow> ('w Registry, auth_exn, AuthCompletionMaterial) sem" where
  "BeginCompletion env auth_id =
     sbind (FindLocked auth_id) (\<lambda>ses0.
     sbind (auth_now env) (\<lambda>now.
       let (ses, ow) = ExpireLocked ses0 now True
       in if se_status ses \<noteq> CALLBACK_RECEIVED
          then sthen (put_session auth_id ses)
               (sthen (stop_owner ow) (sthrow (AuthSessionError CALLBACK_PROTOCOL_ERROR)))
          else sthen (put_session auth_id
                       (ses\<lparr>se_status := COMPLETING, se_authorization_code := [], se_pkce_verifier := []\<rparr>))
               (sret \<lparr>cm_authorization_code = se_authorization_code ses, cm_pkce_verifier = se_pkce_verifier ses,
                      cm_login_origin = se_login_origin ses, cm_client_id = se_client_id ses,
                      cm_secret_name = se_secret_name ses\<rparr>)))"

text \<open>The end of a session by the completion path, and by everybody else.\<close>

definition finish_session ::
  "byte_string \<Rightarrow> AuthSessionStatus \<Rightarrow> AuthFault option \<Rightarrow> AuthSession \<Rightarrow> ('w Registry, auth_exn, unit) sem" where
  "finish_session auth_id st fault ses =
     (let (ses', ow) = TerminalLocked ses st fault True
      in sthen (put_session auth_id ses') (stop_owner ow))"

definition FinishAuthorized :: "byte_string \<Rightarrow> ('w Registry, auth_exn, unit) sem" where
  "FinishAuthorized auth_id =
     sbind (FindLocked auth_id) (\<lambda>ses.
       if se_status ses \<noteq> COMPLETING then sthrow (AuthSessionError CALLBACK_PROTOCOL_ERROR)
       else finish_session auth_id AUTHORIZED None ses)"

definition FinishFailed :: "byte_string \<Rightarrow> AuthFault \<Rightarrow> ('w Registry, auth_exn, unit) sem" where
  "FinishFailed auth_id fault =
     sbind (FindLocked auth_id) (\<lambda>ses.
       if se_status ses \<noteq> COMPLETING then sthrow (AuthSessionError CALLBACK_PROTOCOL_ERROR)
       else finish_session auth_id FAILED_STATUS (Some fault) ses)"

definition Fail :: "byte_string \<Rightarrow> AuthFault \<Rightarrow> ('w Registry, auth_exn, unit) sem" where
  "Fail auth_id fault =
     sbind (FindLocked auth_id) (\<lambda>ses.
       if se_status ses = COMPLETING then sret ()
       else finish_session auth_id FAILED_STATUS (Some fault) ses)"

definition CancelSession :: "byte_string \<Rightarrow> ('w Registry, auth_exn, unit) sem" where
  "CancelSession auth_id =
     sbind (FindLocked auth_id) (\<lambda>ses.
       if se_status ses = COMPLETING then sret ()
       else finish_session auth_id CANCELLED None ses)"

definition StopCallback :: "byte_string \<Rightarrow> ('w Registry, auth_exn, unit) sem" where
  "StopCallback auth_id =
     sbind (sgets (\<lambda>s. map_of (rg_sessions s) auth_id)) (\<lambda>found.
       case found of
         None \<Rightarrow> sret ()
       | Some ses \<Rightarrow>
           sthen (put_session auth_id (ses\<lparr>se_callback_owner := None\<rparr>)) (stop_owner (se_callback_owner ses)))"

section \<open>Credentials\<close>

definition StoreCredential ::
  "'w AuthEnv \<Rightarrow> byte_string \<Rightarrow> byte_string \<Rightarrow> u64 \<Rightarrow> ('w Registry, auth_exn, byte_string) sem" where
  "StoreCredential env instance_url access_token expires_at_ms =
     (if instance_url = [] \<or> access_token = [] then sthrow (AuthSessionError REAUTH_REQUIRED)
      else sbind (auth_now env) (\<lambda>now0.
        if expires_at_ms \<le> now0 then sthrow (AuthSessionError REAUTH_REQUIRED)
        else sbind (auth_now env) (\<lambda>now.
          sthen (smodify (rg_credentials_update (filter (\<lambda>e. \<not> cd_expires_at_ms (snd e) \<le> now))))
          (sthen (sguard (\<lambda>s. 16 \<le> length (rg_credentials s)) (AuthSessionError AUTH_SESSION_LIMIT_REACHED))
          (sbind (fresh_id env 16) (\<lambda>new_id.
             if new_id = [] then sthrow (AuthSessionError AUTH_SESSION_LIMIT_REACHED)
             else sthen (smodify (rg_credentials_update (map_put new_id
                      \<lparr>cd_instance_url = instance_url, cd_access_token = access_token,
                       cd_expires_at_ms = expires_at_ms\<rparr>)))
                  (sret new_id)))))))"

definition ResolveCredential :: "'w AuthEnv \<Rightarrow> byte_string \<Rightarrow> ('w Registry, auth_exn, byte_string \<times> byte_string) sem" where
  "ResolveCredential env credential_id =
     sbind (sgets (\<lambda>s. map_of (rg_credentials s) credential_id)) (\<lambda>found.
       case found of
         None \<Rightarrow> sthrow (AuthSessionError REAUTH_REQUIRED)
       | Some c \<Rightarrow>
           sbind (auth_now env) (\<lambda>now.
             if cd_expires_at_ms c \<le> now
             then sthen (smodify (rg_credentials_update (map_erase credential_id)))
                    (sthrow (AuthSessionError REAUTH_REQUIRED))
             else sret (cd_instance_url c, cd_access_token c)))"

definition RemoveCredential :: "byte_string \<Rightarrow> ('w Registry, auth_exn, unit) sem" where
  "RemoveCredential credential_id = smodify (rg_credentials_update (map_erase credential_id))"

definition SessionCount :: "'w Registry \<Rightarrow> nat" where
  "SessionCount s = length (rg_sessions s)"

definition CredentialCount :: "'w Registry \<Rightarrow> nat" where
  "CredentialCount s = length (rg_credentials s)"

text \<open>The destructor stops the owners still held.\<close>

definition destroy_registry :: "('w Registry, auth_exn, unit) sem" where
  "destroy_registry =
     sbind (sgets rg_sessions) (\<lambda>owned.
     sthen (smodify (\<lambda>s. s\<lparr>rg_sessions := [], rg_credentials := []\<rparr>))
       (StopOwners (concat (map (\<lambda>e. case se_callback_owner (snd e) of None \<Rightarrow> [] | Some ow \<Rightarrow> [ow]) owned))))"

fun AuthStatusName :: "AuthSessionStatus \<Rightarrow> byte_string" where
  "AuthStatusName PENDING_USER_ACTION = ''PENDING_USER_ACTION''"
| "AuthStatusName CALLBACK_RECEIVED = ''CALLBACK_RECEIVED''"
| "AuthStatusName COMPLETING = ''CALLBACK_RECEIVED''"
| "AuthStatusName AUTHORIZED = ''AUTHORIZED''"
| "AuthStatusName ACCESS_DENIED_STATUS = ''ACCESS_DENIED''"
| "AuthStatusName EXPIRED = ''EXPIRED''"
| "AuthStatusName CANCELLED = ''CANCELLED''"
| "AuthStatusName FAILED_STATUS = ''FAILED''"

end
