(* ===== verification/Auth_Invariants.thy ===== *)
theory Auth_Invariants
  imports Auth_Registry
begin

text \<open>
  The authorization sessions as a state machine. \<open>may_move\<close> is the abstract life of a session; every
  operation of the registry moves every session along it or leaves it alone, and keeps the
  invariant: bounded maps, and the secrets of a session present exactly while they are needed.
\<close>

section \<open>The life of a session\<close>

inductive may_move :: "AuthSessionStatus \<Rightarrow> AuthSessionStatus \<Rightarrow> bool" where
  receive: "may_move PENDING_USER_ACTION CALLBACK_RECEIVED"
| deny: "may_move PENDING_USER_ACTION ACCESS_DENIED_STATUS"
| begin_completion: "may_move CALLBACK_RECEIVED COMPLETING"
| authorize: "may_move COMPLETING AUTHORIZED"
| fail_completion: "may_move COMPLETING FAILED_STATUS"
| give_up: "st = PENDING_USER_ACTION \<or> st = CALLBACK_RECEIVED \<Longrightarrow>
    st' = EXPIRED \<or> st' = CANCELLED \<or> st' = FAILED_STATUS \<Longrightarrow> may_move st st'"

inductive_simps may_move_iff: "may_move st st'"
inductive_cases may_move_from_completing: "may_move COMPLETING st'"

lemma may_move_active: "may_move st st' \<Longrightarrow> \<not> Terminal st"
  by (auto simp: may_move_iff Terminal_def)

definition moves :: "AuthSession \<Rightarrow> AuthSession \<Rightarrow> bool" where
  "moves ses ses' \<longleftrightarrow> se_status ses' = se_status ses \<or> may_move (se_status ses) (se_status ses')"

text \<open>What a session holds in each of its states.\<close>

definition session_ok :: "AuthSession \<Rightarrow> bool" where
  "session_ok ses \<longleftrightarrow>
     (case se_status ses of
        PENDING_USER_ACTION \<Rightarrow>
          se_expected_state ses \<noteq> [] \<and> se_pkce_verifier ses \<noteq> [] \<and> se_authorization_code ses = []
      | CALLBACK_RECEIVED \<Rightarrow>
          se_expected_state ses = [] \<and> se_pkce_verifier ses \<noteq> [] \<and> se_authorization_code ses \<noteq> []
      | _ \<Rightarrow> se_expected_state ses = [] \<and> se_pkce_verifier ses = [] \<and> se_authorization_code ses = []) \<and>
     (se_fault ses \<noteq> None \<longleftrightarrow>
        se_status ses = ACCESS_DENIED_STATUS \<or> se_status ses = EXPIRED \<or> se_status ses = FAILED_STATUS)"

definition evolves :: "AuthSession \<Rightarrow> AuthSession \<Rightarrow> bool" where
  "evolves ses ses' \<longleftrightarrow> moves ses ses' \<and> (session_ok ses \<longrightarrow> session_ok ses')"

text \<open>
  \<open>retires\<close>: the session keeps its data, or leaves the two states in which its secrets are used. The
  callback is the only change of a session that is not of this kind.
\<close>

definition identity :: "AuthSession \<Rightarrow> byte_string \<times> byte_string \<times> byte_string \<times> u64" where
  "identity ses = (se_login_origin ses, se_client_id ses, se_secret_name ses, se_expires_at_ms ses)"

definition awaited :: "AuthSession \<Rightarrow> AuthSessionStatus \<times> byte_string \<times> byte_string \<times> byte_string" where
  "awaited ses = (se_status ses, se_expected_state ses, se_pkce_verifier ses, se_authorization_code ses)"

definition retires :: "AuthSession \<Rightarrow> AuthSession \<Rightarrow> bool" where
  "retires ses ses' \<longleftrightarrow> evolves ses ses' \<and> identity ses' = identity ses \<and>
     (awaited ses' = awaited ses \<or> se_status ses' \<noteq> PENDING_USER_ACTION \<and> se_status ses' \<noteq> CALLBACK_RECEIVED)"

lemma evolves_refl [simp]: "evolves ses ses"
  by (simp add: evolves_def moves_def)

lemma retires_refl [simp]: "retires ses ses"
  by (simp add: retires_def)

lemma retires_evolves: "retires ses ses' \<Longrightarrow> evolves ses ses'"
  by (simp add: retires_def)

lemma evolves_owner [simp]: "evolves ses (ses'\<lparr>se_callback_owner := ow\<rparr>) = evolves ses ses'"
  by (simp add: evolves_def moves_def session_ok_def cong: AuthSessionStatus.case_cong)

lemma retires_owner [simp]: "retires ses (ses'\<lparr>se_callback_owner := ow\<rparr>) = retires ses ses'"
  by (simp add: retires_def identity_def awaited_def)

lemma session_ok_cleared:
  "Terminal st \<Longrightarrow> (fault \<noteq> None \<longleftrightarrow> st = ACCESS_DENIED_STATUS \<or> st = EXPIRED \<or> st = FAILED_STATUS) \<Longrightarrow>
     session_ok (ses\<lparr>se_status := st, se_fault := fault, se_expected_state := [], se_pkce_verifier := [],
                     se_authorization_code := []\<rparr>)"
  by (cases st) (auto simp: session_ok_def Terminal_def)

lemma Terminal_cases: "Terminal st \<longleftrightarrow> st \<noteq> PENDING_USER_ACTION \<and> st \<noteq> CALLBACK_RECEIVED \<and> st \<noteq> COMPLETING"
  by (cases st) (auto simp: Terminal_def)

lemma TerminalLocked_retires:
  assumes "\<not> Terminal (se_status ses) \<longrightarrow> may_move (se_status ses) st" "Terminal st"
    and "fault \<noteq> None \<longleftrightarrow> st = ACCESS_DENIED_STATUS \<or> st = EXPIRED \<or> st = FAILED_STATUS"
  shows "retires ses (fst (TerminalLocked ses st fault rel))"
proof -
  have "retires ses (ses\<lparr>se_status := st, se_fault := fault, se_expected_state := [], se_pkce_verifier := [],
                     se_authorization_code := []\<rparr>)" if "\<not> Terminal (se_status ses)"
    unfolding retires_def evolves_def moves_def identity_def
    using that assms(1,2) session_ok_cleared [OF assms(2,3)] by (simp add: Terminal_cases)
  then show ?thesis by (simp add: TerminalLocked_def Let_def)
qed

lemma IsActive_cases: "IsActive st \<longleftrightarrow> st = PENDING_USER_ACTION \<or> st = CALLBACK_RECEIVED \<or> st = COMPLETING"
  by (cases st) (auto simp: IsActive_def Terminal_def)

lemma ExpireLocked_retires: "retires ses (fst (ExpireLocked ses now rel))"
  unfolding ExpireLocked_def
  by (auto intro!: TerminalLocked_retires simp: IsActive_cases may_move_iff Terminal_def)

lemma ExpireLocked_status:
  "se_status (fst (ExpireLocked ses now rel)) = PENDING_USER_ACTION \<Longrightarrow>
     fst (ExpireLocked ses now rel) = ses \<and> now < se_expires_at_ms ses"
  "se_status (fst (ExpireLocked ses now rel)) = CALLBACK_RECEIVED \<Longrightarrow>
     ExpireLocked ses now rel = (ses, None) \<and> now < se_expires_at_ms ses"
  by (auto simp: ExpireLocked_def TerminalLocked_def Let_def IsActive_cases Terminal_def not_le split: if_splits)

section \<open>The maps\<close>

definition registry_ok :: "'w Registry \<Rightarrow> bool" where
  "registry_ok s \<longleftrightarrow>
     map_wf (rg_sessions s) \<and> map_wf (rg_credentials s) \<and>
     length (rg_sessions s) \<le> 32 \<and> active_count (rg_sessions s) \<le> 4 \<and> length (rg_credentials s) \<le> 16 \<and>
     (\<forall>k ses. map_of (rg_sessions s) k = Some ses \<longrightarrow> k \<noteq> [] \<and> session_ok ses) \<and>
     (\<forall>k c. map_of (rg_credentials s) k = Some c \<longrightarrow>
        k \<noteq> [] \<and> cd_instance_url c \<noteq> [] \<and> cd_access_token c \<noteq> [] \<and> map_of (rg_sessions s) k = None)"

lemma session_ok_ended:
  "session_ok ses \<Longrightarrow> Terminal (se_status ses) \<Longrightarrow>
     se_expected_state ses = [] \<and> se_pkce_verifier ses = [] \<and> se_authorization_code ses = [] \<and>
     (se_fault ses = None \<longleftrightarrow> se_status ses = AUTHORIZED \<or> se_status ses = CANCELLED)"
  by (cases "se_status ses") (auto simp: session_ok_def Terminal_def)

lemma registry_ok_ended:
  "registry_ok s \<Longrightarrow> map_of (rg_sessions s) key = Some ses \<Longrightarrow> Terminal (se_status ses) \<Longrightarrow>
     se_expected_state ses = [] \<and> se_pkce_verifier ses = [] \<and> se_authorization_code ses = [] \<and>
     (se_fault ses = None \<longleftrightarrow> se_status ses = AUTHORIZED \<or> se_status ses = CANCELLED)"
  by (rule session_ok_ended) (simp_all add: registry_ok_def)

lemma active_count_simps [simp]:
  "active_count [] = 0"
  "active_count (e # m) = (if IsActive (se_status (snd e)) then 1 else 0) + active_count m"
  by (simp_all add: active_count_def)

lemma active_count_put:
  assumes "map_wf m" "map_of m k = Some ses" "IsActive (se_status ses') \<longrightarrow> IsActive (se_status ses)"
  shows "active_count (map_put k ses' m) \<le> active_count m"
  using assms
proof (induction m)
  case (Cons e m)
  obtain k' v' where e: "e = (k', v')" by force
  show ?case
  proof (cases "k = k'")
    case True
    with Cons.prems e show ?thesis by simp
  next
    case False
    with Cons.prems e have m: "map_of m k = Some ses" by simp
    then have "k \<in> fst ` set m" by (metis map_of_SomeD imageI fst_conv)
    then have "\<not> k < k'" using Cons.prems(1) e by auto
    with False Cons m e show ?thesis by simp
  qed
qed simp

lemma active_count_insert: "map_of m k = None \<Longrightarrow> active_count (map_put k ses m) \<le> Suc (active_count m)"
  by (induction m) (auto split: if_splits)

lemma active_count_filter: "active_count (filter P m) \<le> active_count m"
  by (induction m) auto

text \<open>One session of the registry changes, along its life, and nothing else.\<close>

definition touches ::
  "(AuthSession \<Rightarrow> AuthSession \<Rightarrow> bool) \<Rightarrow> byte_string \<Rightarrow> 'w Registry \<Rightarrow> 'w Registry \<Rightarrow> bool" where
  "touches R key s s' \<longleftrightarrow> rg_credentials s' = rg_credentials s \<and>
     (rg_sessions s' = rg_sessions s \<or>
      (\<exists>ses ses'. map_of (rg_sessions s) key = Some ses \<and> R ses ses' \<and>
         rg_sessions s' = map_put key ses' (rg_sessions s)))"

lemma touches_ok:
  assumes "touches evolves key s s'" "registry_ok s"
  shows "registry_ok s'"
proof (cases "rg_sessions s' = rg_sessions s")
  case True
  with assms show ?thesis by (simp add: touches_def registry_ok_def)
next
  case False
  with assms(1) obtain ses ses' where m: "map_of (rg_sessions s) key = Some ses" and e: "evolves ses ses'"
    and s': "rg_sessions s' = map_put key ses' (rg_sessions s)" "rg_credentials s' = rg_credentials s"
    by (auto simp: touches_def)
  have "IsActive (se_status ses') \<longrightarrow> IsActive (se_status ses)"
    using e may_move_active by (auto simp: evolves_def moves_def IsActive_def)
  then have "active_count (rg_sessions s') \<le> active_count (rg_sessions s)"
    using assms(2) m by (simp add: s' active_count_put registry_ok_def)
  moreover have "map_of (rg_credentials s) key = None"
    using assms(2) m by (cases "map_of (rg_credentials s) key") (auto simp: registry_ok_def)
  ultimately show ?thesis
    using assms(2) m e
    by (auto simp: registry_ok_def s' smap.invar_put smap.size_put smap.find_put evolves_def split: if_splits)
qed

lemma touches_moves:
  "touches evolves key s s' \<Longrightarrow> map_of (rg_sessions s') k = Some ses' \<Longrightarrow>
     \<exists>ses. map_of (rg_sessions s) k = Some ses \<and> moves ses ses'"
  by (auto simp: touches_def smap.find_put evolves_def moves_def split: if_splits)

section \<open>Operations on one session\<close>

lemma stop_owner_run: "stop_owner ow s = (Inr (), s\<lparr>rg_stopped := (case ow of None \<Rightarrow> [] | Some x \<Rightarrow> [x]) @ rg_stopped s\<rparr>)"
  by (simp add: stop_owner_def StopOwners_def sem_defs split: option.split)

lemma auth_now_run: "auth_now env s = (Inr (fst (ae_NowMs env (rg_world s))), s\<lparr>rg_world := snd (ae_NowMs env (rg_world s))\<rparr>)"
  by (simp add: auth_now_def split: prod.split)

lemma touches_same: "rg_sessions s' = rg_sessions s \<Longrightarrow> rg_credentials s' = rg_credentials s \<Longrightarrow> touches R key s s'"
  by (simp add: touches_def)

lemma touches_put:
  "map_of (rg_sessions s) key = Some ses \<Longrightarrow> R ses ses' \<Longrightarrow>
     rg_sessions s' = map_put key ses' (rg_sessions s) \<Longrightarrow> rg_credentials s' = rg_credentials s \<Longrightarrow> touches R key s s'"
  by (auto simp: touches_def)

lemmas registry_runs = sem_defs auth_now_run stop_owner_run

lemma FindLocked_run:
  "FindLocked key s = (case map_of (rg_sessions s) key of
     None \<Rightarrow> (Inl (AuthSessionError AUTH_SESSION_NOT_FOUND), s) | Some ses \<Rightarrow> (Inr ses, s))"
  by (simp add: FindLocked_def sem_defs split: option.split)

lemma touches_Snapshot: "touches retires key s (snd (Snapshot env key s))"
proof (cases "map_of (rg_sessions s) key")
  case None
  then show ?thesis by (simp add: Snapshot_def sbind_def FindLocked_run touches_same)
next
  case (Some ses)
  define now where "now = fst (ae_NowMs env (rg_world s))"
  have "rg_sessions (snd (Snapshot env key s)) = map_put key (fst (ExpireLocked ses now True)) (rg_sessions s) \<or>
     rg_sessions (snd (Snapshot env key s)) =
       map_put key ((fst (ExpireLocked ses now True))\<lparr>se_callback_owner := None\<rparr>) (rg_sessions s)"
    and "rg_credentials (snd (Snapshot env key s)) = rg_credentials s"
    using Some by (auto simp: Snapshot_def FindLocked_run registry_runs now_def Let_def split: prod.split)
  moreover have "retires ses (fst (ExpireLocked ses now True))"
    and "retires ses ((fst (ExpireLocked ses now True))\<lparr>se_callback_owner := None\<rparr>)"
    using ExpireLocked_retires by simp_all
  ultimately show ?thesis using Some touches_put by metis
qed

lemma touches_Status: "touches retires key s (snd (Status env key s))"
  using touches_Snapshot [of key s env]
  by (auto simp: Status_def sbind_def sret_def split: prod.splits sum.splits)

lemma touches_found:
  assumes "\<And>ses. map_of (rg_sessions s) key = Some ses \<Longrightarrow> touches R key s (snd (k ses s))"
  shows "touches R key s (snd (sbind (FindLocked key) k s))"
  using assms by (auto simp: sbind_def FindLocked_run touches_same split: option.split)

lemma touches_mono: "touches R key s s' \<Longrightarrow> (\<And>a b. R a b \<Longrightarrow> R' a b) \<Longrightarrow> touches R' key s s'"
  by (auto simp: touches_def)

lemma touches_finish_session:
  assumes "map_of (rg_sessions s) key = Some ses"
    and "\<not> Terminal (se_status ses) \<longrightarrow> may_move (se_status ses) st" "Terminal st"
    and "fault \<noteq> None \<longleftrightarrow> st = ACCESS_DENIED_STATUS \<or> st = EXPIRED \<or> st = FAILED_STATUS"
  shows "touches retires key s (snd (finish_session key st fault ses s))"
  using TerminalLocked_retires [OF assms(2-), of True] assms(1)
  by (auto simp: finish_session_def registry_runs split: prod.split intro: touches_put)

lemma touches_finishing:
  "touches retires key s (snd (FinishAuthorized key s))"
  "touches retires key s (snd (FinishFailed key fault s))"
  "touches retires key s (snd (Fail key fault s))"
  "touches retires key s (snd (CancelSession key s))"
  unfolding FinishAuthorized_def FinishFailed_def Fail_def CancelSession_def
  by (auto intro!: touches_found touches_finish_session
      simp: Terminal_cases may_move_iff touches_same run_basic)

lemma touches_StopCallback: "touches retires key s (snd (StopCallback key s))"
  by (auto simp: StopCallback_def registry_runs touches_same split: option.split
      intro!: touches_put)

lemma touches_found_now:
  assumes "\<And>ses now s1. map_of (rg_sessions s) key = Some ses \<Longrightarrow> rg_sessions s1 = rg_sessions s \<Longrightarrow>
      rg_credentials s1 = rg_credentials s \<Longrightarrow> touches R key s (snd (k ses now s1))"
  shows "touches R key s (snd (sbind (FindLocked key) (\<lambda>ses. sbind (auth_now env) (k ses)) s))"
  by (rule touches_found) (auto simp: sbind_def auth_now_run intro: assms)

lemma ExpireLocked_completes:
  assumes "se_status (fst (ExpireLocked ses now rel)) = CALLBACK_RECEIVED"
  shows "retires ses ((fst (ExpireLocked ses now rel))\<lparr>se_status := COMPLETING, se_authorization_code := [],
           se_pkce_verifier := []\<rparr>)"
  using assms ExpireLocked_status(2) [OF assms]
  by (auto simp: retires_def identity_def evolves_def moves_def session_ok_def may_move.intros)

lemma touches_BeginCompletion: "touches retires key s (snd (BeginCompletion env key s))"
  unfolding BeginCompletion_def
  apply (rule touches_found_now)
  subgoal for ses now s1
    using ExpireLocked_retires [of ses now True] ExpireLocked_completes [of ses now True]
    by (auto simp: registry_runs split: prod.split intro: touches_put)
  done

lemma ExpireLocked_receives:
  assumes "se_status (fst (ExpireLocked ses now rel)) = PENDING_USER_ACTION" "auth_code \<noteq> []"
  shows "evolves ses ((fst (ExpireLocked ses now rel))\<lparr>se_authorization_code := auth_code, se_expected_state := [],
           se_status := CALLBACK_RECEIVED\<rparr>)"
  using assms ExpireLocked_status(1) [OF assms(1)]
  by (auto simp: evolves_def moves_def session_ok_def may_move.intros)

lemma ExpireLocked_terminates:
  assumes "se_status (fst (ExpireLocked ses now rel)) = PENDING_USER_ACTION"
    and "st = FAILED_STATUS \<or> st = ACCESS_DENIED_STATUS"
  shows "retires ses (fst (TerminalLocked (fst (ExpireLocked ses now rel)) st (Some fault) rel'))"
  using assms ExpireLocked_status(1) [OF assms(1)]
  by (auto intro!: TerminalLocked_retires simp: Terminal_cases may_move_iff)

lemma touches_update:
  "map_of (rg_sessions s) key = Some ses \<Longrightarrow> rg_sessions s1 = rg_sessions s \<Longrightarrow>
     rg_credentials s1 = rg_credentials s \<Longrightarrow> R ses ses' \<Longrightarrow>
     touches R key s (rg_sessions_update (map_put key ses') s1)"
  by (rule touches_put) simp_all

lemma touches_ReceiveCallback: "touches evolves key s (snd (ReceiveCallback env key state auth_code s))"
  unfolding ReceiveCallback_def
  by (rule touches_found_now)
    (auto simp: registry_runs Let_def retires_evolves ExpireLocked_retires
      ExpireLocked_receives ExpireLocked_terminates
      intro: touches_update)

lemma touches_ReceiveDenied: "touches retires key s (snd (ReceiveDenied env key state s))"
  unfolding ReceiveDenied_def
  by (rule touches_found_now)
    (auto simp: registry_runs Let_def ExpireLocked_retires ExpireLocked_terminates intro: touches_update)

lemmas touches_retires = touches_Snapshot touches_Status touches_ReceiveDenied touches_BeginCompletion
  touches_finishing touches_StopCallback

lemma touches_evolves: "touches retires key s s' \<Longrightarrow> touches evolves key s s'"
  by (erule touches_mono) (rule retires_evolves)

end
