(* ===== verification/Auth_Runs.thy ===== *)
theory Auth_Runs
  imports Auth_Invariants
begin

text \<open>
  Runs of the registry: any sequence of calls, each of which may return or throw. The registry
  refines a machine that only knows the status of each session, keeps its invariant, and releases an
  authorization code only once, with the verifier of the session that received it.
\<close>

section \<open>The abstract registry\<close>

inductive spec_step :: "(byte_string \<rightharpoonup> AuthSessionStatus) \<Rightarrow> (byte_string \<rightharpoonup> AuthSessionStatus) \<Rightarrow> bool" where
  open_session: "m k = None \<Longrightarrow> spec_step m (m(k \<mapsto> PENDING_USER_ACTION))"
| move_session: "m k = Some st \<Longrightarrow> may_move st st' \<Longrightarrow> spec_step m (m(k \<mapsto> st'))"
| forget_session: "m k = Some st \<Longrightarrow> Terminal st \<Longrightarrow> spec_step m (m(k := None))"

definition statuses :: "sessions \<Rightarrow> byte_string \<rightharpoonup> AuthSessionStatus" where
  "statuses m k = map_option se_status (map_of m k)"

lemma statuses_put: "statuses (map_put k ses m) = (statuses m)(k \<mapsto> se_status ses)"
  by (auto simp: statuses_def smap.find_put)

lemma statuses_erase: "statuses (map_erase k m) = (statuses m)(k := None)"
  by (auto simp: statuses_def smap.find_erase)

lemma spec_moves:
  assumes "finite D" and "\<And>k. k \<notin> D \<Longrightarrow> m' k = m k"
    and "\<And>k. k \<in> D \<Longrightarrow> \<exists>st st'. m k = Some st \<and> m' k = Some st' \<and> may_move st st'"
  shows "spec_step\<^sup>*\<^sup>* m m'"
  using assms
proof (induction D arbitrary: m)
  case empty
  then have "m' = m" by auto
  then show ?case by simp
next
  case (insert k D)
  from insert.prems(2) [of k] obtain st st' where k: "m k = Some st" "m' k = Some st'" "may_move st st'" by auto
  have "spec_step\<^sup>*\<^sup>* (m(k \<mapsto> st')) m'"
    using insert.prems insert.hyps k by (intro insert.IH) (auto split: if_splits)
  with move_session [of m, OF k(1,3)] show ?case by (rule converse_rtranclp_into_rtranclp)
qed

lemma spec_moves_pointwise:
  assumes "\<And>k. rel_option (\<lambda>st st'. st' = st \<or> may_move st st') (m k) (m' k)" "finite (dom m)"
  shows "spec_step\<^sup>*\<^sup>* m m'"
proof (rule spec_moves)
  show "finite {k \<in> dom m. m' k \<noteq> m k}" using assms(2) by simp
  show "m' k = m k" if "k \<notin> {k \<in> dom m. m' k \<noteq> m k}" for k
    using that assms(1) [of k] by (auto simp: dom_def option_rel_Some1)
  show "\<exists>st st'. m k = Some st \<and> m' k = Some st' \<and> may_move st st'" if "k \<in> {k \<in> dom m. m' k \<noteq> m k}" for k
    using that assms(1) [of k] by (auto simp: option_rel_Some1)
qed

lemma finite_statuses: "finite (dom (statuses m))"
proof -
  have "dom (statuses m) = dom (map_of m)" by (auto simp: statuses_def dom_def)
  then show ?thesis by (simp add: finite_dom_map_of)
qed

lemma touches_spec:
  assumes "touches evolves key s s'"
  shows "spec_step\<^sup>*\<^sup>* (statuses (rg_sessions s)) (statuses (rg_sessions s'))"
proof (rule spec_moves_pointwise)
  show "rel_option (\<lambda>st st'. st' = st \<or> may_move st st')
      (statuses (rg_sessions s) k) (statuses (rg_sessions s') k)" for k
    using assms unfolding touches_def
    by (auto simp: smap.find_put evolves_def moves_def statuses_def option.rel_refl)
qed (rule finite_statuses)

section \<open>Making room\<close>

lemma map_of_sweep: "map_of (fst (sweep now m)) k = map_option (\<lambda>ses. fst (ExpireLocked ses now True)) (map_of m k)"
  by (induction m) (auto simp: sweep_def)

lemma sweep_shape [simp]:
  "length (fst (sweep now m)) = length m"
  "map_wf (fst (sweep now m)) = map_wf m"
  using map_wf_map_values [of "\<lambda>_ ses. fst (ExpireLocked ses now True)" m] by (simp_all add: sweep_def)

lemma sweep_spec: "spec_step\<^sup>*\<^sup>* (statuses m) (statuses (fst (sweep now m)))"
proof (rule spec_moves_pointwise)
  show "rel_option (\<lambda>st st'. st' = st \<or> may_move st st') (statuses m k) (statuses (fst (sweep now m)) k)" for k
    using ExpireLocked_retires [of _ now True]
    by (cases "map_of m k") (auto simp: statuses_def map_of_sweep retires_def evolves_def moves_def)
qed (rule finite_statuses)

lemma evict_induct [case_names keep drop]:
  assumes "\<And>m. length m < 32 \<or> find (\<lambda>e. Terminal (se_status (snd e))) m = None \<Longrightarrow> evict m = m \<Longrightarrow> P m"
    and "\<And>m e. 32 \<le> length m \<Longrightarrow> find (\<lambda>e. Terminal (se_status (snd e))) m = Some e \<Longrightarrow>
           evict m = evict (map_erase (fst e) m) \<Longrightarrow> P (map_erase (fst e) m) \<Longrightarrow> P m"
  shows "P m"
proof (induction m rule: evict.induct)
  case (1 m)
  show ?case
  proof (cases "length m < 32 \<or> find (\<lambda>e. Terminal (se_status (snd e))) m = None")
    case True
    then have "evict m = m" by (subst evict.simps) auto
    with True show ?thesis by (rule assms(1))
  next
    case False
    then obtain e where e: "find (\<lambda>e. Terminal (se_status (snd e))) m = Some e" and l: "32 \<le> length m" by auto
    then have "evict m = evict (map_erase (fst e) m)" by (subst evict.simps) simp
    from l e this 1 [OF l e] show ?thesis by (rule assms(2))
  qed
qed

lemma map_of_evict: "map_of (evict m) k = Some ses \<Longrightarrow> map_of m k = Some ses"
proof (induction m rule: evict_induct)
  case (drop m e)
  then have "map_of (map_erase (fst e) m) k = Some ses" by simp
  then show ?case by (auto dest: smap.erase_Some_D)
qed simp

lemma evict_wf: "map_wf m \<Longrightarrow> map_wf (evict m) \<and> length (evict m) \<le> length m \<and> active_count (evict m) \<le> active_count m"
proof (induction m rule: evict_induct)
  case (drop m e)
  then have "map_wf (map_erase (fst e) m)" "length (map_erase (fst e) m) \<le> length m"
    "active_count (map_erase (fst e) m) \<le> active_count m"
    using active_count_filter [of "\<lambda>e'. fst e' \<noteq> fst e" m]
    by (simp_all add: smap.invar_erase smap.size_erase_le flip: map_erase_def)
  with drop show ?case by simp
qed simp

lemma evict_room: "length (evict m) < 32 \<or> active_count (evict m) = length (evict m)"
proof (induction m rule: evict_induct)
  case (keep m)
  have "filter (\<lambda>e. IsActive (se_status (snd e))) m = m"
    if "find (\<lambda>e. Terminal (se_status (snd e))) m = None"
    using that by (auto simp: find_None_iff filter_id_conv IsActive_def)
  with keep show ?case by (auto simp: active_count_def)
qed simp

lemma find_terminal_status:
  assumes "map_wf m" "find (\<lambda>e. Terminal (se_status (snd e))) m = Some e"
  shows "\<exists>st. statuses m (fst e) = Some st \<and> Terminal st"
proof -
  have "e \<in> set m" "Terminal (se_status (snd e))" using assms(2) by (auto simp: find_Some_iff)
  with map_wf_distinct [OF assms(1)] show ?thesis by (cases e) (auto simp: statuses_def)
qed

lemma evict_spec: "map_wf m \<Longrightarrow> spec_step\<^sup>*\<^sup>* (statuses m) (statuses (evict m))"
proof (induction m rule: evict_induct)
  case (drop m e)
  from find_terminal_status [OF drop.prems drop.hyps(2)]
  have "spec_step (statuses m) (statuses (map_erase (fst e) m))"
    unfolding statuses_erase by (auto intro: forget_session)
  moreover have "spec_step\<^sup>*\<^sup>* (statuses (map_erase (fst e) m)) (statuses (evict m))"
    using drop by (simp add: smap.invar_erase)
  ultimately show ?case by (rule converse_rtranclp_into_rtranclp)
qed simp

lemma evict_keeps_active: "map_wf m \<Longrightarrow> map_of m k = Some ses \<Longrightarrow> \<not> Terminal (se_status ses) \<Longrightarrow> map_of (evict m) k = Some ses"
proof (induction m rule: evict_induct)
  case (drop m e)
  from find_terminal_status [OF drop.prems(1) drop.hyps(2)] drop.prems(2,3)
  have "k \<noteq> fst e" by (auto simp: statuses_def)
  with drop show ?case by (simp add: smap.invar_erase smap.find_erase)
qed simp

section \<open>Creating sessions\<close>

definition room :: "u64 \<Rightarrow> 'w Registry \<Rightarrow> sessions" where
  "room now s = evict (fst (sweep now (rg_sessions s)))"

lemma fresh_id_run:
  "fresh_id env n s = (r, s') \<Longrightarrow>
     rg_sessions s' = rg_sessions s \<and> rg_credentials s' = rg_credentials s \<and>
     (\<forall>v. r = Inr v \<longrightarrow> v \<noteq> [] \<longrightarrow> map_of (rg_sessions s) v = None \<and> map_of (rg_credentials s) v = None)"
proof (induction n arbitrary: s)
  case 0
  then show ?case by (auto simp: sret_def)
next
  case (Suc n)
  obtain d s1 where d: "draw_id env s = (d, s1)" by force
  then have s1: "rg_sessions s1 = rg_sessions s" "rg_credentials s1 = rg_credentials s"
    by (auto simp: draw_id_def split: prod.splits sum.splits)
  show ?case
  proof (cases d)
    case (Inl e)
    with Suc.prems d s1 show ?thesis by (auto simp: sbind_def)
  next
    case (Inr v)
    show ?thesis
    proof (cases "map_of (rg_sessions s1) v = None \<and> map_of (rg_credentials s1) v = None")
      case True
      with Suc.prems d s1 Inr show ?thesis by (auto simp: sem_defs)
    next
      case False
      with Suc.prems d Inr have "fresh_id env n s1 = (r, s')" by (auto simp: sem_defs)
      from Suc.IH [OF this] s1 show ?thesis by simp
    qed
  qed
qed

lemma StopOwners_run [simp]: "StopOwners ows s = (Inr (), s\<lparr>rg_stopped := rev ows @ rg_stopped s\<rparr>)"
  by (simp add: StopOwners_def smodify_def)

lemma limit_reached_run:
  "limit_reached ows s = (Inl (AuthSessionError AUTH_SESSION_LIMIT_REACHED), s\<lparr>rg_stopped := rev ows @ rg_stopped s\<rparr>)"
  by (simp add: limit_reached_def sthen_def sbind_def sthrow_def)

definition opens :: "AuthStartRequest \<Rightarrow> u64 \<Rightarrow> byte_string \<Rightarrow> 'w Registry \<Rightarrow> 'w Registry \<Rightarrow> bool" where
  "opens r now key s s' \<longleftrightarrow>
     key \<noteq> [] \<and> as_expected_state r \<noteq> [] \<and> as_pkce_verifier r \<noteq> [] \<and> now < as_expires_at_monotonic_ms r \<and>
     active_count (room now s) < 4 \<and> map_of (room now s) key = None \<and> map_of (rg_credentials s) key = None \<and>
     rg_sessions s' = map_put key (session_of_request r) (room now s)"

lemma Create_cases:
  assumes "Create env r s = (res, s')"
  shows "rg_credentials s' = rg_credentials s"
    and "\<exists>now. (rg_sessions s' = rg_sessions s \<or> rg_sessions s' = room now s) \<and> (\<exists>e. res = Inl e) \<or>
           (\<exists>key. res = Inr key \<and> opens r now key s s')"
proof -
  obtain now w where n: "ae_NowMs env (rg_world s) = (now, w)" by force
  define s1 where "s1 = s\<lparr>rg_world := w, rg_sessions := room now s\<rparr>"
  have upd: "rg_sessions_update (\<lambda>m. evict (fst (sweep now m))) (s\<lparr>rg_world := w\<rparr>) = s1"
    "active_count (evict (fst (sweep now (rg_sessions s)))) = active_count (room now s)"
    by (cases s, simp_all add: s1_def room_def)
  obtain f s2 where f: "fresh_id env 16 s1 = (f, s2)" by force
  note s2 = fresh_id_run [OF f]
  have "Create env r s =
     (if as_expected_state r = [] \<or> as_pkce_verifier r = [] \<or> as_expires_at_monotonic_ms r = 0
      then (Inl (AuthSessionError CALLBACK_PROTOCOL_ERROR), s)
      else if as_expires_at_monotonic_ms r \<le> now then (Inl (AuthSessionError SESSION_EXPIRED), s\<lparr>rg_world := w\<rparr>)
      else if 4 \<le> active_count (room now s) then limit_reached (snd (sweep now (rg_sessions s))) s1
      else case f of
             Inl e \<Rightarrow> (Inl e, s2)
           | Inr key \<Rightarrow>
               if key = [] then limit_reached (snd (sweep now (rg_sessions s))) s2
               else sthen (StopOwners (snd (sweep now (rg_sessions s)))) (sret key)
                      (rg_sessions_update (map_put key (session_of_request r)) s2))"
    using f by (auto simp: Create_def sthen_def sbind_def auth_now_def n upd sem_simps split: sum.split)
  note run = this [unfolded assms]
  show "rg_credentials s' = rg_credentials s"
    using run s2 by (auto simp: limit_reached_run s1_def sem_defs split: if_splits sum.splits)
  show "\<exists>now. (rg_sessions s' = rg_sessions s \<or> rg_sessions s' = room now s) \<and> (\<exists>e. res = Inl e) \<or>
           (\<exists>key. res = Inr key \<and> opens r now key s s')"
    by (rule exI [of _ now])
      (use run s2 in \<open>auto simp: limit_reached_run s1_def opens_def sem_defs not_le split: if_splits sum.splits\<close>)
qed

lemma room_session:
  assumes "map_of (room now s) k = Some ses'"
  shows "\<exists>ses. map_of (rg_sessions s) k = Some ses \<and> retires ses ses'"
  using map_of_evict [OF assms [unfolded room_def]] ExpireLocked_retires by (auto simp: map_of_sweep)

lemma room_shape:
  assumes "map_wf (rg_sessions s)"
  shows "map_wf (room now s)" "length (room now s) \<le> length (rg_sessions s)"
  using evict_wf [of "fst (sweep now (rg_sessions s))"] assms by (auto simp: room_def)

lemma active_count_sweep: "active_count (fst (sweep now m)) \<le> active_count m"
proof -
  have "IsActive (se_status (fst (ExpireLocked ses now True))) \<Longrightarrow> IsActive (se_status ses)" for ses
    by (auto simp: ExpireLocked_def TerminalLocked_def IsActive_def split: if_splits)
  then show ?thesis by (induction m) (auto simp: sweep_def)
qed

lemma room_spec: "map_wf (rg_sessions s) \<Longrightarrow> spec_step\<^sup>*\<^sup>* (statuses (rg_sessions s)) (statuses (room now s))"
  unfolding room_def by (rule rtranclp_trans [OF sweep_spec evict_spec]) simp

lemma registry_ok_room:
  assumes "registry_ok s" "rg_sessions s' = room now s" "rg_credentials s' = rg_credentials s"
  shows "registry_ok s'"
proof -
  have "active_count (room now s) \<le> 4"
    using assms(1) evict_wf [of "fst (sweep now (rg_sessions s))"] active_count_sweep [of now "rg_sessions s"]
    by (auto simp: registry_ok_def room_def)
  moreover have "map_of (room now s) k = None" if "map_of (rg_sessions s) k = None" for k
    using room_session [of now s k] that by (cases "map_of (room now s) k") auto
  moreover have "k \<noteq> [] \<and> session_ok ses'" if "map_of (room now s) k = Some ses'" for k ses'
    using room_session [OF that] assms(1) by (auto simp: registry_ok_def retires_def evolves_def)
  ultimately show ?thesis
    using assms room_shape [of s now] by (auto simp: registry_ok_def)
qed

lemma registry_ok_opens:
  assumes "registry_ok s" "opens r now key s s'" "rg_credentials s' = rg_credentials s"
  shows "registry_ok s'"
proof -
  define s1 where "s1 = s\<lparr>rg_sessions := room now s\<rparr>"
  have 1: "registry_ok s1" by (rule registry_ok_room [OF assms(1), of _ now]) (simp_all add: s1_def)
  have "length (room now s) < 32"
    using evict_room [of "fst (sweep now (rg_sessions s))"] assms(2) by (auto simp: opens_def room_def)
  moreover have "active_count (map_put key (session_of_request r) (room now s)) \<le> 4"
    using active_count_insert [of "room now s" key "session_of_request r"] assms(2) by (auto simp: opens_def)
  moreover have "session_ok (session_of_request r)"
    using assms(2) by (simp add: opens_def session_ok_def session_of_request_def)
  ultimately show ?thesis
    using 1 assms(2,3)
    by (auto simp: registry_ok_def opens_def s1_def smap.invar_put smap.size_put smap.find_put split: if_splits)
qed

section \<open>Credentials\<close>

text \<open>Sessions are left alone and every credential that is present afterwards was present before.\<close>

definition drops :: "'w Registry \<Rightarrow> 'w Registry \<Rightarrow> bool" where
  "drops s s' \<longleftrightarrow> rg_sessions s' = rg_sessions s \<and> (\<exists>P. rg_credentials s' = filter P (rg_credentials s))"

lemma drops_refl: "rg_sessions s' = rg_sessions s \<Longrightarrow> rg_credentials s' = rg_credentials s \<Longrightarrow> drops s s'"
  by (auto simp: drops_def intro: exI [of _ "\<lambda>_. True"])

lemma drops_filter:
  "rg_sessions s' = rg_sessions s \<Longrightarrow> rg_credentials s' = filter P (rg_credentials s) \<Longrightarrow> drops s s'"
  by (auto simp: drops_def)

lemma drops_erase: "rg_sessions s' = rg_sessions s \<Longrightarrow> rg_credentials s' = map_erase k (rg_credentials s) \<Longrightarrow> drops s s'"
  by (auto simp: drops_def map_erase_def)

lemma map_of_filter_Some:
  assumes "map_wf m" "map_of (filter P m) k = Some c"
  shows "map_of m k = Some c"
proof -
  have "(k, c) \<in> set m" using map_of_SomeD [OF assms(2)] by simp
  with map_wf_distinct [OF assms(1)] show ?thesis by simp
qed

lemma registry_ok_drops:
  assumes "registry_ok s" "drops s s'"
  shows "registry_ok s'"
proof -
  from assms(2) obtain P where s': "rg_sessions s' = rg_sessions s" "rg_credentials s' = filter P (rg_credentials s)"
    by (auto simp: drops_def)
  have "length (rg_credentials s') \<le> 16"
    using assms(1) s' by (auto simp: registry_ok_def intro: order_trans [OF length_filter_le])
  moreover have "k \<noteq> [] \<and> cd_instance_url c \<noteq> [] \<and> cd_access_token c \<noteq> [] \<and> map_of (rg_sessions s) k = None"
    if "map_of (rg_credentials s') k = Some c" for k c
  proof -
    have "map_of (rg_credentials s) k = Some c"
      using that assms(1) s' by (auto simp: registry_ok_def intro: map_of_filter_Some)
    with assms(1) show ?thesis by (simp add: registry_ok_def)
  qed
  ultimately show ?thesis
    using assms(1) s' by (simp add: registry_ok_def map_wf_filter)
qed

definition stores :: "byte_string \<Rightarrow> byte_string \<Rightarrow> u64 \<Rightarrow> byte_string \<Rightarrow> 'w Registry \<Rightarrow> 'w Registry \<Rightarrow> bool" where
  "stores url token expiry key s s' \<longleftrightarrow>
     key \<noteq> [] \<and> url \<noteq> [] \<and> token \<noteq> [] \<and> map_of (rg_sessions s) key = None \<and> rg_sessions s' = rg_sessions s \<and>
     (\<exists>P. length (filter P (rg_credentials s)) < 16 \<and> map_of (filter P (rg_credentials s)) key = None \<and>
        rg_credentials s' = map_put key \<lparr>cd_instance_url = url, cd_access_token = token, cd_expires_at_ms = expiry\<rparr>
          (filter P (rg_credentials s)))"

lemma StoreCredential_cases:
  assumes "StoreCredential env url token expiry s = (res, s')"
  shows "(\<exists>e. res = Inl e) \<and> drops s s' \<or> (\<exists>key. res = Inr key \<and> stores url token expiry key s s')"
proof (cases "url = [] \<or> token = []")
  case True
  with assms show ?thesis by (auto simp: StoreCredential_def sem_defs drops_refl)
next
  case False
  obtain now0 w0 where n0: "ae_NowMs env (rg_world s) = (now0, w0)" by force
  obtain now w where n: "ae_NowMs env w0 = (now, w)" by force
  define P where "P = (\<lambda>e :: byte_string \<times> Credential. \<not> cd_expires_at_ms (snd e) \<le> now)"
  define s1 where "s1 = s\<lparr>rg_world := w, rg_credentials := filter P (rg_credentials s)\<rparr>"
  have upd: "rg_credentials_update (filter P) (s\<lparr>rg_world := w\<rparr>) = s1"
    "rg_credentials s1 = filter P (rg_credentials s)"
    by (cases s, simp_all add: s1_def)
  obtain f s2 where f: "fresh_id env 16 s1 = (f, s2)" by force
  have "(res, s') =
     (if expiry \<le> now0 then (Inl (AuthSessionError REAUTH_REQUIRED), s\<lparr>rg_world := w0\<rparr>)
      else if 16 \<le> length (rg_credentials s1) then (Inl (AuthSessionError AUTH_SESSION_LIMIT_REACHED), s1)
      else case f of
             Inl e \<Rightarrow> (Inl e, s2)
           | Inr key \<Rightarrow>
               if key = [] then (Inl (AuthSessionError AUTH_SESSION_LIMIT_REACHED), s2)
               else (Inr key, rg_credentials_update (map_put key
                      \<lparr>cd_instance_url = url, cd_access_token = token, cd_expires_at_ms = expiry\<rparr>) s2))"
    using False f unfolding assms [symmetric]
    by (auto simp: StoreCredential_def sthen_def sbind_def auth_now_def n0 n P_def [symmetric] upd sguard_def
        sem_simps split: sum.split)
  with fresh_id_run [OF f] False show ?thesis
    by (auto simp: stores_def s1_def not_le intro: drops_refl drops_filter split: if_splits sum.splits)
qed

lemma registry_ok_stores:
  assumes "registry_ok s" "stores url token expiry key s s'"
  shows "registry_ok s'"
proof -
  from assms(2) obtain P where P: "length (filter P (rg_credentials s)) < 16"
      "map_of (filter P (rg_credentials s)) key = None"
      "rg_credentials s' = map_put key \<lparr>cd_instance_url = url, cd_access_token = token, cd_expires_at_ms = expiry\<rparr>
          (filter P (rg_credentials s))"
    by (auto simp: stores_def)
  have "registry_ok (s\<lparr>rg_credentials := filter P (rg_credentials s)\<rparr>)"
    by (rule registry_ok_drops [OF assms(1)]) (auto simp: drops_def)
  with P assms(2) show ?thesis
    by (auto simp: registry_ok_def stores_def smap.invar_put smap.size_put smap.find_put split: if_splits)
qed

lemma ResolveCredential_drops: "drops s (snd (ResolveCredential env key s))"
  by (auto simp: ResolveCredential_def registry_runs drops_refl drops_erase split: option.split)

lemma RemoveCredential_drops: "drops s (snd (RemoveCredential key s))"
  by (auto simp: RemoveCredential_def sem_defs drops_erase)

end
