(* ===== verification/Auth_History.thy ===== *)
theory Auth_History
  imports Auth_Runs
begin

text \<open>
  The runs of the registry with their history: which sessions were opened, which codes arrived, which
  were released to the completion, which credentials were stored and removed. The state of the
  registry agrees with its history in every run.
\<close>

section \<open>Calls and events\<close>

datatype RegistryCall =
    CreateCall AuthStartRequest
  | CreateTtlCall byte_string byte_string u64 "owner option"
  | SnapshotCall byte_string
  | StatusCall byte_string
  | ReceiveCallbackCall byte_string byte_string byte_string
  | ReceiveDeniedCall byte_string byte_string
  | BeginCompletionCall byte_string
  | FinishAuthorizedCall byte_string
  | FinishFailedCall byte_string AuthFault
  | FailCall byte_string AuthFault
  | CancelCall byte_string
  | StopCallbackCall byte_string
  | StoreCredentialCall byte_string byte_string u64
  | ResolveCredentialCall byte_string
  | RemoveCredentialCall byte_string

text \<open>What a session is opened with.\<close>

record Opening =
  op_state :: byte_string
  op_verifier :: byte_string
  op_origin :: byte_string
  op_client :: byte_string
  op_secret :: byte_string

datatype registry_event =
    Opened byte_string Opening
  | Received byte_string byte_string
  | Released byte_string AuthCompletionMaterial
  | Stored byte_string byte_string byte_string u64
  | Removed byte_string
  | Quiet

definition opening_of :: "AuthStartRequest \<Rightarrow> Opening" where
  "opening_of r = \<lparr>op_state = as_expected_state r, op_verifier = as_pkce_verifier r, op_origin = as_login_origin r,
                op_client = as_client_id r, op_secret = as_secret_name r\<rparr>"

definition observe :: "('a \<Rightarrow> registry_event) \<Rightarrow> (auth_exn + 'a) \<times> 'w Registry \<Rightarrow> registry_event \<times> 'w Registry" where
  "observe f out = (case fst out of Inl _ \<Rightarrow> Quiet | Inr a \<Rightarrow> f a, snd out)"

fun registry_call :: "'w AuthEnv \<Rightarrow> RegistryCall \<Rightarrow> 'w Registry \<Rightarrow> registry_event \<times> 'w Registry" where
  "registry_call env (CreateCall r) s = observe (\<lambda>key. Opened key (opening_of r)) (Create env r s)"
| "registry_call env (CreateTtlCall state verifier ttl ow) s =
     observe (\<lambda>key. Opened key \<lparr>op_state = state, op_verifier = verifier, op_origin = [], op_client = [], op_secret = []\<rparr>)
       (Create_ttl env state verifier ttl ow s)"
| "registry_call env (SnapshotCall key) s = observe (\<lambda>_. Quiet) (Snapshot env key s)"
| "registry_call env (StatusCall key) s = observe (\<lambda>_. Quiet) (Status env key s)"
| "registry_call env (ReceiveCallbackCall key state auth_code) s =
     observe (\<lambda>_. Received key auth_code) (ReceiveCallback env key state auth_code s)"
| "registry_call env (ReceiveDeniedCall key state) s = observe (\<lambda>_. Quiet) (ReceiveDenied env key state s)"
| "registry_call env (BeginCompletionCall key) s = observe (Released key) (BeginCompletion env key s)"
| "registry_call env (FinishAuthorizedCall key) s = observe (\<lambda>_. Quiet) (FinishAuthorized key s)"
| "registry_call env (FinishFailedCall key fault) s = observe (\<lambda>_. Quiet) (FinishFailed key fault s)"
| "registry_call env (FailCall key fault) s = observe (\<lambda>_. Quiet) (Fail key fault s)"
| "registry_call env (CancelCall key) s = observe (\<lambda>_. Quiet) (CancelSession key s)"
| "registry_call env (StopCallbackCall key) s = observe (\<lambda>_. Quiet) (StopCallback key s)"
| "registry_call env (StoreCredentialCall url token expiry) s =
     observe (\<lambda>key. Stored key url token expiry) (StoreCredential env url token expiry s)"
| "registry_call env (ResolveCredentialCall key) s = observe (\<lambda>_. Quiet) (ResolveCredential env key s)"
| "registry_call env (RemoveCredentialCall key) s = observe (\<lambda>_. Removed key) (RemoveCredential key s)"

definition empty_registry :: "'w \<Rightarrow> 'w Registry" where
  "empty_registry w = \<lparr>rg_world = w, rg_sessions = [], rg_credentials = [], rg_stopped = []\<rparr>"

inductive registry_run :: "'w AuthEnv \<Rightarrow> registry_event list \<Rightarrow> 'w Registry \<Rightarrow> bool" for env where
  start: "registry_run env [] (empty_registry w)"
| call: "registry_run env log s \<Longrightarrow> registry_call env c s = (ev, s') \<Longrightarrow> registry_run env (ev # log) s'"

section \<open>The kinds of call\<close>

text \<open>What a call does to the two maps, with the event it leaves.\<close>

datatype registry_effect =
    Touch byte_string
  | Release byte_string
  | Arrive byte_string byte_string
  | Room u64
  | Open AuthStartRequest u64 byte_string
  | Store byte_string byte_string u64 byte_string
  | Drop

fun has_effect :: "registry_effect \<Rightarrow> registry_event \<Rightarrow> 'w Registry \<Rightarrow> 'w Registry \<Rightarrow> bool" where
  "has_effect (Touch key) ev s s' \<longleftrightarrow> ev = Quiet \<and> touches retires key s s'"
| "has_effect (Release key) ev s s' \<longleftrightarrow> (\<exists>cm. ev = Released key cm) \<and> touches retires key s s' \<and>
     statuses (rg_sessions s') key = Some COMPLETING"
| "has_effect (Arrive key auth_code) ev s s' \<longleftrightarrow> ev = Received key auth_code \<and> touches evolves key s s' \<and>
     (\<exists>ses. map_of (rg_sessions s) key = Some ses \<and> se_status ses = PENDING_USER_ACTION \<and>
        rg_sessions s' = map_put key
          (ses\<lparr>se_authorization_code := auth_code, se_expected_state := [], se_status := CALLBACK_RECEIVED\<rparr>)
          (rg_sessions s))"
| "has_effect (Room now) ev s s' \<longleftrightarrow> ev = Quiet \<and> rg_sessions s' = room now s \<and> rg_credentials s' = rg_credentials s"
| "has_effect (Open r now key) ev s s' \<longleftrightarrow>
     ev = Opened key (opening_of r) \<and> opens r now key s s' \<and> rg_credentials s' = rg_credentials s"
| "has_effect (Store url token expiry key) ev s s' \<longleftrightarrow>
     ev = Stored key url token expiry \<and> stores url token expiry key s s'"
| "has_effect Drop ev s s' \<longleftrightarrow> drops s s' \<and>
     (ev = Quiet \<or> (\<exists>key. ev = Removed key \<and> map_of (rg_credentials s') key = None))"

lemma Create_effect:
  assumes "Create env r s = (res, s')" "observe (\<lambda>key. Opened key (opening_of r)) (res, s') = (ev, s'')"
  shows "\<exists>eff. has_effect eff ev s s''"
proof -
  have s'': "s'' = s'" using assms(2) by (simp add: observe_def)
  from Create_cases(2) [OF assms(1)] obtain now where
    "(rg_sessions s' = rg_sessions s \<or> rg_sessions s' = room now s) \<and> (\<exists>e. res = Inl e) \<or>
      (\<exists>key. res = Inr key \<and> opens r now key s s')" by blast
  then consider (same) "ev = Quiet" "rg_sessions s' = rg_sessions s" | (room) "ev = Quiet" "rg_sessions s' = room now s"
    | (opened) key where "ev = Opened key (opening_of r)" "opens r now key s s'"
    using assms(2) by (auto simp: observe_def)
  then show ?thesis
    using Create_cases(1) [OF assms(1)] s''
    by (metis has_effect.simps(4) has_effect.simps(5) has_effect.simps(7) drops_refl)
qed

lemma Create_ttl_effect:
  assumes "registry_call env (CreateTtlCall state verifier ttl ow) s = (ev, s')"
  shows "\<exists>eff. has_effect eff ev s s'"
proof -
  obtain now w where n: "ae_NowMs env (rg_world s) = (now, w)" by force
  define r where "r = \<lparr>as_login_origin = [], as_client_id = [], as_secret_name = [],
     as_expected_state = state, as_pkce_verifier = verifier, as_expires_at_monotonic_ms = now + ttl,
     as_expires_at_utc_micros = 0, as_callback_owner = ow\<rparr>"
  have o: "opening_of r = \<lparr>op_state = state, op_verifier = verifier, op_origin = [], op_client = [], op_secret = []\<rparr>"
    by (simp add: opening_of_def r_def)
  show ?thesis
  proof (cases "ttl = 0 \<or> 0xFFFFFFFFFFFFFFFF - now < ttl")
    case True
    with assms n have "ev = Quiet" "s' = s\<lparr>rg_world := w\<rparr>"
      by (auto simp: Create_ttl_def sem_defs auth_now_def observe_def)
    then have "has_effect Drop ev s s'" by (simp add: drops_refl)
    then show ?thesis by blast
  next
    case False
    obtain res s1 where c: "Create env r (s\<lparr>rg_world := w\<rparr>) = (res, s1)" by force
    with assms n False have ob: "observe (\<lambda>key. Opened key (opening_of r)) (res, s1) = (ev, s')"
      by (auto simp: Create_ttl_def sbind_def auth_now_def r_def opening_of_def)
    from Create_effect [OF c ob] obtain eff where "has_effect eff ev (s\<lparr>rg_world := w\<rparr>) s'" ..
    then have "has_effect eff ev s s'"
      by (cases eff) (auto simp: touches_def room_def opens_def stores_def drops_def)
    then show ?thesis by blast
  qed
qed

lemma ReceiveCallback_cases:
  assumes "ReceiveCallback env key state auth_code s = (res, s')"
  shows "(\<exists>e. res = Inl e) \<and> touches retires key s s' \<or>
     res = Inr () \<and> auth_code \<noteq> [] \<and> (\<exists>ses. map_of (rg_sessions s) key = Some ses \<and> se_status ses = PENDING_USER_ACTION \<and>
        fst (ae_NowMs env (rg_world s)) < se_expires_at_ms ses \<and> ConstantTimeEquals (se_expected_state ses) state \<and>
        rg_sessions s' = map_put key
          (ses\<lparr>se_authorization_code := auth_code, se_expected_state := [], se_status := CALLBACK_RECEIVED\<rparr>)
          (rg_sessions s))"
proof (cases "map_of (rg_sessions s) key")
  case None
  with assms show ?thesis by (auto simp: ReceiveCallback_def sbind_def FindLocked_run touches_same)
next
  case (Some ses)
  obtain now w where n: "ae_NowMs env (rg_world s) = (now, w)" by force
  show ?thesis
  proof (cases "se_status (fst (ExpireLocked ses now False)) = PENDING_USER_ACTION \<and> auth_code \<noteq> []")
    case True
    note ex = ExpireLocked_status(1) [of ses now False] ExpireLocked_terminates [of ses now False]
    from assms True ex Some n show ?thesis
      by (auto simp: ReceiveCallback_def FindLocked_run sem_defs auth_now_def intro: touches_update split: if_splits)
  next
    case False
    with assms Some n show ?thesis
      by (auto simp: ReceiveCallback_def FindLocked_run sem_defs auth_now_def Let_def ExpireLocked_retires
          intro: touches_update)
  qed
qed

lemma BeginCompletion_returns:
  assumes "BeginCompletion env key s = (Inr cm, s')"
  shows "\<exists>ses. map_of (rg_sessions s) key = Some ses \<and> se_status ses = CALLBACK_RECEIVED \<and>
     fst (ae_NowMs env (rg_world s)) < se_expires_at_ms ses \<and>
     cm = \<lparr>cm_authorization_code = se_authorization_code ses, cm_pkce_verifier = se_pkce_verifier ses,
           cm_login_origin = se_login_origin ses, cm_client_id = se_client_id ses,
           cm_secret_name = se_secret_name ses\<rparr> \<and>
     rg_sessions s' = map_put key
       (ses\<lparr>se_status := COMPLETING, se_authorization_code := [], se_pkce_verifier := []\<rparr>) (rg_sessions s)"
proof (cases "map_of (rg_sessions s) key")
  case None
  with assms show ?thesis by (simp add: BeginCompletion_def sbind_def FindLocked_run)
next
  case (Some ses)
  obtain now w where n: "ae_NowMs env (rg_world s) = (now, w)" by force
  from assms Some n have c: "se_status (fst (ExpireLocked ses now True)) = CALLBACK_RECEIVED"
    by (auto simp: BeginCompletion_def FindLocked_run sem_defs auth_now_def stop_owner_run split: prod.splits if_splits)
  with ExpireLocked_status(2) [OF c] assms Some n show ?thesis
    by (auto simp: BeginCompletion_def FindLocked_run sem_defs auth_now_def)
qed

lemma observe_quiet: "observe (\<lambda>_. Quiet) out = (ev, s') \<longleftrightarrow> ev = Quiet \<and> s' = snd out"
  by (auto simp: observe_def split: sum.splits)

lemma touch_effect: "touches retires key s s' \<Longrightarrow> \<exists>eff. has_effect eff Quiet s s'"
  by (rule exI [of _ "Touch key"]) simp

lemma call_effect:
  assumes "registry_call env c s = (ev, s')"
  shows "\<exists>eff. has_effect eff ev s s'"
proof (cases c)
  case (CreateCall r)
  then show ?thesis
    using assms Create_effect by (metis registry_call.simps(1) surj_pair)
next
  case (CreateTtlCall state verifier ttl ow)
  with assms show ?thesis using Create_ttl_effect by blast
next
  case (ReceiveCallbackCall key state auth_code)
  obtain res s1 where r: "ReceiveCallback env key state auth_code s = (res, s1)" by force
  have "touches evolves key s s1"
    using touches_ReceiveCallback [of key s env state auth_code] r by simp
  with ReceiveCallback_cases [OF r] assms ReceiveCallbackCall r
  have "has_effect (if \<exists>e. res = Inl e then Touch key else Arrive key auth_code) ev s s'"
    by (auto simp: observe_def)
  then show ?thesis by blast
next
  case (BeginCompletionCall key)
  obtain res s1 where r: "BeginCompletion env key s = (res, s1)" by force
  with touches_BeginCompletion [of key s env] have t: "touches retires key s s1" by simp
  have "statuses (rg_sessions s1) key = Some COMPLETING" if "res = Inr cm" for cm
    using BeginCompletion_returns [OF r [unfolded that]] by (auto simp: statuses_put)
  with t assms BeginCompletionCall r
  have "has_effect (case res of Inl e \<Rightarrow> Touch key | Inr cm \<Rightarrow> Release key) ev s s'"
    by (auto simp: observe_def split: sum.splits)
  then show ?thesis by blast
next
  case (StoreCredentialCall url token expiry)
  obtain res s1 where r: "StoreCredential env url token expiry s = (res, s1)" by force
  from StoreCredential_cases [OF r] assms StoreCredentialCall r
  have "has_effect (case res of Inl e \<Rightarrow> Drop | Inr key \<Rightarrow> Store url token expiry key) ev s s'"
    by (auto simp: observe_def)
  then show ?thesis by blast
next
  case (ResolveCredentialCall key)
  with assms ResolveCredential_drops [of s env key] have "has_effect Drop ev s s'"
    by (auto simp: observe_quiet)
  then show ?thesis by blast
next
  case (RemoveCredentialCall key)
  with assms RemoveCredential_drops [of s key] have "has_effect Drop ev s s'"
    by (auto simp: observe_def RemoveCredential_def smodify_def smap.find_erase)
  then show ?thesis by blast
qed (use assms in \<open>auto simp: observe_quiet intro: touch_effect [OF touches_Snapshot] touch_effect [OF touches_Status]
      touch_effect [OF touches_ReceiveDenied] touch_effect [OF touches_StopCallback]
      touches_finishing [THEN touch_effect]\<close>)

section \<open>Refinement and invariant\<close>

lemma effect_spec:
  assumes "has_effect eff ev s s'" "map_wf (rg_sessions s)"
  shows "spec_step\<^sup>*\<^sup>* (statuses (rg_sessions s)) (statuses (rg_sessions s'))"
proof (cases eff)
  case (Open r now key)
  with assms have "statuses (room now s) key = None" and
    "statuses (rg_sessions s') = (statuses (room now s))(key \<mapsto> PENDING_USER_ACTION)"
    by (auto simp: opens_def statuses_put session_of_request_def statuses_def)
  with room_spec [OF assms(2), of now] show ?thesis
    by (metis rtranclp.rtrancl_into_rtrancl open_session)
qed (use assms in \<open>auto simp: stores_def drops_def intro: touches_spec touches_evolves room_spec\<close>)

lemma effect_ok: "has_effect eff ev s s' \<Longrightarrow> registry_ok s \<Longrightarrow> registry_ok s'"
  by (cases eff)
    (auto intro: touches_ok touches_evolves registry_ok_room registry_ok_opens registry_ok_stores registry_ok_drops)

lemma run_registry_ok: "registry_run env log s \<Longrightarrow> registry_ok s"
proof (induction rule: registry_run.induct)
  case (start w)
  then show ?case by (simp add: empty_registry_def registry_ok_def)
next
  case (call log s c ev s')
  from call_effect [OF call.hyps(2)] call.IH show ?case by (auto intro: effect_ok)
qed

lemma call_refines:
  assumes "registry_ok s" "registry_call env c s = (ev, s')"
  shows "spec_step\<^sup>*\<^sup>* (statuses (rg_sessions s)) (statuses (rg_sessions s'))"
  using call_effect [OF assms(2)] assms(1) effect_spec by (auto simp: registry_ok_def)

section \<open>The state agrees with the history\<close>

text \<open>The part of the history, newest event first, that concerns the session now known under a key.\<close>

fun session_log :: "registry_event list \<Rightarrow> byte_string \<Rightarrow> (Opening \<times> byte_string option \<times> bool) option" where
  "session_log [] key = None"
| "session_log (Opened k op # log) key = (if k = key then Some (op, None, False) else session_log log key)"
| "session_log (Received k auth_code # log) key =
     (if k = key then map_option (\<lambda>(op, _, released). (op, Some auth_code, released)) (session_log log key)
      else session_log log key)"
| "session_log (Released k cm # log) key =
     (if k = key then map_option (\<lambda>(op, received, _). (op, received, True)) (session_log log key)
      else session_log log key)"
| "session_log (_ # log) key = session_log log key"

fun credential_log :: "registry_event list \<Rightarrow> byte_string \<Rightarrow> Credential option" where
  "credential_log [] key = None"
| "credential_log (Stored k url token expiry # log) key =
     (if k = key then Some \<lparr>cd_instance_url = url, cd_access_token = token, cd_expires_at_ms = expiry\<rparr>
      else credential_log log key)"
| "credential_log (Removed k # log) key = (if k = key then None else credential_log log key)"
| "credential_log (_ # log) key = credential_log log key"

definition logged :: "registry_event list \<Rightarrow> byte_string \<Rightarrow> AuthSession \<Rightarrow> bool" where
  "logged log key ses \<longleftrightarrow>
     (\<exists>op received released. session_log log key = Some (op, received, released) \<and>
        se_login_origin ses = op_origin op \<and> se_client_id ses = op_client op \<and> se_secret_name ses = op_secret op \<and>
        (se_status ses = PENDING_USER_ACTION \<longrightarrow>
           se_expected_state ses = op_state op \<and> se_pkce_verifier ses = op_verifier op \<and>
           received = None \<and> \<not> released) \<and>
        (se_status ses = CALLBACK_RECEIVED \<longrightarrow>
           se_pkce_verifier ses = op_verifier op \<and> received = Some (se_authorization_code ses) \<and> \<not> released))"

lemma logged_retires:
  assumes "logged log key ses" "retires ses ses'"
  shows "logged log key ses'"
proof -
  have i: "se_login_origin ses' = se_login_origin ses" "se_client_id ses' = se_client_id ses"
    "se_secret_name ses' = se_secret_name ses"
    using assms(2) by (auto simp: retires_def identity_def)
  show ?thesis
  proof (cases "awaited ses' = awaited ses")
    case True
    with assms(1) i show ?thesis by (auto simp: logged_def awaited_def)
  next
    case False
    with assms(2) have "se_status ses' \<noteq> PENDING_USER_ACTION" "se_status ses' \<noteq> CALLBACK_RECEIVED"
      by (auto simp: retires_def)
    with assms(1) i show ?thesis by (auto simp: logged_def)
  qed
qed

definition history_ok :: "registry_event list \<Rightarrow> 'w Registry \<Rightarrow> bool" where
  "history_ok log s \<longleftrightarrow>
     (\<forall>key ses. map_of (rg_sessions s) key = Some ses \<longrightarrow> logged log key ses) \<and>
     (\<forall>key c. map_of (rg_credentials s) key = Some c \<longrightarrow> credential_log log key = Some c)"

lemma touches_cases:
  assumes "touches R key s s'" "map_of (rg_sessions s') k = Some ses'" "\<And>ses. R ses ses"
  shows "\<exists>ses. map_of (rg_sessions s) k = Some ses \<and> (k = key \<and> R ses ses' \<or> ses' = ses)"
  using assms by (auto simp: touches_def smap.find_put split: if_splits)

lemma effect_logged:
  assumes "has_effect eff ev s s'" "map_of (rg_sessions s') k = Some ses'"
    and "\<And>ses. map_of (rg_sessions s) k = Some ses \<Longrightarrow> logged log k ses"
  shows "logged (ev # log) k ses'"
proof (cases eff)
  case (Touch key)
  with assms touches_cases [of retires key s s' k ses'] show ?thesis
    by (auto simp: logged_def [of "Quiet # log"] logged_def [of log, symmetric] dest: logged_retires)
next
  case (Release key)
  with assms(1) have "touches retires key s s'" by simp
  from touches_cases [OF this assms(2)] obtain ses where ses: "map_of (rg_sessions s) k = Some ses" "retires ses ses'"
    by auto
  with assms(3) logged_retires have "logged log k ses'" by blast
  show ?thesis
  proof (cases "k = key")
    case True
    with assms(1,2) Release have "se_status ses' = COMPLETING" by (auto simp: statuses_def)
    with \<open>logged log k ses'\<close> assms(1) Release True show ?thesis by (fastforce simp: logged_def)
  next
    case False
    with assms(1) Release have "session_log (ev # log) k = session_log log k" by auto
    with \<open>logged log k ses'\<close> show ?thesis by (simp add: logged_def)
  qed
next
  case (Arrive key auth_code)
  with assms show ?thesis
    by (auto simp: logged_def ex_bool_eq smap.find_put split: if_splits)
next
  case (Room now)
  with assms(1,2) obtain ses where "map_of (rg_sessions s) k = Some ses" "retires ses ses'" and q: "ev = Quiet"
    using room_session [of now s k ses'] by auto
  with assms(3) logged_retires have "logged log k ses'" by blast
  with q show ?thesis by (simp add: logged_def)
next
  case (Open r now key)
  show ?thesis
  proof (cases "k = key")
    case True
    with assms Open show ?thesis
      by (auto simp: opens_def smap.find_put logged_def session_of_request_def opening_of_def)
  next
    case False
    with assms(1,2) Open obtain ses where "map_of (rg_sessions s) k = Some ses" "retires ses ses'"
      using room_session [of now s k ses'] by (auto simp: opens_def smap.find_put)
    with assms(3) logged_retires have "logged log k ses'" by blast
    with assms(1) Open False show ?thesis by (simp add: logged_def)
  qed
next
  case (Store url token expiry key)
  with assms show ?thesis by (auto simp: stores_def logged_def)
next
  case Drop
  with assms show ?thesis by (auto simp: drops_def logged_def)
qed

lemma effect_credential:
  assumes "has_effect eff ev s s'" "map_of (rg_credentials s') k = Some c" "map_wf (rg_credentials s)"
    and "\<And>c. map_of (rg_credentials s) k = Some c \<Longrightarrow> credential_log log k = Some c"
  shows "credential_log (ev # log) k = Some c"
proof (cases eff)
  case (Store url token expiry key)
  with assms(1) obtain P where
    "rg_credentials s' = map_put key \<lparr>cd_instance_url = url, cd_access_token = token, cd_expires_at_ms = expiry\<rparr>
       (filter P (rg_credentials s))" "ev = Stored key url token expiry"
    by (auto simp: stores_def)
  with assms(2,4) map_of_filter_Some [OF assms(3), of P k c] show ?thesis
    by (auto simp: smap.find_put split: if_splits)
next
  case Drop
  with assms(1) obtain P where "rg_credentials s' = filter P (rg_credentials s)"
    and ev: "ev = Quiet \<or> (\<exists>key. ev = Removed key \<and> map_of (rg_credentials s') key = None)"
    by (auto simp: drops_def)
  with assms(2,4) map_of_filter_Some [OF assms(3), of P k c] show ?thesis by auto
qed (use assms in \<open>auto simp: touches_def opens_def\<close>)

lemma run_history: "registry_run env log s \<Longrightarrow> history_ok log s"
proof (induction rule: registry_run.induct)
  case (start w)
  then show ?case by (simp add: empty_registry_def history_ok_def)
next
  case (call log s c ev s')
  from call_effect [OF call.hyps(2)] obtain eff where e: "has_effect eff ev s s'" ..
  have "map_wf (rg_credentials s)" using run_registry_ok [OF call.hyps(1)] by (simp add: registry_ok_def)
  with call.IH effect_logged [OF e] effect_credential [OF e] show ?case by (simp add: history_ok_def)
qed

section \<open>Consequences\<close>

lemma run_logged: "registry_run env log s \<Longrightarrow> map_of (rg_sessions s) key = Some ses \<Longrightarrow> logged log key ses"
  by (drule run_history) (simp add: history_ok_def)

lemma run_releases:
  assumes "registry_run env log s" "BeginCompletion env key s = (Inr cm, s')"
  shows "\<exists>op. session_log log key = Some (op, Some (cm_authorization_code cm), False) \<and>
     cm_pkce_verifier cm = op_verifier op \<and> cm_login_origin cm = op_origin op \<and>
     cm_client_id cm = op_client op \<and> cm_secret_name cm = op_secret op"
  using BeginCompletion_returns [OF assms(2)] run_logged [OF assms(1), of key]
  by (auto simp: logged_def)

lemma run_receives:
  assumes "registry_run env log s" "ReceiveCallback env key state auth_code s = (Inr (), s')"
  shows "\<exists>op. session_log log key = Some (op, None, False) \<and> ConstantTimeEquals (op_state op) state \<and> auth_code \<noteq> []"
  using ReceiveCallback_cases [OF assms(2)] run_logged [OF assms(1), of key]
  by (auto simp: logged_def)

lemma run_resolves:
  assumes "registry_run env log s" "ResolveCredential env key s = (Inr (url, token), s')"
  shows "\<exists>expiry. credential_log log key = Some \<lparr>cd_instance_url = url, cd_access_token = token, cd_expires_at_ms = expiry\<rparr> \<and>
     fst (ae_NowMs env (rg_world s)) < expiry"
proof -
  from assms(2) obtain c where c: "map_of (rg_credentials s) key = Some c" "cd_instance_url c = url" "cd_access_token c = token"
    "fst (ae_NowMs env (rg_world s)) < cd_expires_at_ms c"
    by (auto simp: ResolveCredential_def registry_runs not_le split: option.splits if_splits)
  with run_history [OF assms(1)] have "credential_log log key = Some c" by (simp add: history_ok_def)
  with c show ?thesis by (intro exI [of _ "cd_expires_at_ms c"]) auto
qed

text \<open>A session in completion is ended by the completion only.\<close>

fun finishes :: "RegistryCall \<Rightarrow> byte_string \<Rightarrow> bool" where
  "finishes (FinishAuthorizedCall k) key \<longleftrightarrow> k = key"
| "finishes (FinishFailedCall k _) key \<longleftrightarrow> k = key"
| "finishes _ key \<longleftrightarrow> False"

lemma spec_step_completing:
  "spec_step m m' \<Longrightarrow> m key = Some COMPLETING \<Longrightarrow>
     m' key = Some COMPLETING \<or> m' key = Some AUTHORIZED \<or> m' key = Some FAILED_STATUS"
  by (induction rule: spec_step.induct) (auto simp: Terminal_def elim: may_move_from_completing)

lemma ExpireLocked_completing: "se_status ses = COMPLETING \<Longrightarrow> ExpireLocked ses now rel = (ses, None)"
  by (simp add: ExpireLocked_def)

lemma room_completing:
  assumes "map_wf (rg_sessions s)" "statuses (rg_sessions s) key = Some COMPLETING"
  shows "statuses (room now s) key = Some COMPLETING"
proof -
  from assms(2) obtain ses where "map_of (rg_sessions s) key = Some ses" "se_status ses = COMPLETING"
    by (auto simp: statuses_def)
  then have "map_of (fst (sweep now (rg_sessions s))) key = Some ses"
    by (simp add: map_of_sweep ExpireLocked_completing)
  with assms(1) \<open>se_status ses = COMPLETING\<close> have "map_of (room now s) key = Some ses"
    unfolding room_def by (intro evict_keeps_active) (simp_all add: Terminal_def)
  with \<open>se_status ses = COMPLETING\<close> show ?thesis by (simp add: statuses_def)
qed

text \<open>The operations on the session itself.\<close>

lemma completing_kept:
  assumes "map_of (rg_sessions s) key = Some ses" "se_status ses = COMPLETING"
  shows "statuses (rg_sessions (snd (Snapshot env key s))) key = Some COMPLETING"
    and "statuses (rg_sessions (snd (ReceiveCallback env key state auth_code s))) key = Some COMPLETING"
    and "statuses (rg_sessions (snd (ReceiveDenied env key state s))) key = Some COMPLETING"
    and "statuses (rg_sessions (snd (BeginCompletion env key s))) key = Some COMPLETING"
    and "statuses (rg_sessions (snd (Fail key fault s))) key = Some COMPLETING"
    and "statuses (rg_sessions (snd (CancelSession key s))) key = Some COMPLETING"
    and "statuses (rg_sessions (snd (StopCallback key s))) key = Some COMPLETING"
  using assms
  by (simp_all add: Snapshot_def ReceiveCallback_def ReceiveDenied_def BeginCompletion_def Fail_def
      CancelSession_def StopCallback_def FindLocked_run registry_runs ExpireLocked_completing statuses_put
      Terminal_def) (simp_all add: statuses_def)

lemma touches_elsewhere: "touches R k s s' \<Longrightarrow> k \<noteq> key \<Longrightarrow> statuses (rg_sessions s') key = statuses (rg_sessions s) key"
  by (auto simp: touches_def statuses_put)

lemma Create_completing:
  assumes "map_wf (rg_sessions s)" "statuses (rg_sessions s) key = Some COMPLETING"
  shows "statuses (rg_sessions (snd (Create env r s))) key = Some COMPLETING"
proof -
  obtain res s' where c: "Create env r s = (res, s')" by force
  from Create_cases(2) [OF c] obtain now where
    "rg_sessions s' = rg_sessions s \<or> rg_sessions s' = room now s \<or> (\<exists>k. opens r now k s s')" by blast
  with room_completing [OF assms, of now] assms(2) c show ?thesis
    by (auto simp: opens_def statuses_put) (simp add: statuses_def)
qed

lemma Create_ttl_completing:
  assumes "map_wf (rg_sessions s)" "statuses (rg_sessions s) key = Some COMPLETING"
  shows "statuses (rg_sessions (snd (Create_ttl env state verifier ttl ow s))) key = Some COMPLETING"
proof -
  have "map_wf (rg_sessions (s\<lparr>rg_world := w\<rparr>))" "statuses (rg_sessions (s\<lparr>rg_world := w\<rparr>)) key = Some COMPLETING" for w
    using assms by simp_all
  from Create_completing [OF this] assms(2) show ?thesis
    by (auto simp: Create_ttl_def registry_runs split: prod.split)
qed

lemma drops_sessions: "drops s s' \<Longrightarrow> rg_sessions s' = rg_sessions s"
  by (simp add: drops_def)

lemma StoreCredential_sessions: "rg_sessions (snd (StoreCredential env url token expiry s)) = rg_sessions s"
proof -
  obtain res s' where "StoreCredential env url token expiry s = (res, s')" by force
  with StoreCredential_cases [OF this] show ?thesis by (auto simp: stores_def drops_def)
qed

lemma observe_state: "snd (observe f out) = snd out"
  by (simp add: observe_def)

lemma call_completing:
  assumes "registry_ok s" "statuses (rg_sessions s) key = Some COMPLETING" "\<not> finishes c key"
  shows "statuses (rg_sessions (snd (registry_call env c s))) key = Some COMPLETING"
proof -
  obtain ses where ses: "map_of (rg_sessions s) key = Some ses" "se_status ses = COMPLETING"
    using assms(2) by (auto simp: statuses_def)
  have wf: "map_wf (rg_sessions s)" using assms(1) by (simp add: registry_ok_def)
  have other: "statuses (rg_sessions s') key = Some COMPLETING" if "touches R k s s'" "k \<noteq> key" for R k s'
    using touches_elsewhere [OF that] assms(2) by simp
  note kept = completing_kept [OF ses]
  have st: "snd (Status env k s) = snd (Snapshot env k s)" for k
    by (auto simp: Status_def sbind_def sret_def split: prod.split sum.split)
  show ?thesis
  proof (cases c)
    case (CreateCall r)
    with Create_completing [OF wf assms(2)] show ?thesis by (simp add: observe_state)
  next
    case (CreateTtlCall state verifier ttl ow)
    with Create_ttl_completing [OF wf assms(2)] show ?thesis by (simp add: observe_state)
  next
    case (FinishAuthorizedCall k)
    with assms(3) other [OF touches_finishing(1)] show ?thesis by (simp add: observe_state)
  next
    case (FinishFailedCall k fault)
    with assms(3) other [OF touches_finishing(2)] show ?thesis by (simp add: observe_state)
  next
    case (SnapshotCall k)
    with kept(1) other [OF touches_Snapshot] show ?thesis by (cases "k = key") (simp_all add: observe_state)
  next
    case (StatusCall k)
    with kept(1) other [OF touches_Snapshot] show ?thesis by (cases "k = key") (simp_all add: observe_state st)
  next
    case (ReceiveCallbackCall k state auth_code)
    with kept(2) other [OF touches_ReceiveCallback] show ?thesis by (cases "k = key") (simp_all add: observe_state)
  next
    case (ReceiveDeniedCall k state)
    with kept(3) other [OF touches_ReceiveDenied] show ?thesis by (cases "k = key") (simp_all add: observe_state)
  next
    case (BeginCompletionCall k)
    with kept(4) other [OF touches_BeginCompletion] show ?thesis by (cases "k = key") (simp_all add: observe_state)
  next
    case (FailCall k fault)
    with kept(5) other [OF touches_finishing(3)] show ?thesis by (cases "k = key") (simp_all add: observe_state)
  next
    case (CancelCall k)
    with kept(6) other [OF touches_finishing(4)] show ?thesis by (cases "k = key") (simp_all add: observe_state)
  next
    case (StopCallbackCall k)
    with kept(7) other [OF touches_StopCallback] show ?thesis by (cases "k = key") (simp_all add: observe_state)
  qed (use assms(2) in \<open>simp_all add: observe_state StoreCredential_sessions drops_sessions [OF ResolveCredential_drops]
        drops_sessions [OF RemoveCredential_drops]\<close>)
qed

end
