(* ===== verification/OAuth_Properties.thy ===== *)
theory OAuth_Properties
  imports Loopback_Correct OAuth_Origin Auth_History
begin

text \<open>
  The properties of the authorization library: values and encodings, the login origin and the
  authorization URL, the callback parser, the token response, and the session registry.
\<close>

section \<open>Values and encodings\<close>

text \<open>
  C27. The base64url encoding of any bytes is read back by a decoder that knows only the alphabet of
  RFC 4648 section 5, without padding, and has the length that encoding prescribes; the characters are
  those an authorization server accepts in a verifier.
\<close>
theorem base64url_roundtrip:
  "base64url_decode (Base64Url bytes) = bytes \<and> length (Base64Url bytes) = (8 * length bytes + 5) div 6 \<and>
   list_all base64url_char (Base64Url bytes)"
  using base64url_decode_encode [of bytes] length_Base64Url [of bytes] sextets_chars [of _ "byte_bits bytes"]
  by (simp add: Base64Url_sextets list_all_iff)

text \<open>
  Whatever the kernel's entropy source does, a verifier that is generated has 43 characters and is
  accepted by the challenge computation, which gives the encoding of its SHA-256 digest (or reports
  that the digest failed); a generated state or identifier has 22 characters, and all of them encode
  exactly the bytes drawn.
\<close>
theorem generated_values_usable:
  "GeneratePkceVerifier (SystemRandomSource_Fill getrandom fuel) w = (Inr v, w') \<Longrightarrow>
     length v = 43 \<and> length (base64url_decode v) = 32 \<and>
     CreateS256Challenge sha256 v =
       (case sha256 v of None \<Rightarrow> Inl ''SHA-256 unavailable'' | Some digest \<Rightarrow> Inr (Base64Url digest))"
  using system_random.verifier_usable [of getrandom fuel w v w']
    system_random.Generate_value [of getrandom fuel 32 w v w']
  by (auto simp: CreateS256Challenge_def Sha256_def GeneratePkceVerifier_def split: option.split)

definition demo_getrandom :: "nat \<Rightarrow> nat \<Rightarrow> getrandom_result \<times> nat" where
  "demo_getrandom k w = (if w = 1 then Interrupted else Got (replicate (min k 5) (of_nat w)), w + 1)"

lemma demo_verifier:
  "GeneratePkceVerifier (SystemRandomSource_Fill demo_getrandom 10) 0 =
     (Inr ''AAAAAAACAgICAgMDAwMDBAQEBAQFBQUFBQYGBgYGBwc'', 8)"
  by code_simp

theorem generated_values_usable_witness:
  "CreateS256Challenge (\<lambda>_. Some [1, 2, 3]) ''AAAAAAACAgICAgMDAwMDBAQEBAQFBQUFBQYGBgYGBwc'' = Inr ''AQID''"
proof -
  have "Base64Url [1, 2, 3] = ''AQID''" by code_simp
  with generated_values_usable [OF demo_verifier, of "\<lambda>_. Some [1, 2, 3]"] show ?thesis by simp
qed

text \<open>
  An entropy source that is never interrupted fills a buffer of \<open>n\<close> bytes, or fails, within \<open>n\<close>
  calls: the loop does not run for ever.
\<close>
theorem entropy_loop_ends:
  assumes "\<And>k v. fst (getrandom k v) \<noteq> Interrupted"
  shows "fst (SystemRandomSource_Fill getrandom n n w) \<noteq> Inl StillRunning"
proof -
  have no: "fst (fill_loop getrandom n n [] w) \<noteq> None" by (rule fill_loop_ends [OF assms]) simp_all
  have "fst (fill_loop getrandom f m st v) \<noteq> Some (Inl StillRunning)" for f m st v
    by (induction getrandom f m st v rule: fill_loop.induct)
      (subst fill_loop.simps, auto simp: entropy_error_def split: nat.splits prod.splits getrandom_result.splits)
  then have "fst (fill_loop getrandom n n [] w) \<noteq> Some (Inl StillRunning)" .
  with no show ?thesis by (auto simp: SystemRandomSource_Fill_def split: prod.splits option.splits)
qed

theorem entropy_loop_ends_witness:
  "fst (SystemRandomSource_Fill (\<lambda>k w. (Got (replicate (min k 5) 7), w)) 3 3 ()) \<noteq> Inl StillRunning"
  by (rule entropy_loop_ends) simp

text \<open>
  The comparison that always reads both strings to the end decides equality, for every length a
  64-bit size can have; in particular strings that differ only in trailing zero bytes are told apart.
\<close>
theorem constant_time_comparison:
  "length left < 2 ^ 64 \<Longrightarrow> length right < 2 ^ 64 \<Longrightarrow> ConstantTimeEquals left right \<longleftrightarrow> left = right"
  by (rule ConstantTimeEquals_iff)

theorem constant_time_comparison_witness:
  "\<not> ConstantTimeEquals ''state'' (''state'' @ [CHR 0x00]) \<and> ConstantTimeEquals ''state'' ''state''"
  using constant_time_comparison [of "''state''" "''state'' @ [CHR 0x00]"]
    constant_time_comparison [of "''state''" "''state''"] by simp

section \<open>The login origin and the authorization URL\<close>

text \<open>
  C26. The login origins that are accepted are exactly those of the two fixed Salesforce hosts and of
  the well-formed DNS names below \<open>.my.salesforce.com\<close>, over HTTPS, with no port, path, query or
  user information, up to one trailing slash, which is removed.
\<close>
theorem login_origin_exact:
  "ValidateSalesforceLoginOrigin origin = Inr r \<longleftrightarrow>
     (\<exists>host. login_host host \<and> r = ''https://'' @ host \<and> (origin = r \<or> origin = r @ ''/''))"
  by (rule ValidateSalesforceLoginOrigin_iff)

text \<open>
  The authorization URL goes to the validated origin and has exactly the seven parameters of an
  authorization code request with an S256 challenge and the fixed loopback redirect: no value given
  by the user can add, remove or change another parameter, and the client identifier is read back.
\<close>
theorem authorization_url_exact:
  assumes "BuildSalesforceAuthorizationUrl login_origin client_id code_challenge state redirect_uri = Inr url"
  shows "\<exists>host query. login_host host \<and>
     url = ''https://'' @ host @ ''/services/oauth2/authorize?'' @ query \<and>
     split_on CHR ''&'' query =
       [''response_type=code'', ''client_id='' @ PercentEncode client_id,
        ''redirect_uri='' @ PercentEncode FixedOAuthCallbackUrl, ''scope=api%20cdp_query_api'',
        ''code_challenge='' @ PercentEncode code_challenge, ''code_challenge_method=S256'',
        ''state='' @ PercentEncode state] \<and>
     PercentDecode (PercentEncode client_id) = Inr client_id"
  using BuildSalesforceAuthorizationUrl_structure [OF assms] by (auto simp: ValidateSalesforceLoginOrigin_iff)

definition demo_url :: byte_string where
  "demo_url = ''https://acme.my.salesforce.com/services/oauth2/authorize?response_type=code&client_id=a%26b'' @
     ''&redirect_uri=http%3A%2F%2Flocalhost%3A8910%2Foauth%2Fcallback&scope=api%20cdp_query_api'' @
     ''&code_challenge=AAAAAAAAAAAAAAAAAAAAAAAAAAAAAAAAAAAAAAAAAAA&code_challenge_method=S256&state=AQID''"

lemma demo_url_built:
  "BuildSalesforceAuthorizationUrl ''https://acme.my.salesforce.com/'' ''a&b''
     ''AAAAAAAAAAAAAAAAAAAAAAAAAAAAAAAAAAAAAAAAAAA'' ''AQID'' FixedOAuthCallbackUrl = Inr demo_url"
  by code_simp

theorem authorization_url_exact_witness:
  "\<exists>host query. login_host host \<and> demo_url = ''https://'' @ host @ ''/services/oauth2/authorize?'' @ query \<and>
     length (split_on CHR ''&'' query) = 7"
  using authorization_url_exact [OF demo_url_built] by force


definition demo_fields :: "(byte_string \<times> byte_string) list" where
  "demo_fields = [(''code'', ''a&b=c''), (''state'', ''AQID'')]"

lemma demo_fields_sendable:
  "list_all transmissible demo_fields \<and> demo_fields \<noteq> [] \<and> distinct (map fst demo_fields)"
  "length (callback_request demo_fields) \<le> MAX_CALLBACK_REQUEST_BYTES"
  "callback_fields demo_fields = Inr (make_CallbackResult CODE_RECEIVED ''AQID'' ''a&b=c'' [])"
  by code_simp+


text \<open>
  C25. A request is accepted only within 8192 bytes, on the fixed path and without a body; the result
  has a state, and a code exactly where it says so. The code can be taken once.
\<close>
theorem callback_acceptance:
  assumes "ParseOAuthCallbackRequest request = Inr r"
  shows "length request \<le> 8192 \<and> prefix ''GET /oauth/callback?'' request \<and> suffix (crlf @ crlf) request \<and>
     cb_state r \<noteq> [] \<and> (cb_status r = CODE_RECEIVED \<longleftrightarrow> cb_code r \<noteq> []) \<and>
     (case TakeCode r of
        (Inl e, r') \<Rightarrow> cb_status r = ACCESS_DENIED \<and> r' = r
      | (Inr auth_code, r') \<Rightarrow> auth_code = cb_code r \<and> cb_code r' = [] \<and> isl (fst (TakeCode r')))"
  using ParseOAuthCallbackRequest_accepts [OF assms]
  by (cases "cb_status r") (auto simp: TakeCode_def MAX_CALLBACK_REQUEST_BYTES_def request_prefix_def)

theorem callback_acceptance_witness:
  "fst (TakeCode (make_CallbackResult CODE_RECEIVED ''AQID'' ''a&b=c'' [])) = Inr ''a&b=c'' \<and>
   suffix (crlf @ crlf) (callback_request demo_fields)"
proof -
  have "ParseOAuthCallbackRequest (callback_request demo_fields) = Inr (make_CallbackResult CODE_RECEIVED ''AQID'' ''a&b=c'' [])"
    using ParseOAuthCallbackRequest_request [of demo_fields] demo_fields_sendable by (simp add: list_all_iff)
  from callback_acceptance [OF this] show ?thesis by (simp add: TakeCode_def make_CallbackResult_def)
qed

text \<open>
  C28. A token response that is accepted came from a body of at most 64 KiB with an object without
  duplicate members at its root; the token and the instance URL are not empty and bounded, the
  lifetime is at most a year of seconds.
\<close>
theorem token_response_bounds:
  assumes "ParseOAuthTokenResponse js json = Inr r"
  shows "length json \<le> 65536 \<and> tr_access_token r \<noteq> [] \<and> length (tr_access_token r) \<le> 16384 \<and>
     tr_instance_url r \<noteq> [] \<and> length (tr_instance_url r) \<le> 2048 \<and> tr_expires_in_seconds r \<le> 31536000 \<and>
     (\<exists>root. yy_read js False json = Some root \<and> yy_is_obj js root \<and> distinct (yy_obj_keys js root))"
  using assms
  by (auto simp: ParseOAuthTokenResponse_def BoundedJsonString_def token_lifetime_def not_less
      split: if_splits option.splits)

definition demo_token_text :: byte_string where
  "demo_token_text = ''{...}''"

definition demo_yyjson :: "json Yyjson" where
  "demo_yyjson = json_tree [(demo_token_text, JObj [(''access_token'', JStr ''token''),
     (''instance_url'', JStr ''https://acme.my.salesforce.com''), (''token_type'', JStr ''Bearer''), (''expires_in'', JUint 7200)])]"

theorem token_response_bounds_witness:
  "\<exists>root. yy_read demo_yyjson False demo_token_text = Some root \<and> yy_is_obj demo_yyjson root"
proof -
  have "ParseOAuthTokenResponse demo_yyjson demo_token_text =
      Inr \<lparr>tr_access_token = ''token'', tr_instance_url = ''https://acme.my.salesforce.com'', tr_expires_in_seconds = 7200\<rparr>"
    by (simp add: ParseOAuthTokenResponse_def demo_yyjson_def demo_token_text_def BoundedJsonString_def token_lifetime_def)
  from token_response_bounds [OF this] show ?thesis by blast
qed

section \<open>The registry\<close>

text \<open>A registry whose clock and random source count, for evaluation.\<close>

definition demo_auth :: "nat AuthEnv" where
  "demo_auth = \<lparr>ae_random = (\<lambda>n w. (Inr (replicate n (of_nat w)), w + 1)), ae_NowMs = (\<lambda>w. (of_nat w, w + 1))\<rparr>"

definition demo_request :: AuthStartRequest where
  "demo_request = \<lparr>as_login_origin = ''https://login.salesforce.com'', as_client_id = ''client'', as_secret_name = ''secret'',
     as_expected_state = ''state'', as_pkce_verifier = ''verifier'', as_expires_at_monotonic_ms = 50,
     as_expires_at_utc_micros = 50000, as_callback_owner = Some 1\<rparr>"

definition demo_id :: byte_string where
  "demo_id = ''AQEBAQEBAQEBAQEBAQEBAQ''"

fun demo_calls :: "RegistryCall list \<Rightarrow> registry_event list \<times> nat Registry \<Rightarrow> registry_event list \<times> nat Registry" where
  "demo_calls [] (log, s) = (log, s)"
| "demo_calls (c # cs) (log, s) = (case registry_call demo_auth c s of (ev, s') \<Rightarrow> demo_calls cs (ev # log, s'))"

lemma demo_calls_run:
  "registry_run demo_auth log s \<Longrightarrow> demo_calls cs (log, s) = (log', s') \<Longrightarrow> registry_run demo_auth log' s'"
proof (induction cs arbitrary: log s)
  case (Cons c cs)
  obtain ev s1 where "registry_call demo_auth c s = (ev, s1)" by force
  with Cons registry_run.call [OF Cons.prems(1) this] show ?case by auto
qed simp

definition demo_registry :: "RegistryCall list \<Rightarrow> nat Registry" where
  "demo_registry cs = snd (demo_calls cs ([], empty_registry 0))"

definition demo_log :: "RegistryCall list \<Rightarrow> registry_event list" where
  "demo_log cs = fst (demo_calls cs ([], empty_registry 0))"

lemma demo_registry_run: "registry_run demo_auth (demo_log cs) (demo_registry cs)"
  by (rule demo_calls_run [OF registry_run.start, of cs 0]) (simp add: demo_log_def demo_registry_def)

definition demo_material :: AuthCompletionMaterial where
  "demo_material = \<lparr>cm_authorization_code = ''code'', cm_pkce_verifier = ''verifier'',
     cm_login_origin = ''https://login.salesforce.com'', cm_client_id = ''client'', cm_secret_name = ''secret''\<rparr>"

abbreviation demo_open :: "RegistryCall list" where
  "demo_open \<equiv> [CreateCall demo_request]"

abbreviation demo_received :: "RegistryCall list" where
  "demo_received \<equiv> demo_open @ [ReceiveCallbackCall demo_id ''state'' ''code'']"

abbreviation demo_completing :: "RegistryCall list" where
  "demo_completing \<equiv> demo_received @ [BeginCompletionCall demo_id]"

lemma demo_facts:
  "fst (ReceiveCallback demo_auth demo_id ''state'' ''code'' (demo_registry demo_open)) = Inr ()"
  "fst (BeginCompletion demo_auth demo_id (demo_registry demo_received)) = Inr demo_material"
  "statuses (rg_sessions (demo_registry demo_completing)) demo_id = Some COMPLETING"
  "map_option se_expected_state (map_of (rg_sessions (demo_registry demo_open)) demo_id) = Some ''state''"
  by code_simp+

text \<open>
  C17. In every run of the registry there are at most 32 sessions, of which at most 4 active, and at
  most 16 credentials; a session that has ended keeps no state, verifier or code, and a fault is
  recorded exactly for the sessions that were denied, expired or failed.
\<close>
theorem registry_invariant:
  assumes "registry_run env log s"
  shows "SessionCount s \<le> 32 \<and> active_count (rg_sessions s) \<le> 4 \<and> CredentialCount s \<le> 16 \<and>
     (map_of (rg_sessions s) key = Some ses \<and> Terminal (se_status ses) \<longrightarrow>
        se_expected_state ses = [] \<and> se_pkce_verifier ses = [] \<and> se_authorization_code ses = [] \<and>
        (se_fault ses = None \<longleftrightarrow> se_status ses = AUTHORIZED \<or> se_status ses = CANCELLED))"
  using run_registry_ok [OF assms] registry_ok_ended [OF run_registry_ok [OF assms], of key ses]
  by (simp add: registry_ok_def SessionCount_def CredentialCount_def)

theorem registry_invariant_witness:
  "SessionCount (demo_registry demo_completing) \<le> 32 \<and> active_count (rg_sessions (demo_registry demo_completing)) \<le> 4"
  using registry_invariant [OF demo_registry_run [of demo_completing]] by simp



text \<open>
  C19. An authorization code is handed to the completion at most once: only where the session was
  opened, received that code and has not released it, and together with the verifier, the origin,
  the client and the secret name the session was opened with.
\<close>
theorem code_released_once:
  assumes "registry_run env log s" "BeginCompletion env key s = (Inr cm, s')"
  shows "\<exists>op. session_log log key = Some (op, Some (cm_authorization_code cm), False) \<and>
     cm_pkce_verifier cm = op_verifier op \<and> cm_login_origin cm = op_origin op \<and>
     cm_client_id cm = op_client op \<and> cm_secret_name cm = op_secret op"
  by (rule run_releases [OF assms])

theorem code_released_once_witness:
  "\<exists>op. session_log (demo_log demo_received) demo_id = Some (op, Some ''code'', False) \<and> op_verifier op = ''verifier''"
proof -
  have "BeginCompletion demo_auth demo_id (demo_registry demo_received) =
      (Inr demo_material, snd (BeginCompletion demo_auth demo_id (demo_registry demo_received)))"
    using demo_facts(2) by (metis surjective_pairing)
  from code_released_once [OF demo_registry_run [of demo_received] this] show ?thesis by (auto simp: demo_material_def)
qed

text \<open>
  C20. A callback is taken only with the state the session was opened with, before anything else
  was received for it, and with a code.
\<close>
theorem callback_needs_state:
  assumes "registry_run env log s" "ReceiveCallback env key state auth_code s = (Inr (), s')"
    and "length state < 2 ^ 64" "map_of (rg_sessions s) key = Some ses" "length (se_expected_state ses) < 2 ^ 64"
  shows "\<exists>op. session_log log key = Some (op, None, False) \<and> state = op_state op \<and> auth_code \<noteq> []"
  using run_logged [OF assms(1,4)] ReceiveCallback_cases [OF assms(2)] assms(3-)
  by (auto simp: logged_def ConstantTimeEquals_iff)

theorem callback_needs_state_witness:
  "\<exists>op. session_log (demo_log demo_open) demo_id = Some (op, None, False) \<and> ''state'' = op_state op"
proof -
  have r: "ReceiveCallback demo_auth demo_id ''state'' ''code'' (demo_registry demo_open) =
      (Inr (), snd (ReceiveCallback demo_auth demo_id ''state'' ''code'' (demo_registry demo_open)))"
    using demo_facts(1) by (metis surjective_pairing)
  obtain ses where "map_of (rg_sessions (demo_registry demo_open)) demo_id = Some ses" "se_expected_state ses = ''state''"
    using demo_facts(4) by auto
  with callback_needs_state [OF demo_registry_run [of demo_open] r] show ?thesis by auto
qed

text \<open>
  C21. Once the completion has begun, no call but the completion's own end changes the status of the
  session: not expiry, not cancellation, not a late callback or listener fault, and it is never evicted.
\<close>
theorem completion_exclusive:
  assumes "registry_run env log s" "statuses (rg_sessions s) key = Some COMPLETING" "\<not> finishes c key"
  shows "statuses (rg_sessions (snd (registry_call env c s))) key = Some COMPLETING"
  by (rule call_completing [OF run_registry_ok [OF assms(1)] assms(2,3)])

theorem completion_exclusive_witness:
  "statuses (rg_sessions (snd (registry_call demo_auth (CancelCall demo_id) (demo_registry demo_completing)))) demo_id =
     Some COMPLETING"
  using completion_exclusive [OF demo_registry_run [of demo_completing] demo_facts(3), of "CancelCall demo_id"] by simp

text \<open>
  C22. A credential that resolves is the one last stored under that name and not removed since, and it
  has not expired.
\<close>
theorem credential_resolution:
  assumes "registry_run env log s" "ResolveCredential env key s = (Inr (url, token), s')"
  shows "\<exists>expiry. credential_log log key = Some \<lparr>cd_instance_url = url, cd_access_token = token, cd_expires_at_ms = expiry\<rparr> \<and>
     fst (ae_NowMs env (rg_world s)) < expiry"
  by (rule run_resolves [OF assms])

definition demo_stored :: "RegistryCall list" where
  "demo_stored = [StoreCredentialCall ''https://a'' ''token'' 50]"

definition demo_credential :: byte_string where
  "demo_credential = ''AgICAgICAgICAgICAgICAg''"

lemma demo_resolves: "fst (ResolveCredential demo_auth demo_credential (demo_registry demo_stored)) = Inr (''https://a'', ''token'')"
  by code_simp

theorem credential_resolution_witness:
  "\<exists>expiry. credential_log (demo_log demo_stored) demo_credential =
     Some \<lparr>cd_instance_url = ''https://a'', cd_access_token = ''token'', cd_expires_at_ms = expiry\<rparr>"
proof -
  have "ResolveCredential demo_auth demo_credential (demo_registry demo_stored) =
      (Inr (''https://a'', ''token''), snd (ResolveCredential demo_auth demo_credential (demo_registry demo_stored)))"
    using demo_resolves by (metis surjective_pairing)
  from credential_resolution [OF demo_registry_run [of demo_stored] this] show ?thesis by blast
qed




end
