(* ===== verification/Type_Mapping.thy ===== *)
theory Type_Mapping
  imports Query_Validation
begin

text \<open>
  \<open>type_mapping.cpp\<close>, the binding of a mapped type to a DuckDB type and the Arrow fields expected of
  a result (\<open>data360_extension.cpp\<close>), and the check of an Arrow schema and of the media type
  (\<open>arrow_ipc_chunk_reader.cpp\<close>).
\<close>

section \<open>MapData360Type\<close>

record TypeMapping =
  tm_duckdb_type :: byte_string
  tm_arrow_format :: byte_string
  tm_lossy :: bool

text \<open>
  The match of \<open>DECIMAL\(([0-9]+),([0-9]+)\)\<close> with the whole string: its two groups. A digit is never
  the separator, so the longest runs of digits are the only candidates.
\<close>

definition decimal_match :: "byte_string \<Rightarrow> (byte_string \<times> byte_string) option" where
  "decimal_match t =
     (if \<not> prefix ''DECIMAL('' t then None
      else let r = drop (length ''DECIMAL('') t; p = takeWhile isdigit r
           in case dropWhile isdigit r of
                [] \<Rightarrow> None
              | c # r2 \<Rightarrow>
                  if c = CHR '','' \<and> p \<noteq> [] \<and> takeWhile isdigit r2 \<noteq> [] \<and> dropWhile isdigit r2 = '')''
                  then Some (p, takeWhile isdigit r2) else None)"

text \<open>\<open>std::stoul\<close> on digits; \<open>None\<close> is \<open>std::out_of_range\<close>.\<close>

definition stoul :: "byte_string \<Rightarrow> nat option" where
  "stoul s = (if int (digits_value s) < 2 ^ 64 then Some (digits_value s) else None)"

definition decimal_mapping :: "byte_string \<Rightarrow> byte_string \<Rightarrow> byte_string \<Rightarrow> TypeMapping" where
  "decimal_mapping normalized p s =
     (case (stoul p, stoul s) of
        (Some precision, Some scale) \<Rightarrow>
          if precision = 0 \<or> 38 < precision \<or> precision < scale
          then \<lparr>tm_duckdb_type = ''VARCHAR'', tm_arrow_format = ''u'', tm_lossy = True\<rparr>
          else \<lparr>tm_duckdb_type = normalized, tm_arrow_format = ''d:'' @ p @ '','' @ s, tm_lossy = False\<rparr>
      | _ \<Rightarrow> \<lparr>tm_duckdb_type = ''VARCHAR'', tm_arrow_format = ''u'', tm_lossy = True\<rparr>)"

definition MapData360Type :: "byte_string \<Rightarrow> TypeMapping" where
  "MapData360Type data360_type =
     (let normalized = upper_string data360_type
      in case decimal_match normalized of
           Some (p, s) \<Rightarrow> decimal_mapping normalized p s
         | None \<Rightarrow>
             if normalized = ''TIMESTAMP_WITH_TIME_ZONE'' \<or> normalized = ''TIMESTAMP_TZ'' \<or> normalized = ''TIMESTAMPTZ''
             then \<lparr>tm_duckdb_type = ''TIMESTAMPTZ'', tm_arrow_format = ''tsu:UTC'', tm_lossy = False\<rparr>
             else if normalized = ''TIMESTAMP'' \<or> normalized = ''DATETIME''
             then \<lparr>tm_duckdb_type = ''TIMESTAMP'', tm_arrow_format = ''tsu:'', tm_lossy = False\<rparr>
             else if normalized = ''BOOLEAN'' \<or> normalized = ''BOOL''
             then \<lparr>tm_duckdb_type = ''BOOLEAN'', tm_arrow_format = ''b'', tm_lossy = False\<rparr>
             else if normalized = ''NUMERIC''
             then \<lparr>tm_duckdb_type = ''DECIMAL(38,18)'', tm_arrow_format = ''d:38,18'', tm_lossy = False\<rparr>
             else if normalized = ''INTEGER'' \<or> normalized = ''INT''
             then \<lparr>tm_duckdb_type = ''INTEGER'', tm_arrow_format = ''i'', tm_lossy = False\<rparr>
             else if normalized = ''BIGINT'' \<or> normalized = ''LONG''
             then \<lparr>tm_duckdb_type = ''BIGINT'', tm_arrow_format = ''l'', tm_lossy = False\<rparr>
             else if normalized = ''DOUBLE'' \<or> normalized = ''NUMBER''
             then \<lparr>tm_duckdb_type = ''DOUBLE'', tm_arrow_format = ''g'', tm_lossy = False\<rparr>
             else if normalized = ''DATE''
             then \<lparr>tm_duckdb_type = ''DATE'', tm_arrow_format = ''tdD'', tm_lossy = False\<rparr>
             else if normalized = ''VARCHAR'' \<or> normalized = ''TEXT'' \<or> normalized = ''STRING''
             then \<lparr>tm_duckdb_type = ''VARCHAR'', tm_arrow_format = ''u'', tm_lossy = False\<rparr>
             else \<lparr>tm_duckdb_type = ''VARCHAR'', tm_arrow_format = ''u'', tm_lossy = True\<rparr>)"

section \<open>Binding a type\<close>

datatype LogicalType =
    VARCHAR | BOOLEAN | DATE | TIMESTAMP | TIMESTAMP_TZ | INTEGER | BIGINT | DOUBLE | DECIMAL u8 u8
  | UINTEGER | UBIGINT

text \<open>One \<open>%u\<close> of \<open>sscanf\<close>: leading white space, a sign, digits; the value and the rest.\<close>

definition scan_space :: "char \<Rightarrow> bool" where
  "scan_space c \<longleftrightarrow> code c = 32 \<or> 9 \<le> code c \<and> code c \<le> 13"

definition scan_unsigned :: "byte_string \<Rightarrow> (u32 \<times> byte_string) option" where
  "scan_unsigned s =
     (let r = dropWhile scan_space s;
          signed = (r \<noteq> [] \<and> (hd r = CHR ''+'' \<or> hd r = CHR ''-''));
          body = (if signed then tl r else r);
          digits = takeWhile isdigit body;
          value = (if int (digits_value digits) < 2 ^ 64
                   then if signed \<and> hd r = CHR ''-'' then - (of_nat (digits_value digits) :: u64)
                        else of_nat (digits_value digits)
                   else 0xFFFFFFFFFFFFFFFF)
      in if digits = [] then None else Some (ucast value, dropWhile isdigit body))"

text \<open>\<open>sscanf(s, "DECIMAL(%u,%u)", ...) == 2\<close>; what follows the second number is not looked at.\<close>

definition scan_decimal :: "byte_string \<Rightarrow> (u32 \<times> u32) option" where
  "scan_decimal s =
     (if \<not> prefix ''DECIMAL('' s then None
      else case scan_unsigned (drop (length ''DECIMAL('') s) of
             None \<Rightarrow> None
           | Some (width, r) \<Rightarrow>
               if r = [] \<or> hd r \<noteq> CHR '','' then None
               else (case scan_unsigned (tl r) of
                       None \<Rightarrow> None
                     | Some (scale, _) \<Rightarrow> Some (width, scale)))"

definition BindLogicalType :: "TypeMapping \<Rightarrow> byte_string + LogicalType" where
  "BindLogicalType mapping =
     (let t = tm_duckdb_type mapping
      in if t = ''VARCHAR'' then Inr VARCHAR
         else if t = ''BOOLEAN'' then Inr BOOLEAN
         else if t = ''DATE'' then Inr DATE
         else if t = ''TIMESTAMP'' then Inr TIMESTAMP
         else if t = ''TIMESTAMPTZ'' then Inr TIMESTAMP_TZ
         else if t = ''INTEGER'' then Inr INTEGER
         else if t = ''BIGINT'' then Inr BIGINT
         else if t = ''DOUBLE'' then Inr DOUBLE
         else case scan_decimal t of
                Some (width, scale) \<Rightarrow>
                  if width \<le> 38 \<and> scale \<le> width then Inr (DECIMAL (ucast width) (ucast scale))
                  else Inl ''Data 360 metadata contained an unsupported type''
              | None \<Rightarrow> Inl ''Data 360 metadata contained an unsupported type'')"

text \<open>The mapping of a result column, and its binding (the loop body of \<open>Data360QueryBind\<close>).\<close>

definition column_mapping :: "ColumnMetadata \<Rightarrow> TypeMapping" where
  "column_mapping column =
     (if lower_string (cm_type column) = ''numeric'' \<and> cm_has_precision column \<and> cm_has_scale column
      then MapData360Type (''DECIMAL('' @ to_string (unat (cm_precision column)) @ '','' @
             to_string (unat (cm_scale column)) @ '')'')
      else MapData360Type (cm_type column))"

definition bind_column :: "ColumnMetadata \<Rightarrow> byte_string + LogicalType" where
  "bind_column column =
     (if cm_name column = [] then Inl ''Data 360 query returned an unnamed column''
      else BindLogicalType (column_mapping column))"

section \<open>Arrow fields\<close>

datatype ArrowFieldKind =
    BOOL | INT32 | INT64 | DOUBLE_FIELD | UTF8 | DATE32 | DATE64 | TIMESTAMP_US_UTC | DECIMAL128

record ExpectedArrowField =
  ef_name :: byte_string
  ef_kind :: ArrowFieldKind
  ef_nullable :: bool
  ef_precision :: u8
  ef_scale :: u8

definition expected_field :: "ColumnMetadata \<Rightarrow> byte_string + ExpectedArrowField" where
  "expected_field column =
     (let t = lower_string (cm_type column);
          field = \<lambda>kind. \<lparr>ef_name = cm_name column, ef_kind = kind, ef_nullable = cm_nullable column,
                          ef_precision = 0, ef_scale = 0\<rparr>
      in if t = ''bool'' \<or> t = ''boolean'' then Inr (field BOOL)
         else if t = ''integer'' \<or> t = ''int'' then Inr (field INT32)
         else if t = ''bigint'' then Inr (field INT64)
         else if t = ''double'' then Inr (field DOUBLE_FIELD)
         else if t = ''varchar'' \<or> t = ''string'' then Inr (field UTF8)
         else if t = ''date'' then Inr (field DATE64)
         else if t = ''timestamp'' \<or> t = ''timestamptz'' \<or> t = ''timestamp_with_time_zone''
           then Inr (field TIMESTAMP_US_UTC)
         else if t = ''numeric''
           then if \<not> cm_has_precision column \<or> \<not> cm_has_scale column
                then Inl ''Data 360 numeric metadata was incomplete''
                else Inr ((field DECIMAL128)\<lparr>ef_precision := cm_precision column, ef_scale := cm_scale column\<rparr>)
         else Inl ''Data 360 Arrow metadata contained an unsupported type'')"

definition ExpectedArrowSchema :: "ColumnMetadata list \<Rightarrow> byte_string + ExpectedArrowField list" where
  "ExpectedArrowSchema metadata = etraverse expected_field metadata"

definition ExpectedFormat :: "ExpectedArrowField \<Rightarrow> byte_string" where
  "ExpectedFormat field =
     (case ef_kind field of
        BOOL \<Rightarrow> ''b''
      | INT32 \<Rightarrow> ''i''
      | INT64 \<Rightarrow> ''l''
      | DOUBLE_FIELD \<Rightarrow> ''g''
      | UTF8 \<Rightarrow> ''u''
      | DATE32 \<Rightarrow> ''tdD''
      | DATE64 \<Rightarrow> ''tdm''
      | TIMESTAMP_US_UTC \<Rightarrow> ''tsu:UTC''
      | DECIMAL128 \<Rightarrow> ''d:'' @ to_string (unat (ef_precision field)) @ '','' @ to_string (unat (ef_scale field)))"

definition FormatMatches :: "ExpectedArrowField \<Rightarrow> byte_string option \<Rightarrow> bool" where
  "FormatMatches field actual =
     (case actual of
        None \<Rightarrow> False
      | Some format \<Rightarrow>
          if ef_kind field = TIMESTAMP_US_UTC then format = ''tsu:UTC'' \<or> format = ''tsu:Utc''
          else ExpectedFormat field = format)"

text \<open>The Arrow C schema of the stream, as far as it is read; \<open>None\<close> is a null pointer.\<close>

record ArrowChild =
  ac_name :: "byte_string option"
  ac_format :: "byte_string option"
  ac_flags :: "64 word"

record ArrowSchema =
  as_format :: "byte_string option"
  as_children :: "ArrowChild option list"

definition ARROW_FLAG_NULLABLE :: "64 word" where
  "ARROW_FLAG_NULLABLE = 2"

definition child_ok :: "ExpectedArrowField \<Rightarrow> ArrowChild option \<Rightarrow> bool" where
  "child_ok field child =
     (case child of
        None \<Rightarrow> False
      | Some c \<Rightarrow>
          ac_name c \<noteq> None \<and> ac_format c \<noteq> None \<and> ac_name c = Some (ef_name field) \<and>
          FormatMatches field (ac_format c) \<and>
          ((ac_flags c AND ARROW_FLAG_NULLABLE) \<noteq> 0) = ef_nullable field \<and>
          \<not> (ef_kind field = DECIMAL128 \<and>
             (ef_precision field = 0 \<or> 38 < ef_precision field \<or> ef_precision field < ef_scale field)))"

definition ValidateSchema :: "ArrowSchema \<Rightarrow> ExpectedArrowField list \<Rightarrow> bool" where
  "ValidateSchema schema expected \<longleftrightarrow>
     as_format schema = Some ''+s'' \<and> length (as_children schema) = length expected \<and>
     list_all2 child_ok expected (as_children schema)"

section \<open>The media type\<close>

definition ARROW_MEDIA_TYPE :: byte_string where
  "ARROW_MEDIA_TYPE = ''application/vnd.apache.arrow.stream''"

definition IsTokenCharacter :: "char \<Rightarrow> bool" where
  "IsTokenCharacter c \<longleftrightarrow> isalnum c \<or> c \<in> set (''!#$%&*+-.^_|~'' @ [CHR 0x27, CHR 0x60])"

definition media_blank :: "char \<Rightarrow> bool" where
  "media_blank c \<longleftrightarrow> c = CHR '' '' \<or> c = CHR 0x09"

definition media_trim :: "byte_string \<Rightarrow> byte_string" where
  "media_trim s = rev (dropWhile media_blank (rev (dropWhile media_blank s)))"

definition parameter_ok :: "byte_string \<Rightarrow> bool" where
  "parameter_ok text =
     (let parameter = media_trim text
      in case str_find ''='' parameter of
           None \<Rightarrow> False
         | Some equals \<Rightarrow>
             if equals = 0 \<or> equals + 1 = length parameter then False
             else list_all IsTokenCharacter (take equals parameter) \<and>
                  list_all IsTokenCharacter (drop (equals + 1) parameter))"

text \<open>The text before the first semicolon, and the loop over the parameters behind it.\<close>

definition IsArrowMediaType :: "byte_string \<Rightarrow> bool" where
  "IsArrowMediaType value =
     (case split_on CHR '';'' value of
        [] \<Rightarrow> False
      | base # parameters \<Rightarrow>
          lower_string (media_trim base) = ARROW_MEDIA_TYPE \<and> list_all parameter_ok parameters)"

end
