(* ===== verification/Json_Codec.thy ===== *)
theory Json_Codec
  imports Query_Session Yyjson
begin

text \<open>
  \<open>JsonQueryResponseCodec\<close> of \<open>native_runtime.cpp\<close>: the reading of a Query API response, from its
  status, its headers and the shapes its body may have. The JSON library is the parameter \<open>js\<close>.
\<close>

datatype codec_exn = CodecReauth | CodecError byte_string

section \<open>Reading values\<close>

definition Parse :: "'v Yyjson \<Rightarrow> byte_string \<Rightarrow> codec_exn + 'v" where
  "Parse js body =
     (case yy_read js True body of
        None \<Rightarrow> Inl (CodecError ''Data 360 response was invalid JSON'')
      | Some root \<Rightarrow>
          if yy_is_obj js root then Inr root else Inl (CodecError ''Data 360 response was invalid JSON''))"

definition HasInvalidSessionCode :: "'v Yyjson \<Rightarrow> byte_string \<Rightarrow> bool" where
  "HasInvalidSessionCode js body =
     (case yy_read js False body of
        None \<Rightarrow> False
      | Some root \<Rightarrow>
          let error = (if yy_is_arr js root \<and> length (yy_arr_elems js root) = 1 then hd (yy_arr_elems js root) else root)
          in if \<not> yy_is_obj js error then False
             else (case yy_obj_get js error ''errorCode'' of
                     None \<Rightarrow> False
                   | Some error_code \<Rightarrow> yy_is_str js error_code \<and> yy_get_str js error_code = ''INVALID_SESSION_ID''))"

definition TryUnsigned :: "'v Yyjson \<Rightarrow> 'v \<Rightarrow> u64 option" where
  "TryUnsigned js v =
     (if yy_is_uint js v then Some (yy_get_uint js v)
      else if \<not> yy_is_raw js v then None
      else let raw = yy_get_raw js v
           in if raw = [] \<or> (\<exists>c \<in> set raw. \<not> isdigit c) then None
              else if int (digits_value raw) < 2 ^ 64 then Some (of_nat (digits_value raw)) else None)"

text \<open>\<open>Inr None\<close> where the member is absent: the caller's variable keeps its value.\<close>

definition OptionalUnsigned :: "'v Yyjson \<Rightarrow> 'v \<Rightarrow> byte_string \<Rightarrow> codec_exn + u64 option" where
  "OptionalUnsigned js object key =
     (case yy_obj_get js object key of
        None \<Rightarrow> Inr None
      | Some v \<Rightarrow>
          (case TryUnsigned js v of
             None \<Rightarrow> Inl (CodecError ''Data 360 response contained an invalid count'')
           | Some n \<Rightarrow> Inr (Some n)))"

definition JsonScalar :: "'v Yyjson \<Rightarrow> 'v \<Rightarrow> codec_exn + byte_string" where
  "JsonScalar js v =
     (if yy_is_str js v then Inr (yy_get_str js v)
      else if yy_is_bool js v then Inr (if yy_get_bool js v then ''true'' else ''false'')
      else if yy_is_raw js v then Inr (yy_get_raw js v)
      else if yy_is_num js v
        then if yy_is_uint js v then Inr (to_string (unat (yy_get_uint js v)))
             else if yy_is_sint js v
               then Inr (if yy_get_sint js v < 0 then CHR ''-'' # to_string (nat (- yy_get_sint js v))
                         else to_string (nat (yy_get_sint js v)))
             else if yy_print_real js v = [] \<or> 32 \<le> length (yy_print_real js v)
               then Inl (CodecError ''Data 360 numeric value was invalid'')
               else Inr (yy_print_real js v)
      else Inl (CodecError ''Data 360 result contained a non-scalar value''))"

section \<open>Query identifiers in headers\<close>

text \<open>The \<open>try\<close> block over one status header: the identifier it names, where it names one.\<close>

definition status_header_id :: "'v Yyjson \<Rightarrow> byte_string \<Rightarrow> byte_string option" where
  "status_header_id js text =
     (case Parse js text of
        Inl _ \<Rightarrow> None
      | Inr root \<Rightarrow>
          (case yy_obj_get js root ''queryId'' of
             None \<Rightarrow> None
           | Some query_id \<Rightarrow>
               if yy_is_str js query_id \<and> 0 < length (yy_get_str js query_id) then Some (yy_get_str js query_id)
               else None))"

fun status_headers_id :: "'v Yyjson \<Rightarrow> headers \<Rightarrow> byte_string list \<Rightarrow> byte_string option" where
  "status_headers_id js headers [] = None"
| "status_headers_id js headers (name # names) =
     (case map_of headers name of
        None \<Rightarrow> status_headers_id js headers names
      | Some text \<Rightarrow>
          (case status_header_id js text of
             None \<Rightarrow> status_headers_id js headers names
           | Some query_id \<Rightarrow> Some query_id))"

definition location_id :: "headers \<Rightarrow> byte_string option" where
  "location_id headers =
     (case map_of headers ''location'' of
        None \<Rightarrow> None
      | Some location \<Rightarrow>
          (case str_find ''/api/v3/query/'' location of
             None \<Rightarrow> None
           | Some marker_pos \<Rightarrow>
               let query_id = takeWhile (\<lambda>c. c \<notin> set ''/?#'') (drop (marker_pos + length ''/api/v3/query/'') location)
               in if query_id \<noteq> [] then Some query_id else None))"

definition submitted :: "byte_string \<Rightarrow> QueryResponse" where
  "submitted query_id = default_QueryResponse\<lparr>qr_state := RUNNING, qr_query_id := query_id\<rparr>"

section \<open>Metadata\<close>

definition string_member :: "'v Yyjson \<Rightarrow> 'v \<Rightarrow> byte_string \<Rightarrow> byte_string \<Rightarrow> 'v option" where
  "string_member js column key alternative =
     (let v = yy_obj_get js column key in if is_a (yy_is_str js) v then v else yy_obj_get js column alternative)"

definition numeric_shape :: "'v Yyjson \<Rightarrow> 'v \<Rightarrow> ColumnMetadata \<Rightarrow> codec_exn + ColumnMetadata" where
  "numeric_shape js column decoded =
     ebind (OptionalUnsigned js column ''precision'') (\<lambda>precision.
     ebind (OptionalUnsigned js column ''scale'') (\<lambda>scale.
       case (precision, scale) of
         (Some p, Some s) \<Rightarrow>
           if p = 0 \<or> 38 < p \<or> p < s then Inl (CodecError ''Data 360 numeric metadata shape was invalid'')
           else Inr (decoded\<lparr>cm_has_precision := True, cm_has_scale := True, cm_precision := ucast p, cm_scale := ucast s\<rparr>)
       | _ \<Rightarrow> Inl (CodecError ''Data 360 numeric metadata shape was invalid'')))"

definition decode_column :: "'v Yyjson \<Rightarrow> 'v \<Rightarrow> codec_exn + ColumnMetadata" where
  "decode_column js column =
     (if \<not> yy_is_obj js column then Inl (CodecError ''Data 360 metadata column was invalid'')
      else let name = string_member js column ''name'' ''columnName'';
               type_v = string_member js column ''type'' ''typeName'';
               nullable = yy_obj_get js column ''nullable''
           in if \<not> is_a (yy_is_str js) name \<or> \<not> is_a (yy_is_str js) type_v \<or> \<not> is_a (yy_is_bool js) nullable
              then Inl (CodecError ''Data 360 metadata column was incomplete'')
              else let decoded = \<lparr>cm_name = yy_get_str js (the name), cm_type = yy_get_str js (the type_v),
                                  cm_nullable = yy_get_bool js (the nullable), cm_has_precision = False,
                                  cm_has_scale = False, cm_precision = 0, cm_scale = 0\<rparr>;
                       precision_present = (yy_obj_get js column ''precision'' \<noteq> None);
                       scale_present = (yy_obj_get js column ''scale'' \<noteq> None)
                   in if lower_string (cm_type decoded) \<noteq> ''numeric'' \<and> (precision_present \<or> scale_present)
                      then Inl (CodecError ''Data 360 metadata column shape was unexpected'')
                      else if precision_present \<noteq> scale_present
                      then Inl (CodecError ''Data 360 numeric metadata shape was incomplete'')
                      else if precision_present then numeric_shape js column decoded
                      else Inr decoded)"

definition decode_metadata :: "'v Yyjson \<Rightarrow> 'v \<Rightarrow> codec_exn + ColumnMetadata list" where
  "decode_metadata js root =
     (let metadata_object = (case yy_obj_get js root ''metadata'' of
                               Some v \<Rightarrow> if yy_is_obj js v then v else root
                             | None \<Rightarrow> root)
      in case yy_obj_get js metadata_object ''columns'' of
           None \<Rightarrow> Inr []
         | Some columns \<Rightarrow>
             if yy_is_arr js columns then etraverse (decode_column js) (yy_arr_elems js columns) else Inr [])"

section \<open>Rows\<close>

definition decode_cell :: "'v Yyjson \<Rightarrow> 'v \<Rightarrow> codec_exn + Cell" where
  "decode_cell js cell = (if yy_is_null js cell then Inr None else ebind (JsonScalar js cell) (\<lambda>text. Inr (Some text)))"

definition decode_row :: "'v Yyjson \<Rightarrow> 'v \<Rightarrow> codec_exn + Cell list" where
  "decode_row js row =
     (if \<not> yy_is_arr js row then Inl (CodecError ''Data 360 result row was invalid'')
      else etraverse (decode_cell js) (yy_arr_elems js row))"

definition next_link :: "'v Yyjson \<Rightarrow> 'v \<Rightarrow> byte_string" where
  "next_link js root =
     (case yy_obj_get js root ''next'' of
        None \<Rightarrow> [] | Some v \<Rightarrow> if yy_is_str js v then yy_get_str js v else [])"

section \<open>Decode\<close>

definition completion_response :: "'v Yyjson \<Rightarrow> 'v \<Rightarrow> byte_string \<Rightarrow> byte_string \<Rightarrow> codec_exn + QueryResponse" where
  "completion_response js root query_id state =
     ebind (OptionalUnsigned js root ''chunkCount'') (\<lambda>chunk_count.
     ebind (OptionalUnsigned js root ''rowCount'') (\<lambda>row_count.
       Inr (default_QueryResponse\<lparr>qr_query_id := query_id,
              qr_state := (if state = ''FINISHED'' \<or> state = ''RESULTS_PRODUCED'' then COMPLETE
                           else if state = ''RUNNING'' then RUNNING else FAILED),
              qr_has_chunk_count := (chunk_count \<noteq> None), qr_chunk_count := (case chunk_count of None \<Rightarrow> 0 | Some n \<Rightarrow> n),
              qr_has_row_count := (row_count \<noteq> None), qr_row_count := (case row_count of None \<Rightarrow> 0 | Some n \<Rightarrow> n)\<rparr>)))"

definition result_response :: "'v Yyjson \<Rightarrow> 'v \<Rightarrow> codec_exn + QueryResponse" where
  "result_response js root =
     ebind (decode_metadata js root) (\<lambda>metadata.
       if is_a (yy_is_arr js) (yy_obj_get js root ''data'')
       then ebind (etraverse (decode_row js) (yy_arr_elems js (the (yy_obj_get js root ''data'')))) (\<lambda>rows.
            ebind (OptionalUnsigned js root ''returnedRows'') (\<lambda>returned_rows.
              Inr (default_QueryResponse\<lparr>qr_state := COMPLETE, qr_metadata := metadata,
                     qr_chunk := \<lparr>ch_rows = rows, ch_next_url = next_link js root\<rparr>,
                     qr_has_returned_rows := (returned_rows \<noteq> None),
                     qr_returned_rows := (case returned_rows of None \<Rightarrow> 0 | Some n \<Rightarrow> n)\<rparr>)))
       else if metadata \<noteq> [] then Inr (default_QueryResponse\<lparr>qr_state := COMPLETE, qr_metadata := metadata\<rparr>)
       else Inl (CodecError ''Data 360 response shape was not recognized''))"

definition decode_body :: "'v Yyjson \<Rightarrow> 'v \<Rightarrow> codec_exn + QueryResponse" where
  "decode_body js root =
     (let query_id = (case yy_obj_get js root ''queryId'' of
                        None \<Rightarrow> [] | Some v \<Rightarrow> if yy_is_str js v then yy_get_str js v else [])
      in if is_a (yy_is_str js) (yy_obj_get js root ''completionStatus'')
         then completion_response js root query_id (yy_get_str js (the (yy_obj_get js root ''completionStatus'')))
         else if query_id \<noteq> [] then Inr (submitted query_id)
         else result_response js root)"

definition JsonDecode :: "'v Yyjson \<Rightarrow> HttpResponse \<Rightarrow> codec_exn + QueryResponse" where
  "JsonDecode js response =
     (if rs_status response = 401 \<or> rs_status response = 403 \<and> HasInvalidSessionCode js (rs_body response)
      then Inl CodecReauth
      else if rs_status response < 200 \<or> 300 \<le> rs_status response
      then Inl (CodecError ''Data 360 Query API request failed'')
      else case status_headers_id js (rs_headers response) [''x-hyperdb-status'', ''status''] of
             Some query_id \<Rightarrow> Inr (submitted query_id)
           | None \<Rightarrow>
               (case location_id (rs_headers response) of
                  Some query_id \<Rightarrow> Inr (submitted query_id)
                | None \<Rightarrow> ebind (Parse js (rs_body response)) (decode_body js)))"

text \<open>The codec as the environment of the query client sees it.\<close>

definition json_codec :: "'v Yyjson \<Rightarrow> HttpResponse \<Rightarrow> 'w \<Rightarrow> (decode_exn + QueryResponse) \<times> 'w" where
  "json_codec js response w =
     (case JsonDecode js response of
        Inl CodecReauth \<Rightarrow> (Inl DecodeReauth, w)
      | Inl (CodecError _) \<Rightarrow> (Inl DecodeOther, w)
      | Inr r \<Rightarrow> (Inr r, w))"

end
