(* ===== verification/Json_Correct.thy ===== *)
theory Json_Correct
  imports Json_Codec
begin

text \<open>
  What a decoded response satisfies whatever the server sent, and that the documents of the Query
  API are read back exactly: metadata, rows with their nulls, links and counts.
\<close>

section \<open>Decoded metadata is well formed\<close>

definition column_ok :: "ColumnMetadata \<Rightarrow> bool" where
  "column_ok c \<longleftrightarrow> cm_has_scale c = cm_has_precision c \<and>
     (if cm_has_precision c
      then lower_string (cm_type c) = ''numeric'' \<and> 0 < unat (cm_precision c) \<and> unat (cm_precision c) \<le> 38 \<and>
           unat (cm_scale c) \<le> unat (cm_precision c)
      else cm_precision c = 0 \<and> cm_scale c = 0)"

lemma unat_ucast_small: "p \<le> (38 :: u64) \<Longrightarrow> unat (ucast p :: u8) = unat p"
proof -
  assume "p \<le> 38"
  then have "unat p \<le> 38" by (simp add: word_le_nat_alt)
  then show ?thesis by (simp add: unsigned_ucast_eq take_bit_eq_mod)
qed

lemma numeric_shape_ok:
  assumes "numeric_shape js column decoded = Inr c" "lower_string (cm_type decoded) = ''numeric''"
  shows "column_ok c"
proof -
  from assms(1) obtain pv sv where "OptionalUnsigned js column ''precision'' = Inr pv"
    "OptionalUnsigned js column ''scale'' = Inr sv"
    by (auto simp: numeric_shape_def ebind_Inr)
  with assms(1) obtain p s where "pv = Some p" "sv = Some s"
    by (cases pv; cases sv) (auto simp: numeric_shape_def)
  with assms(1) \<open>OptionalUnsigned js column ''precision'' = Inr pv\<close> \<open>OptionalUnsigned js column ''scale'' = Inr sv\<close>
  have ps: "p \<noteq> 0" "p \<le> 38" "s \<le> p"
    and c: "c = decoded\<lparr>cm_has_precision := True, cm_has_scale := True, cm_precision := ucast p, cm_scale := ucast s\<rparr>"
    by (auto simp: numeric_shape_def not_less split: if_splits)
  moreover from ps have "s \<le> 38" by simp
  ultimately show ?thesis
    using assms(2) by (simp add: column_ok_def unat_ucast_small word_le_nat_alt unat_gt_0)
qed

lemma decode_column_ok: "decode_column js column = Inr c \<Longrightarrow> column_ok c"
  by (auto simp: decode_column_def Let_def split: if_splits intro: numeric_shape_ok)
    (auto simp: column_ok_def)

lemma decode_metadata_ok: "decode_metadata js root = Inr cs \<Longrightarrow> c \<in> set cs \<Longrightarrow> column_ok c"
  by (auto simp: decode_metadata_def Let_def split: option.splits if_splits dest: etraverse_result decode_column_ok)

lemma submitted_metadata [simp]: "qr_metadata (submitted q) = []" "qr_query_id (submitted q) = q" "qr_state (submitted q) = RUNNING"
  by (simp_all add: submitted_def default_QueryResponse_def)

lemma decode_body_metadata:
  assumes "decode_body js root = Inr r"
  shows "qr_metadata r = [] \<or> decode_metadata js root = Inr (qr_metadata r)"
  using assms
  by (auto simp: decode_body_def Let_def completion_response_def result_response_def ebind_Inr default_QueryResponse_def
      split: if_splits)

lemma status_headers_id_nonempty: "status_headers_id js headers names = Some q \<Longrightarrow> q \<noteq> []"
  by (induction names) (auto simp: status_header_id_def split: option.splits sum.splits if_splits)

lemma location_id_nonempty: "location_id headers = Some q \<Longrightarrow> q \<noteq> []"
  by (auto simp: location_id_def Let_def split: option.splits if_splits)

lemma JsonDecode_body:
  assumes "JsonDecode js response = Inr r"
  shows "200 \<le> rs_status response \<and> rs_status response < 300 \<and>
     ((\<exists>q. q \<noteq> [] \<and> r = submitted q) \<or> (\<exists>root. Parse js (rs_body response) = Inr root \<and> decode_body js root = Inr r))"
  using assms
  by (auto simp: JsonDecode_def ebind_Inr not_le not_less simp del: status_headers_id.simps
      split: if_splits option.splits dest: status_headers_id_nonempty location_id_nonempty)

lemma JsonDecode_metadata_ok:
  assumes "JsonDecode js response = Inr r" "c \<in> set (qr_metadata r)"
  shows "column_ok c"
  using JsonDecode_body [OF assms(1)] assms(2) decode_body_metadata decode_metadata_ok by fastforce

section \<open>Reading back\<close>

definition column_json :: "ColumnMetadata \<Rightarrow> json" where
  "column_json c = JObj ([(''name'', JStr (cm_name c)), (''type'', JStr (cm_type c)), (''nullable'', JBool (cm_nullable c))] @
     (if cm_has_precision c
      then [(''precision'', JRaw (to_string (unat (cm_precision c)))), (''scale'', JRaw (to_string (unat (cm_scale c))))]
      else []))"

definition cell_json :: "Cell \<Rightarrow> json" where
  "cell_json cell = (case cell of None \<Rightarrow> JNull | Some text \<Rightarrow> JStr text)"

definition chunk_json :: "ColumnMetadata list \<Rightarrow> Cell list list \<Rightarrow> byte_string \<Rightarrow> u64 option \<Rightarrow> json" where
  "chunk_json columns rows link count = JObj (
     [(''metadata'', JObj [(''columns'', JArr (map column_json columns))]),
      (''data'', JArr (map (\<lambda>row. JArr (map cell_json row)) rows))] @
     (if link = [] then [] else [(''next'', JStr link)]) @
     (case count of None \<Rightarrow> [] | Some n \<Rightarrow> [(''returnedRows'', JRaw (to_string (unat n)))]))"

lemma TryUnsigned_raw: "TryUnsigned (json_tree texts) (JRaw (to_string (unat (n :: 'a::len word)))) = Some (of_nat (unat n))"
  if "LENGTH('a) \<le> 64"
proof -
  have "unat n < 2 ^ LENGTH('a)" by (rule unsigned_less)
  also have "(2::nat) ^ LENGTH('a) \<le> 2 ^ 64" using that by (intro power_increasing) simp_all
  finally have "int (unat n) < 2 ^ 64" using of_nat_less_iff [where 'a = int, of "unat n" "2 ^ 64"] by simp
  then show ?thesis using to_string_digits to_string_nonempty
    by (auto simp: TryUnsigned_def)
qed

lemma unat_word_small: "unat (ucast (w :: u8) :: u64) = unat w"
proof -
  have "unat w < 2 ^ 8" using unsigned_less [of w] by simp
  then show ?thesis by (simp add: unsigned_ucast_eq take_bit_eq_mod)
qed

lemma ucast_back: "ucast (ucast (w :: u8) :: u64) = w"
  by (rule bit_word_eqI) (auto simp: bit_ucast_iff dest: bit_imp_le_length)

lemma decode_column_json:
  assumes "column_ok c"
  shows "decode_column (json_tree texts) (column_json c) = Inr c"
proof (cases "cm_has_precision c")
  case True
  let ?js = "json_tree texts" and ?p = "ucast (cm_precision c) :: u64" and ?s = "ucast (cm_scale c) :: u64"
  have b: "unat ?p = unat (cm_precision c)" "unat ?s = unat (cm_scale c)" by (rule unat_word_small)+
  from assms True have ok: "\<not> (?p = 0 \<or> 38 < ?p \<or> ?p < ?s)"
    by (auto simp: column_ok_def word_less_nat_alt b simp flip: unat_eq_0)
  have "yy_obj_get ?js (column_json c) ''precision'' = Some (JRaw (to_string (unat (cm_precision c))))"
    "yy_obj_get ?js (column_json c) ''scale'' = Some (JRaw (to_string (unat (cm_scale c))))"
    using True by (simp_all add: column_json_def)
  then have "OptionalUnsigned ?js (column_json c) ''precision'' = Inr (Some ?p)"
    "OptionalUnsigned ?js (column_json c) ''scale'' = Inr (Some ?s)"
    using TryUnsigned_raw [of texts "cm_precision c"] TryUnsigned_raw [of texts "cm_scale c"]
    by (simp_all add: OptionalUnsigned_def)
  with ok have "numeric_shape ?js (column_json c) d =
      Inr (d\<lparr>cm_has_precision := True, cm_has_scale := True, cm_precision := cm_precision c, cm_scale := cm_scale c\<rparr>)" for d
    by (simp add: numeric_shape_def ucast_back)
  with assms True show ?thesis
    by (simp add: decode_column_def string_member_def Let_def) (simp add: column_json_def column_ok_def)
next
  case False
  with assms show ?thesis
    by (simp add: decode_column_def column_json_def string_member_def column_ok_def)
qed

lemma decode_row_json: "decode_row (json_tree texts) (JArr (map cell_json row)) = Inr row"
proof -
  have "etraverse (decode_cell (json_tree texts)) (map cell_json row) = Inr (map (\<lambda>c. c) row)"
    by (rule etraverse_map) (simp add: decode_cell_def cell_json_def JsonScalar_def split: option.split)
  then show ?thesis by (simp add: decode_row_def)
qed

lemma decode_chunk_json:
  assumes "\<forall>c \<in> set columns. column_ok c"
  shows "decode_body (json_tree texts) (chunk_json columns rows link count) =
     Inr (default_QueryResponse\<lparr>qr_state := COMPLETE, qr_metadata := columns,
            qr_chunk := \<lparr>ch_rows = rows, ch_next_url = link\<rparr>, qr_has_returned_rows := (count \<noteq> None),
            qr_returned_rows := (case count of None \<Rightarrow> 0 | Some n \<Rightarrow> n)\<rparr>)"
proof -
  let ?js = "json_tree texts" and ?root = "chunk_json columns rows link count"
  have get: "yy_obj_get ?js ?root ''queryId'' = None" "yy_obj_get ?js ?root ''completionStatus'' = None"
    "yy_obj_get ?js ?root ''metadata'' = Some (JObj [(''columns'', JArr (map column_json columns))])"
    "yy_obj_get ?js ?root ''data'' = Some (JArr (map (\<lambda>row. JArr (map cell_json row)) rows))"
    "yy_obj_get ?js ?root ''next'' = (if link = [] then None else Some (JStr link))"
    "yy_obj_get ?js ?root ''returnedRows'' = map_option (\<lambda>n. JRaw (to_string (unat n))) count"
    by (simp_all add: chunk_json_def split: option.split)
  have "etraverse (decode_column ?js) (map column_json columns) = Inr (map (\<lambda>c. c) columns)"
    by (rule etraverse_map) (use assms decode_column_json in blast)
  then have "decode_metadata ?js ?root = Inr columns"
    by (simp add: decode_metadata_def get)
  moreover have "etraverse (decode_row ?js) (map (\<lambda>row. JArr (map cell_json row)) rows) = Inr (map (\<lambda>r. r) rows)"
    by (rule etraverse_map) (rule decode_row_json)
  moreover have "OptionalUnsigned ?js ?root ''returnedRows'' = Inr count"
    using TryUnsigned_raw [where 'a = 64 and texts = texts] by (simp add: OptionalUnsigned_def get split: option.split)
  moreover have "next_link ?js ?root = link"
    by (simp add: next_link_def get)
  ultimately show ?thesis
    by (simp add: decode_body_def result_response_def get)
qed

end
