(* ===== verification/Type_Correct.thy ===== *)
theory Type_Correct
  imports Type_Mapping Json_Correct
begin

text \<open>
  Every decoded column is bound to a DuckDB type, decimals with exactly their precision and scale;
  where the Arrow fields expected of a result agree with the mapping, and where they do not.
\<close>

section \<open>Decimals\<close>

definition decimal_text :: "byte_string \<Rightarrow> byte_string \<Rightarrow> byte_string" where
  "decimal_text p s = ''DECIMAL('' @ p @ '','' @ s @ '')''"

definition digits :: "byte_string \<Rightarrow> bool" where
  "digits p \<longleftrightarrow> p \<noteq> [] \<and> (\<forall>c \<in> set p. isdigit c)"

lemma isdigit_literals [simp]: "\<not> isdigit CHR '',''" "\<not> isdigit CHR '')''"
  by (simp_all add: ctype_defs)

lemma digits_span:
  assumes "digits p" "r = [] \<or> \<not> isdigit (hd r)"
  shows "takeWhile isdigit (p @ r) = p" "dropWhile isdigit (p @ r) = r"
proof -
  have "takeWhile isdigit r = [] \<and> dropWhile isdigit r = r" using assms(2) by (cases r) auto
  then show "takeWhile isdigit (p @ r) = p" "dropWhile isdigit (p @ r) = r"
    using assms(1) by (simp_all add: digits_def)
qed

lemma decimal_match_text:
  assumes "digits p" "digits s"
  shows "decimal_match (decimal_text p s) = Some (p, s)"
proof -
  have "prefix ''DECIMAL('' (decimal_text p s)" "drop (length ''DECIMAL('') (decimal_text p s) = p @ CHR '','' # s @ '')''"
    by (simp_all add: decimal_text_def)
  moreover have "s \<noteq> []" "p \<noteq> []" using assms by (simp_all add: digits_def)
  ultimately show ?thesis
    using digits_span [OF assms(1), of "CHR '','' # s @ '')''"] digits_span [OF assms(2), of "'')''"]
    by (simp add: decimal_match_def)
qed

lemma decimal_match_Some:
  assumes "decimal_match t = Some (p, s)"
  shows "t = decimal_text p s \<and> digits p \<and> digits s"
proof -
  from assms obtain r2 where pre: "prefix ''DECIMAL('' t" and p: "p = takeWhile isdigit (drop (length ''DECIMAL('') t)" "p \<noteq> []"
    and r: "dropWhile isdigit (drop (length ''DECIMAL('') t) = CHR '','' # r2" and s: "s = takeWhile isdigit r2" "s \<noteq> []"
    and r2: "dropWhile isdigit r2 = '')''"
    by (auto simp: decimal_match_def Let_def split: if_splits list.splits)
  have "drop (length ''DECIMAL('') t = p @ CHR '','' # r2" using p(1) r by (metis takeWhile_dropWhile_id)
  moreover have "r2 = s @ '')''" using s(1) r2 by (metis takeWhile_dropWhile_id)
  moreover have "t = ''DECIMAL('' @ drop (length ''DECIMAL('') t" using pre by (auto simp: prefix_def)
  ultimately have "t = decimal_text p s" by (simp add: decimal_text_def)
  then show ?thesis using p s by (auto simp: digits_def dest: set_takeWhileD)
qed

lemma scan_unsigned_digits:
  assumes "digits p" "digits_value p < 2 ^ 32" "r = [] \<or> \<not> isdigit (hd r)"
  shows "scan_unsigned (p @ r) = Some (of_nat (digits_value p), r)"
proof -
  obtain d ds where p: "p = d # ds" "isdigit d" using assms(1) by (cases p) (auto simp: digits_def)
  have d: "\<not> scan_space d" "d \<noteq> CHR ''+''" "d \<noteq> CHR ''-''"
    using p(2) by (auto simp: scan_space_def isdigit_def)
  have "dropWhile scan_space (p @ r) = p @ r" "hd (p @ r) = d" using p d by simp_all
  moreover have "digits_value p < 2 ^ 64" using assms(2) by simp
  moreover have "(ucast (of_nat (digits_value p) :: u64) :: u32) = of_nat (digits_value p)"
    using assms(2) by (simp add: word_eq_iff_unsigned unsigned_ucast_eq unsigned_of_nat take_bit_nat_eq_self)
  ultimately show ?thesis
    using d p digits_span [OF assms(1,3)] by (simp add: scan_unsigned_def Let_def)
qed

lemma scan_decimal_text:
  assumes "digits p" "digits s" "digits_value p < 2 ^ 32" "digits_value s < 2 ^ 32"
  shows "scan_decimal (decimal_text p s) = Some (of_nat (digits_value p), of_nat (digits_value s))"
proof -
  have "prefix ''DECIMAL('' (decimal_text p s)" "drop (length ''DECIMAL('') (decimal_text p s) = p @ CHR '','' # s @ '')''"
    by (simp_all add: decimal_text_def)
  then show ?thesis
    using scan_unsigned_digits [OF assms(1,3), of "CHR '','' # s @ '')''"]
      scan_unsigned_digits [OF assms(2,4), of "'')''"]
    by (simp add: scan_decimal_def)
qed

lemma bind_decimal:
  assumes "digits p" "digits s" "0 < digits_value p" "digits_value p \<le> 38" "digits_value s \<le> digits_value p"
  shows "BindLogicalType (decimal_mapping (decimal_text p s) p s) =
     Inr (DECIMAL (of_nat (digits_value p)) (of_nat (digits_value s)))"
    and "tm_arrow_format (decimal_mapping (decimal_text p s) p s) = ''d:'' @ p @ '','' @ s"
proof -
  have m: "decimal_mapping (decimal_text p s) p s =
      \<lparr>tm_duckdb_type = decimal_text p s, tm_arrow_format = ''d:'' @ p @ '','' @ s, tm_lossy = False\<rparr>"
    using assms by (simp add: decimal_mapping_def stoul_def)
  then show "tm_arrow_format (decimal_mapping (decimal_text p s) p s) = ''d:'' @ p @ '','' @ s" by simp
  have scan: "scan_decimal (decimal_text p s) = Some (of_nat (digits_value p), of_nat (digits_value s))"
    using assms by (intro scan_decimal_text) simp_all
  have le: "(of_nat (digits_value p) :: u32) \<le> 38" "(of_nat (digits_value s) :: u32) \<le> of_nat (digits_value p)"
    using assms by (simp_all add: word_le_nat_alt unat_of_nat)
  have cast: "(ucast (of_nat n :: u32) :: u8) = of_nat n" if "n \<le> 38" for n :: nat
    using that by (simp add: word_eq_iff_unsigned unsigned_ucast_eq unsigned_of_nat take_bit_nat_eq_self)
  have "decimal_text p s \<noteq> t" if "t \<in> set [''VARCHAR'', ''BOOLEAN'', ''DATE'', ''TIMESTAMP'', ''TIMESTAMPTZ'', ''INTEGER'',
      ''BIGINT'', ''DOUBLE'']" for t
    using that by (auto simp: decimal_text_def)
  then show "BindLogicalType (decimal_mapping (decimal_text p s) p s) =
     Inr (DECIMAL (of_nat (digits_value p)) (of_nat (digits_value s)))"
    using scan le cast assms by (simp add: m BindLogicalType_def Let_def)
qed

section \<open>Every type is bound\<close>

lemma lossy_bound: "BindLogicalType \<lparr>tm_duckdb_type = ''VARCHAR'', tm_arrow_format = f, tm_lossy = l\<rparr> = Inr VARCHAR"
  by (simp add: BindLogicalType_def)

lemma decimal_mapping_bound:
  assumes "digits p" "digits s"
  shows "\<exists>t. BindLogicalType (decimal_mapping (decimal_text p s) p s) = Inr t"
proof (cases "digits_value p < 2 ^ 64 \<and> digits_value s < 2 ^ 64 \<and> 0 < digits_value p \<and> digits_value p \<le> 38 \<and>
    digits_value s \<le> digits_value p")
  case True
  with bind_decimal(1) [OF assms] show ?thesis by simp
next
  case False
  then have "decimal_mapping (decimal_text p s) p s = \<lparr>tm_duckdb_type = ''VARCHAR'', tm_arrow_format = ''u'', tm_lossy = True\<rparr>"
    by (auto simp: decimal_mapping_def stoul_def)
  then show ?thesis by (simp add: lossy_bound)
qed

lemma bind_named: "t \<in> set [''VARCHAR'', ''BOOLEAN'', ''DATE'', ''TIMESTAMP'', ''TIMESTAMPTZ'', ''INTEGER'', ''BIGINT'', ''DOUBLE'',
      ''DECIMAL(38,18)''] \<Longrightarrow> \<exists>l. BindLogicalType \<lparr>tm_duckdb_type = t, tm_arrow_format = f, tm_lossy = b\<rparr> = Inr l"
proof -
  have "list_all (\<lambda>t. isl (BindLogicalType \<lparr>tm_duckdb_type = t, tm_arrow_format = [], tm_lossy = False\<rparr>) = False)
      [''VARCHAR'', ''BOOLEAN'', ''DATE'', ''TIMESTAMP'', ''TIMESTAMPTZ'', ''INTEGER'', ''BIGINT'', ''DOUBLE'', ''DECIMAL(38,18)'']"
    by code_simp
  moreover have "BindLogicalType \<lparr>tm_duckdb_type = t, tm_arrow_format = f, tm_lossy = b\<rparr> =
      BindLogicalType \<lparr>tm_duckdb_type = t, tm_arrow_format = [], tm_lossy = False\<rparr>" for t
    by (simp add: BindLogicalType_def)
  moreover assume "t \<in> set [''VARCHAR'', ''BOOLEAN'', ''DATE'', ''TIMESTAMP'', ''TIMESTAMPTZ'', ''INTEGER'', ''BIGINT'', ''DOUBLE'',
      ''DECIMAL(38,18)'']"
  ultimately show ?thesis by (cases "BindLogicalType \<lparr>tm_duckdb_type = t, tm_arrow_format = [], tm_lossy = False\<rparr>")
      (auto simp: list_all_iff)
qed

lemma MapData360Type_bound: "\<exists>t. BindLogicalType (MapData360Type text) = Inr t"
proof (cases "decimal_match (upper_string text)")
  case (Some ps)
  then obtain p s where "decimal_match (upper_string text) = Some (p, s)" by (cases ps) auto
  with decimal_match_Some [OF this] show ?thesis
    using decimal_mapping_bound by (simp add: MapData360Type_def Let_def)
next
  case None
  define named where "named = [''VARCHAR'', ''BOOLEAN'', ''DATE'', ''TIMESTAMP'', ''TIMESTAMPTZ'', ''INTEGER'', ''BIGINT'', ''DOUBLE'',
      ''DECIMAL(38,18)'']"
  from None have "tm_duckdb_type (MapData360Type text) \<in> set named"
    by (simp add: MapData360Type_def Let_def named_def)
  then show ?thesis using bind_named [folded named_def] by (metis TypeMapping.surjective old.unit.exhaust)
qed

lemma toupper_digit: "isdigit c \<Longrightarrow> toupper c = c"
  by (auto simp: toupper_def ctype_defs)

lemma upper_digits: "digits p \<Longrightarrow> map toupper p = p"
  by (auto simp: digits_def toupper_digit intro: map_idI)

lemma upper_decimal: "digits p \<Longrightarrow> digits s \<Longrightarrow> upper_string (decimal_text p s) = decimal_text p s"
proof -
  have literals: "map toupper ''DECIMAL('' = ''DECIMAL(''" "map toupper '','' = '',''" "map toupper '')'' = '')''"
    by code_simp+
  show "digits p \<Longrightarrow> digits s \<Longrightarrow> ?thesis"
    unfolding upper_string_def decimal_text_def map_append literals by (simp only: upper_digits)
qed

lemma digits_to_string: "digits (to_string n)"
  using to_string_digits to_string_nonempty by (auto simp: digits_def)

lemma column_mapping_numeric:
  assumes "column_ok c" "cm_has_precision c"
  shows "BindLogicalType (column_mapping c) = Inr (DECIMAL (cm_precision c) (cm_scale c))"
    and "tm_arrow_format (column_mapping c) =
      ''d:'' @ to_string (unat (cm_precision c)) @ '','' @ to_string (unat (cm_scale c))"
proof -
  let ?p = "to_string (unat (cm_precision c))" and ?s = "to_string (unat (cm_scale c))"
  have d: "digits ?p" "digits ?s" by (rule digits_to_string)+
  have "column_mapping c = MapData360Type (decimal_text ?p ?s)"
    using assms by (simp add: column_mapping_def column_ok_def decimal_text_def)
  also have "\<dots> = decimal_mapping (decimal_text ?p ?s) ?p ?s"
    by (simp add: MapData360Type_def upper_decimal d decimal_match_text)
  finally have m: "column_mapping c = decimal_mapping (decimal_text ?p ?s) ?p ?s" .
  show "BindLogicalType (column_mapping c) = Inr (DECIMAL (cm_precision c) (cm_scale c))"
    using bind_decimal(1) [OF d] assms by (simp add: m column_ok_def)
  show "tm_arrow_format (column_mapping c) =
      ''d:'' @ to_string (unat (cm_precision c)) @ '','' @ to_string (unat (cm_scale c))"
    using bind_decimal(2) [OF d] assms by (simp add: m column_ok_def)
qed

lemma bind_column_total: "cm_name c \<noteq> [] \<Longrightarrow> \<exists>t. bind_column c = Inr t"
  using MapData360Type_bound by (simp add: bind_column_def column_mapping_def)

section \<open>Agreement with the Arrow fields\<close>

lemma MapData360Type_lower: "MapData360Type (lower_string t) = MapData360Type t"
  by (simp add: MapData360Type_def upper_string_def lower_string_def comp_def)

lemma plain_column_mapping:
  assumes "lower_string (cm_type c) = name" "name \<noteq> ''numeric''"
  shows "column_mapping c = MapData360Type name"
  using assms MapData360Type_lower [of "cm_type c"] by (simp add: column_mapping_def)

definition plain_kinds :: "(byte_string \<times> ArrowFieldKind) list" where
  "plain_kinds = [(''bool'', BOOL), (''boolean'', BOOL), (''integer'', INT32), (''int'', INT32), (''bigint'', INT64),
     (''double'', DOUBLE_FIELD), (''varchar'', UTF8), (''string'', UTF8), (''date'', DATE64), (''timestamp'', TIMESTAMP_US_UTC),
     (''timestamptz'', TIMESTAMP_US_UTC), (''timestamp_with_time_zone'', TIMESTAMP_US_UTC)]"

lemma expected_field_plain:
  "list_all (\<lambda>(name, k). lower_string (cm_type c) = name \<longrightarrow>
     expected_field c = Inr \<lparr>ef_name = cm_name c, ef_kind = k, ef_nullable = cm_nullable c, ef_precision = 0, ef_scale = 0\<rparr>)
   plain_kinds"
  by (simp add: plain_kinds_def expected_field_def)

lemma expected_field_other:
  assumes "lower_string (cm_type c) \<notin> set (map fst plain_kinds)" "expected_field c = Inr f"
  shows "lower_string (cm_type c) = ''numeric'' \<and> cm_has_precision c \<and> ef_kind f = DECIMAL128 \<and>
      ef_precision f = cm_precision c \<and> ef_scale f = cm_scale c"
proof -
  define t where "t = lower_string (cm_type c)"
  from assms(1) have "t \<noteq> ''bool''" "t \<noteq> ''boolean''" "t \<noteq> ''integer''" "t \<noteq> ''int''" "t \<noteq> ''bigint''" "t \<noteq> ''double''"
    "t \<noteq> ''varchar''" "t \<noteq> ''string''" "t \<noteq> ''date''" "t \<noteq> ''timestamp''" "t \<noteq> ''timestamptz''"
    "t \<noteq> ''timestamp_with_time_zone''"
    unfolding plain_kinds_def t_def by (simp_all only: list.map fst_conv list.set insert_iff de_Morgan_disj simp_thms)
  then have "expected_field c =
      (if t = ''numeric''
       then if \<not> cm_has_precision c \<or> \<not> cm_has_scale c then Inl ''Data 360 numeric metadata was incomplete''
            else Inr \<lparr>ef_name = cm_name c, ef_kind = DECIMAL128, ef_nullable = cm_nullable c,
                      ef_precision = cm_precision c, ef_scale = cm_scale c\<rparr>
       else Inl ''Data 360 Arrow metadata contained an unsupported type'')"
    unfolding expected_field_def Let_def t_def [symmetric] by (simp only: simp_thms if_False if_True if_cancel refl ExpectedArrowField.simps)
  with assms(2) show ?thesis by (auto simp: t_def split: if_splits)
qed

lemma expected_field_cases:
  assumes "expected_field c = Inr f"
  shows "lower_string (cm_type c) = ''numeric'' \<and> cm_has_precision c \<and> ef_kind f = DECIMAL128 \<and>
      ef_precision f = cm_precision c \<and> ef_scale f = cm_scale c \<or>
    (lower_string (cm_type c), ef_kind f) \<in> set plain_kinds"
proof (cases "lower_string (cm_type c) \<in> set (map fst plain_kinds)")
  case True
  then obtain k where k: "(lower_string (cm_type c), k) \<in> set plain_kinds" by auto
  with expected_field_plain [of c] assms have "ef_kind f = k" by (auto simp: list_all_iff)
  with k show ?thesis by simp
next
  case False
  with expected_field_other [OF _ assms] show ?thesis by blast
qed

definition kind_format :: "ArrowFieldKind \<Rightarrow> byte_string" where
  "kind_format k = ExpectedFormat \<lparr>ef_name = [], ef_kind = k, ef_nullable = False, ef_precision = 0, ef_scale = 0\<rparr>"

lemma plain_kind_formats:
  "list_all (\<lambda>(name, k). k \<noteq> DECIMAL128 \<and> name \<noteq> ''numeric'' \<and>
     (if name = ''date'' \<or> name = ''timestamp'' then kind_format k \<noteq> tm_arrow_format (MapData360Type name)
      else kind_format k = tm_arrow_format (MapData360Type name))) plain_kinds"
  by code_simp

lemma arrow_agrees:
  assumes "expected_field c = Inr f" "column_ok c"
  shows "ExpectedFormat f = tm_arrow_format (column_mapping c) \<longleftrightarrow>
     lower_string (cm_type c) \<noteq> ''date'' \<and> lower_string (cm_type c) \<noteq> ''timestamp''"
proof (cases "lower_string (cm_type c) = ''numeric''")
  case True
  with expected_field_cases [OF assms(1)] plain_kind_formats
  have "cm_has_precision c" "ef_kind f = DECIMAL128" "ef_precision f = cm_precision c" "ef_scale f = cm_scale c"
    by (auto simp: list_all_iff)
  with True column_mapping_numeric(2) [OF assms(2)] show ?thesis by (simp add: ExpectedFormat_def)
next
  case False
  define name where "name = lower_string (cm_type c)"
  from expected_field_cases [OF assms(1)] False have k: "(name, ef_kind f) \<in> set plain_kinds" by (auto simp: name_def)
  with plain_kind_formats have "ef_kind f \<noteq> DECIMAL128" by (auto simp: list_all_iff)
  then have "ExpectedFormat f = kind_format (ef_kind f)"
    by (simp add: kind_format_def ExpectedFormat_def split: ArrowFieldKind.split)
  with k plain_kind_formats plain_column_mapping [of c name] False show ?thesis
    by (force simp: list_all_iff name_def)
qed

end
