(* ===== verification/Scan_Runtime.thy ===== *)
theory Scan_Runtime
  imports Query_Execute Type_Mapping
begin

text \<open>
  \<open>scan_runtime.cpp\<close>: the schema comparison and the filling of DuckDB's data chunks from a source of
  result chunks. The conversion of a text to a DuckDB value is DuckDB's, and so a parameter; a data
  chunk is the list of its rows.
\<close>

section \<open>MetadataCompatible\<close>

fun MetadataCompatible :: "ColumnMetadata list \<Rightarrow> ColumnMetadata list \<Rightarrow> bool" where
  "MetadataCompatible bound execution =
     (if length bound \<noteq> length execution then False
      else list_all (\<lambda>(b, e). \<not> (cm_name b \<noteq> cm_name e \<or> cm_type b \<noteq> cm_type e \<or> cm_nullable b \<noteq> cm_nullable e \<or>
              cm_has_precision b \<noteq> cm_has_precision e \<or> cm_has_scale b \<noteq> cm_has_scale e \<or>
              cm_precision b \<noteq> cm_precision e \<or> cm_scale b \<noteq> cm_scale e)) (zip bound execution))"

declare MetadataCompatible.simps [simp del]

lemma MetadataCompatible_iff: "MetadataCompatible bound execution \<longleftrightarrow> bound = execution"
proof -
  have "(\<lambda>(b, e). \<not> (cm_name b \<noteq> cm_name e \<or> cm_type b \<noteq> cm_type e \<or> cm_nullable b \<noteq> cm_nullable e \<or>
              cm_has_precision b \<noteq> cm_has_precision e \<or> cm_has_scale b \<noteq> cm_has_scale e \<or>
              cm_precision b \<noteq> cm_precision e \<or> cm_scale b \<noteq> cm_scale e)) =
        (\<lambda>(b :: ColumnMetadata, e). b = e)"
    by (auto simp: fun_eq_iff)
  moreover have "length bound = length execution \<Longrightarrow> list_all (\<lambda>(b, e). b = e) (zip bound execution) \<longleftrightarrow> bound = execution"
    by (auto simp: list_all_iff set_zip list_eq_iff_nth_eq)
  ultimately show ?thesis by (auto simp: MetadataCompatible.simps)
qed

section \<open>FillDataChunk\<close>

type_synonym ('s, 'e) ChunkSource = "('s, 'e, ResultChunk option) sem"

record 's ScanState =
  sc_source :: 's
  sc_current_chunk :: ResultChunk
  sc_current_row :: nat
  sc_exhausted :: bool

datatype 'e scan_exn =
    SourceError 'e
  | ConversionFailed byte_string
  | RowTooShort
  | ScanOutOfFuel

text \<open>
  The cells of one row. Reading past the end of a row is undefined in C++; here it is the outcome
  \<open>RowTooShort\<close>.
\<close>

fun convert_cells ::
  "(LogicalType \<Rightarrow> 'v) \<Rightarrow> (LogicalType \<Rightarrow> byte_string \<Rightarrow> 'v option) \<Rightarrow>
     LogicalType list \<Rightarrow> byte_string list \<Rightarrow> Cell list \<Rightarrow> 'e scan_exn + 'v list" where
  "convert_cells null_value cast_value [] names cells = Inr []"
| "convert_cells null_value cast_value (t # types) names cells =
     (case cells of
        [] \<Rightarrow> Inl RowTooShort
      | cell # cells' \<Rightarrow>
          ebind (case cell of
                   None \<Rightarrow> Inr (null_value t)
                 | Some text \<Rightarrow>
                     (case cast_value t text of None \<Rightarrow> Inl (ConversionFailed (hd names)) | Some v \<Rightarrow> Inr v))
            (\<lambda>v. ebind (convert_cells null_value cast_value types (tl names) cells') (\<lambda>vs. Inr (v # vs))))"

fun fill_rows ::
  "('s, 'e) ChunkSource \<Rightarrow> (Cell list \<Rightarrow> 'e scan_exn + 'v list) \<Rightarrow> nat \<Rightarrow> nat \<Rightarrow> 'v list list \<Rightarrow>
     ('s ScanState, 'e scan_exn, 'v list list) sem" where
  "fill_rows source convert capacity fuel rows st =
     (if length rows < capacity \<and> \<not> sc_exhausted st
      then case fuel of
             0 \<Rightarrow> (Inl ScanOutOfFuel, st)
           | Suc fuel' \<Rightarrow>
               if length (ch_rows (sc_current_chunk st)) \<le> sc_current_row st
               then (case source (sc_source st) of
                       (Inl e, s') \<Rightarrow>
                         (Inl (SourceError e), st\<lparr>sc_source := s', sc_current_chunk := empty_ResultChunk, sc_current_row := 0\<rparr>)
                     | (Inr None, s') \<Rightarrow>
                         (Inr rows, st\<lparr>sc_source := s', sc_current_chunk := empty_ResultChunk, sc_current_row := 0,
                                       sc_exhausted := True\<rparr>)
                     | (Inr (Some chunk), s') \<Rightarrow>
                         fill_rows source convert capacity fuel' rows
                           (st\<lparr>sc_source := s', sc_current_chunk := chunk, sc_current_row := 0\<rparr>))
               else (case convert (ch_rows (sc_current_chunk st) ! sc_current_row st) of
                       Inl e \<Rightarrow> (Inl e, st\<lparr>sc_current_row := sc_current_row st + 1\<rparr>)
                     | Inr v \<Rightarrow>
                         fill_rows source convert capacity fuel' (rows @ [v])
                           (st\<lparr>sc_current_row := sc_current_row st + 1\<rparr>))
      else (Inr rows, st))"

declare fill_rows.simps [simp del]

definition FillDataChunk ::
  "('s, 'e) ChunkSource \<Rightarrow> (LogicalType \<Rightarrow> 'v) \<Rightarrow> (LogicalType \<Rightarrow> byte_string \<Rightarrow> 'v option) \<Rightarrow> nat \<Rightarrow>
     LogicalType list \<Rightarrow> byte_string list \<Rightarrow> nat \<Rightarrow> ('s ScanState, 'e scan_exn, 'v list list) sem" where
  "FillDataChunk source null_value cast_value fuel types names capacity =
     fill_rows source (convert_cells null_value cast_value types names) capacity fuel []"

text \<open>\<open>CursorChunkSource\<close> hands on the chunks of the query cursor.\<close>

definition CursorChunkSource_NextChunk :: "'w QueryEnv \<Rightarrow> ('w Machine, exn) ChunkSource" where
  "CursorChunkSource_NextChunk env = NextChunk env"

definition new_scan :: "'s \<Rightarrow> 's ScanState" where
  "new_scan s = \<lparr>sc_source = s, sc_current_chunk = empty_ResultChunk, sc_current_row = 0, sc_exhausted = False\<rparr>"

section \<open>The rows a scan delivers\<close>

inductive supplies :: "('s, 'e) ChunkSource \<Rightarrow> 's \<Rightarrow> ResultChunk list \<Rightarrow> 's \<Rightarrow> bool" for source where
  finished: "source s = (Inr None, s') \<Longrightarrow> supplies source s [] s'"
| more: "source s = (Inr (Some c), s1) \<Longrightarrow> supplies source s1 cs s' \<Longrightarrow> supplies source s (c # cs) s'"

inductive_cases supplies_NilE: "supplies source s [] s'"
inductive_cases supplies_ConsE: "supplies source s (c # cs) s'"

text \<open>What is still to come: the rest of the current chunk and the chunks the source has left.\<close>

definition to_come :: "('s, 'e) ChunkSource \<Rightarrow> 's ScanState \<Rightarrow> ResultChunk list \<Rightarrow> Cell list list \<Rightarrow> bool" where
  "to_come source st cs rows \<longleftrightarrow>
     (if sc_exhausted st then cs = [] \<and> rows = []
      else (\<exists>s'. supplies source (sc_source st) cs s') \<and>
           rows = drop (sc_current_row st) (ch_rows (sc_current_chunk st)) @ concat (map ch_rows cs))"

lemma fill_rows_delivers:
  assumes "to_come source st cs pending" "\<forall>r \<in> set pending. convert r = Inr (f r)"
    and "length pending + length cs < fuel" "length rows \<le> capacity"
  shows "\<exists>st' cs'. fill_rows source convert capacity fuel rows st =
       (Inr (rows @ map f (take (capacity - length rows) pending)), st') \<and>
     to_come source st' cs' (drop (capacity - length rows) pending) \<and> length cs' \<le> length cs"
  using assms
proof (induction source convert capacity fuel rows st arbitrary: cs pending rule: fill_rows.induct)
  case (1 source convert capacity fuel rows st)
  show ?case
  proof (cases "length rows < capacity \<and> \<not> sc_exhausted st")
    case False
    with "1.prems" show ?thesis
      by (subst fill_rows.simps) (auto simp: to_come_def split: if_splits)
  next
    case go: True
    then obtain fuel' where fuel: "fuel = Suc fuel'" using "1.prems"(3) by (cases fuel) auto
    show ?thesis
    proof (cases "length (ch_rows (sc_current_chunk st)) \<le> sc_current_row st")
      case fetch: True
      then have pending: "pending = concat (map ch_rows cs)" using "1.prems"(1) go by (auto simp: to_come_def)
      show ?thesis
      proof (cases cs)
        case Nil
        with "1.prems"(1) go obtain s' where "source (sc_source st) = (Inr None, s')"
          by (auto simp: to_come_def elim: supplies_NilE)
        with go fuel fetch pending Nil show ?thesis
          by (subst fill_rows.simps) (auto simp: to_come_def)
      next
        case (Cons c cs1)
        with "1.prems"(1) go obtain s1 s' where step: "source (sc_source st) = (Inr (Some c), s1)" "supplies source s1 cs1 s'"
          by (auto simp: to_come_def elim: supplies_ConsE)
        let ?st = "st\<lparr>sc_source := s1, sc_current_chunk := c, sc_current_row := 0\<rparr>"
        have "to_come source ?st cs1 pending"
          using go step(2) pending Cons by (auto simp: to_come_def)
        then have "\<exists>st' cs'. fill_rows source convert capacity fuel' rows ?st =
            (Inr (rows @ map f (take (capacity - length rows) pending)), st') \<and>
          to_come source st' cs' (drop (capacity - length rows) pending) \<and> length cs' \<le> length cs1"
          using "1.IH"(1) [OF go fuel fetch step(1) [symmetric] refl refl, of cs1 pending] "1.prems"(2-4) fuel Cons by simp
        with go fuel fetch step(1) Cons show ?thesis
          by (subst fill_rows.simps) force
      qed
    next
      case take_row: False
      define r where "r = ch_rows (sc_current_chunk st) ! sc_current_row st"
      obtain rest where pending: "pending = r # rest"
        and rest: "rest = drop (sc_current_row st + 1) (ch_rows (sc_current_chunk st)) @ concat (map ch_rows cs)"
        using "1.prems"(1) go take_row Cons_nth_drop_Suc [of "sc_current_row st" "ch_rows (sc_current_chunk st)"]
        by (auto simp: to_come_def r_def)
      let ?st = "st\<lparr>sc_current_row := sc_current_row st + 1\<rparr>"
      have v: "convert r = Inr (f r)" using "1.prems"(2) pending by simp
      have "to_come source ?st cs rest" using "1.prems"(1) go rest by (auto simp: to_come_def)
      then have "\<exists>st' cs'. fill_rows source convert capacity fuel' (rows @ [f r]) ?st =
          (Inr ((rows @ [f r]) @ map f (take (capacity - length (rows @ [f r])) rest)), st') \<and>
        to_come source st' cs' (drop (capacity - length (rows @ [f r])) rest) \<and> length cs' \<le> length cs"
        using "1.IH"(2) [OF go fuel take_row, of "f r" cs rest] v "1.prems"(2-4) pending fuel go
        by (simp add: r_def)
      moreover have "capacity - length rows = Suc (capacity - length (rows @ [f r]))" using go by (simp add: Suc_diff_Suc)
      ultimately show ?thesis
        using go fuel take_row v pending by (subst fill_rows.simps) (simp add: r_def)
    qed
  qed
qed

section \<open>Batches\<close>

text \<open>The calls DuckDB makes one after the other; the first exception ends them.\<close>

fun scan_batches :: "('st, 'e, 'v list list) sem \<Rightarrow> nat \<Rightarrow> ('st, 'e, 'v list list list) sem" where
  "scan_batches fill 0 = sret []"
| "scan_batches fill (Suc n) = sbind fill (\<lambda>batch. sbind (scan_batches fill n) (\<lambda>batches. sret (batch # batches)))"

lemma batches_deliver:
  assumes "to_come source st cs pending" "\<forall>r \<in> set pending. convert r = Inr (f r)"
    and "length pending + length cs < fuel"
  shows "fst (scan_batches (fill_rows source convert capacity fuel []) n st) =
     Inr (map (\<lambda>i. map f (take capacity (drop (i * capacity) pending))) [0..<n])"
  using assms
proof (induction n arbitrary: st cs pending)
  case 0
  then show ?case by (simp add: sret_def)
next
  case (Suc n)
  from fill_rows_delivers [OF Suc.prems(1,2,3), of "[]" capacity] obtain st' cs' where
    step: "fill_rows source convert capacity fuel [] st = (Inr (map f (take capacity pending)), st')"
    and rest: "to_come source st' cs' (drop capacity pending)" "length cs' \<le> length cs" by auto
  have "fst (scan_batches (fill_rows source convert capacity fuel []) n st') =
      Inr (map (\<lambda>i. map f (take capacity (drop (i * capacity) (drop capacity pending)))) [0..<n])"
    using Suc.prems rest by (intro Suc.IH) (auto dest: in_set_dropD)
  moreover have "map (\<lambda>i. map f (take capacity (drop (i * capacity) pending))) [0..<Suc n] =
      map f (take capacity pending) # map (\<lambda>i. map f (take capacity (drop (i * capacity) (drop capacity pending)))) [0..<n]"
    by (simp add: upt_conv_Cons map_Suc_upt [symmetric] ac_simps del: upt_Suc)
  ultimately show ?case
    using step by (auto simp: sbind_def sret_def split: prod.splits sum.splits)
qed

section \<open>The contract of a chunk source\<close>

definition scan_fault :: "'e scan_exn + 'a \<Rightarrow> bool" where
  "scan_fault r \<longleftrightarrow> r = Inl ScanOutOfFuel \<or> r = Inl RowTooShort"

text \<open>
  What a scan relies on: while \<open>inv k\<close> holds the source gives at most \<open>k\<close> further chunks, and their
  rows have the width of the bound schema.
\<close>

locale chunk_source =
  fixes source :: "('s, 'e) ChunkSource"
    and inv :: "nat \<Rightarrow> 's \<Rightarrow> bool"
    and width :: nat
  assumes progress: "inv k s \<Longrightarrow> source s = (Inr (Some c), s') \<Longrightarrow> \<exists>k' < k. inv k' s'"
    and row_width: "inv k s \<Longrightarrow> source s = (Inr (Some c), s') \<Longrightarrow> \<forall>row \<in> set (ch_rows c). length row = width"
begin

definition scan_ok :: "nat \<Rightarrow> 's ScanState \<Rightarrow> bool" where
  "scan_ok k st \<longleftrightarrow> (sc_exhausted st \<or> inv k (sc_source st)) \<and> (\<forall>row \<in> set (ch_rows (sc_current_chunk st)). length row = width)"

lemma fill_rows_safe:
  assumes "scan_ok k st" "capacity - length rows + k < fuel" "\<And>r. length r = width \<Longrightarrow> convert r \<noteq> Inl RowTooShort"
    "\<And>r. convert r \<noteq> Inl ScanOutOfFuel"
  shows "\<not> scan_fault (fst (fill_rows source convert capacity fuel rows st))"
  using assms(1,2)
proof (induction fuel arbitrary: k rows st)
  case 0
  then show ?case by simp
next
  case (Suc fuel)
  show ?case
  proof (cases "length rows < capacity \<and> \<not> sc_exhausted st")
    case False
    then have "fill_rows source convert capacity (Suc fuel) rows st = (Inr rows, st)" by (subst fill_rows.simps) auto
    then show ?thesis by (simp add: scan_fault_def)
  next
    case go: True
    with Suc.prems(1) have i: "inv k (sc_source st)" by (simp add: scan_ok_def)
    show ?thesis
    proof (cases "length (ch_rows (sc_current_chunk st)) \<le> sc_current_row st")
      case fetch: True
      obtain out s' where out: "source (sc_source st) = (out, s')" by force
      show ?thesis
      proof (cases "\<exists>c. out = Inr (Some c)")
        case True
        then obtain c where c: "out = Inr (Some c)" by blast
        from progress [OF i] row_width [OF i] out c obtain k' where k': "k' < k" "inv k' s'"
          and w: "\<forall>row \<in> set (ch_rows c). length row = width" by blast
        have "scan_ok k' (st\<lparr>sc_source := s', sc_current_chunk := c, sc_current_row := 0\<rparr>)"
          using k' w by (simp add: scan_ok_def)
        moreover have "capacity - length rows + k' < fuel" using Suc.prems(2) k'(1) by linarith
        ultimately have "\<not> scan_fault (fst (fill_rows source convert capacity fuel rows
            (st\<lparr>sc_source := s', sc_current_chunk := c, sc_current_row := 0\<rparr>)))" by (rule Suc.IH)
        with go fetch out c show ?thesis
          by (subst fill_rows.simps) simp
      next
        case False
        with go fetch out show ?thesis
          by (subst fill_rows.simps) (auto simp: scan_fault_def split: sum.split option.split)
      qed
    next
      case take_row: False
      define r where "r = ch_rows (sc_current_chunk st) ! sc_current_row st"
      have "length r = width" using Suc.prems(1) take_row by (auto simp: scan_ok_def r_def)
      then have ok: "convert r \<noteq> Inl RowTooShort" "convert r \<noteq> Inl ScanOutOfFuel" using assms(3,4) by auto
      have "scan_ok k (st\<lparr>sc_current_row := sc_current_row st + 1\<rparr>)" using Suc.prems(1) by (simp add: scan_ok_def)
      from Suc.IH [OF this] Suc.prems(2) go take_row ok show ?thesis
        by (subst fill_rows.simps) (auto simp: r_def scan_fault_def split: sum.split)
    qed
  qed
qed

end

section \<open>The query cursor as a source\<close>

definition cursor_inv :: "QueryOptions \<Rightarrow> ColumnMetadata list \<Rightarrow> nat \<Rightarrow> 'w Machine \<Rightarrow> bool" where
  "cursor_inv op md k s \<longleftrightarrow> budgeted op s \<and> s_metadata (m_session s) = md \<and>
     k = unat (op_max_chunks op) - unat (s_fetched_chunks (m_session s))"

lemma cursor_step:
  assumes "cursor_inv op md k s" "NextChunk env s = (Inr (Some c), s')"
  shows "\<exists>k' < k. cursor_inv op md k' s'" "\<forall>row \<in> set (ch_rows c). length row = length md"
proof -
  from assms(1) have b: "budgeted op s" and t: "tally_is md (s_rows (m_session s)) (s_fetched_chunks (m_session s)) s"
    by (auto simp: cursor_inv_def tally_is_def)
  from triple_ret [OF NextChunk_tally _ assms(2), OF conjI, OF t b]
  have o: "s_metadata (m_session s') = md" "\<forall>row \<in> set (ch_rows c). length row = length md"
    "unat (s_fetched_chunks (m_session s')) = Suc (unat (s_fetched_chunks (m_session s)))"
    by (auto simp: one_more_def)
  have b': "budgeted op s'" using keepsD [OF keeps_budgeted_NextChunk b assms(2)] .
  then have "unat (s_fetched_chunks (m_session s')) \<le> unat (op_max_chunks op)"
    by (simp add: budgeted_def within_budgets_def word_le_nat_alt)
  with o b' assms(1) show "\<exists>k' < k. cursor_inv op md k' s'"
    by (intro exI [of _ "unat (op_max_chunks op) - unat (s_fetched_chunks (m_session s'))"]) (auto simp: cursor_inv_def)
  show "\<forall>row \<in> set (ch_rows c). length row = length md" by (rule o)
qed

interpretation cursor: chunk_source "CursorChunkSource_NextChunk env" "cursor_inv op md" "length md"
  by unfold_locales (auto simp: CursorChunkSource_NextChunk_def dest: cursor_step)

lemma convert_cells_width:
  "length cells = length types \<Longrightarrow> convert_cells null_value cast_value types names cells \<noteq> Inl RowTooShort"
  "convert_cells null_value cast_value types names cells \<noteq> Inl ScanOutOfFuel"
proof (induction types arbitrary: names cells)
  case (Cons t types)
  { case 1
    then obtain c cs where c: "cells = c # cs" "length cs = length types" by (cases cells) auto
    with Cons.IH(1) [of cs "tl names"] show ?case
      by (auto simp: ebind_def split: option.split sum.split)
  next
    case 2
    show ?case using Cons.IH(2) by (auto simp: ebind_def split: list.split option.split sum.split) }
qed simp_all

text \<open>What a scan of the cursor delivers is what draining it collects.\<close>

lemma drain_supplies:
  "drain env fuel acc s = (Inr chunks, s') \<Longrightarrow>
     \<exists>cs. chunks = acc @ cs \<and> supplies (CursorChunkSource_NextChunk env) s cs s'"
proof (induction fuel arbitrary: acc s)
  case 0
  then show ?case by (subst (asm) drain.simps) (simp add: run_returns)
next
  case (Suc fuel)
  from Suc.prems obtain r s1 where step: "NextChunk env s = (Inr r, s1)"
    and rest: "(case r of None \<Rightarrow> sret acc | Some c \<Rightarrow> drain env fuel (acc @ [c])) s1 = (Inr chunks, s')"
    by (subst (asm) drain.simps) (auto simp: run_returns)
  show ?case
  proof (cases r)
    case None
    with step rest show ?thesis
      by (auto simp: atomic_returns CursorChunkSource_NextChunk_def intro!: supplies.finished)
  next
    case (Some c)
    with rest Suc.IH obtain cs where "chunks = acc @ [c] @ cs" "supplies (CursorChunkSource_NextChunk env) s1 cs s'"
      by fastforce
    with step Some show ?thesis
      by (intro exI [of _ "c # cs"]) (auto simp: CursorChunkSource_NextChunk_def intro!: supplies.more)
  qed
qed

lemma scan_delivers_drained:
  assumes "drain env n [] s = (Inr chunks, s')"
    and "\<forall>c \<in> set chunks. \<forall>row \<in> set (ch_rows c).
      convert_cells null_value cast_value types names row = (Inr (f row) :: exn scan_exn + 'v list)"
    and "length (concat (map ch_rows chunks)) + length chunks < fuel"
  shows "fst (scan_batches (FillDataChunk (CursorChunkSource_NextChunk env) null_value cast_value fuel types names capacity)
       k (new_scan s)) =
     Inr (map (\<lambda>i. map f (take capacity (drop (i * capacity) (concat (map ch_rows chunks))))) [0..<k])"
proof -
  from drain_supplies [OF assms(1)] have "supplies (CursorChunkSource_NextChunk env) s chunks s'" by auto
  then have "to_come (CursorChunkSource_NextChunk env) (new_scan s) chunks (concat (map ch_rows chunks))"
    by (auto simp: to_come_def new_scan_def empty_ResultChunk_def)
  moreover have "\<forall>row \<in> set (concat (map ch_rows chunks)). 
      convert_cells null_value cast_value types names row = (Inr (f row) :: exn scan_exn + 'v list)"
    using assms(2) by auto
  ultimately show ?thesis
    unfolding FillDataChunk_def using assms(3) by (rule batches_deliver)
qed

end
