(* ===== verification/Scan_Properties.thy ===== *)
theory Scan_Properties
  imports Query_Properties Type_Correct Scan_Runtime
begin

text \<open>
  The properties of the path from a response to DuckDB's data chunks: what the codec reads, how
  columns are bound, and which rows a scan delivers.
\<close>

section \<open>Responses\<close>

text \<open>
  C34. Whatever the service answers, every column of a decoded response that has a name is bound to a
  DuckDB type; a column with precision and scale is numeric, both are within the limits of a DuckDB
  decimal, and it is bound to the decimal of exactly that precision and scale.
\<close>
theorem decoded_columns_bind:
  assumes "JsonDecode js response = Inr r" "c \<in> set (qr_metadata r)" "cm_name c \<noteq> []"
  shows "\<exists>t. bind_column c = Inr t \<and>
    (cm_has_precision c \<longrightarrow> t = DECIMAL (cm_precision c) (cm_scale c) \<and> lower_string (cm_type c) = ''numeric'' \<and>
       0 < cm_precision c \<and> cm_precision c \<le> 38 \<and> cm_scale c \<le> cm_precision c)"
proof -
  have ok: "column_ok c" by (rule JsonDecode_metadata_ok [OF assms(1,2)])
  show ?thesis
  proof (cases "cm_has_precision c")
    case True
    with column_mapping_numeric(1) [OF ok] assms(3) have "bind_column c = Inr (DECIMAL (cm_precision c) (cm_scale c))"
      by (simp add: bind_column_def)
    with True ok show ?thesis by (simp add: column_ok_def word_le_nat_alt word_less_nat_alt)
  next
    case False
    with bind_column_total [OF assms(3)] show ?thesis by blast
  qed
qed

definition demo_numeric :: ColumnMetadata where
  "demo_numeric = \<lparr>cm_name = ''n'', cm_type = ''Numeric'', cm_nullable = False, cm_has_precision = True,
     cm_has_scale = True, cm_precision = 12, cm_scale = 2\<rparr>"

definition demo_body :: byte_string where
  "demo_body = ''{...}''"

definition demo_document :: "json Yyjson" where
  "demo_document = json_tree [(demo_body, chunk_json [demo_numeric, demo_column] [[Some ''1.50'', None]] [] (Some 1))]"

definition demo_answer :: HttpResponse where
  "demo_answer = \<lparr>rs_status = 200, rs_body = demo_body, rs_headers = []\<rparr>"

definition demo_decoded :: QueryResponse where
  "demo_decoded = default_QueryResponse\<lparr>qr_state := COMPLETE, qr_metadata := [demo_numeric, demo_column],
     qr_chunk := \<lparr>ch_rows = [[Some ''1.50'', None]], ch_next_url = []\<rparr>, qr_has_returned_rows := True, qr_returned_rows := 1\<rparr>"

lemma demo_decodes: "JsonDecode demo_document demo_answer = Inr demo_decoded"
  by code_simp

theorem decoded_columns_bind_witness: "bind_column demo_numeric = Inr (DECIMAL 12 2)"
proof -
  have "demo_numeric \<in> set (qr_metadata demo_decoded)" "cm_name demo_numeric \<noteq> []" "cm_has_precision demo_numeric"
    by (simp_all add: demo_decoded_def demo_numeric_def)
  from decoded_columns_bind [OF demo_decodes this(1,2)] this(3) show ?thesis by (auto simp: demo_numeric_def)
qed

text \<open>
  C37. The document the Query API sends for a chunk is read back exactly: the columns with their
  precision and scale, the rows with their null cells, the next link and the number of rows, for any
  well-formed metadata and any cells.
\<close>
theorem chunk_document_roundtrip:
  assumes "list_all column_ok columns" "200 \<le> status" "status < 300"
  shows "JsonDecode (json_tree [(body, chunk_json columns rows link count)])
      \<lparr>rs_status = status, rs_body = body, rs_headers = []\<rparr> =
    Inr (default_QueryResponse\<lparr>qr_state := COMPLETE, qr_metadata := columns,
           qr_chunk := \<lparr>ch_rows = rows, ch_next_url = link\<rparr>, qr_has_returned_rows := (count \<noteq> None),
           qr_returned_rows := (case count of None \<Rightarrow> 0 | Some n \<Rightarrow> n)\<rparr>)"
proof -
  let ?js = "json_tree [(body, chunk_json columns rows link count)]"
  have "Parse ?js body = Inr (chunk_json columns rows link count)"
    by (simp add: Parse_def chunk_json_def)
  moreover have "\<forall>c \<in> set columns. column_ok c" using assms(1) by (simp add: list_all_iff)
  ultimately show ?thesis
    using assms(2,3) decode_chunk_json [of columns] by (simp add: JsonDecode_def location_id_def)
qed

theorem chunk_document_roundtrip_witness: "JsonDecode demo_document demo_answer = Inr demo_decoded"
proof -
  have "list_all column_ok [demo_numeric, demo_column]" by code_simp
  from chunk_document_roundtrip [OF this, of 200 demo_body "[[Some ''1.50'', None]]" "[]" "Some 1"]
  show ?thesis unfolding demo_document_def demo_answer_def demo_decoded_def by simp
qed

text \<open>
  C38. The Arrow format demanded of a result column is the one its type was mapped to at bind time,
  except for columns of type \<open>date\<close> and \<open>timestamp\<close>, for which the two always differ.
\<close>
theorem arrow_format_agreement:
  assumes "JsonDecode js response = Inr r" "c \<in> set (qr_metadata r)" "expected_field c = Inr f"
  shows "ExpectedFormat f = tm_arrow_format (column_mapping c) \<longleftrightarrow>
     lower_string (cm_type c) \<noteq> ''date'' \<and> lower_string (cm_type c) \<noteq> ''timestamp''"
  by (rule arrow_agrees [OF assms(3) JsonDecode_metadata_ok [OF assms(1,2)]])

theorem arrow_format_agreement_witness:
  "\<exists>f. expected_field demo_numeric = Inr f \<and> ExpectedFormat f = tm_arrow_format (column_mapping demo_numeric)"
proof -
  have t: "lower_string (cm_type demo_numeric) = ''numeric''" "\<not> isl (expected_field demo_numeric)" by code_simp+
  then obtain f where f: "expected_field demo_numeric = Inr f" by (cases "expected_field demo_numeric") auto
  have "demo_numeric \<in> set (qr_metadata demo_decoded)" by (simp add: demo_decoded_def)
  from arrow_format_agreement [OF demo_decodes this f] f show ?thesis by (simp add: t)
qed

section \<open>Scans\<close>

text \<open>
  C35. A scan delivers exactly the rows the query cursor returns, each once and in order, cut into
  batches of DuckDB's vector size however the chunks were cut; after the last row every further
  batch is empty.
\<close>
theorem scan_delivers_rows:
  assumes "drain env n [] s = (Inr chunks, s')"
    and "\<forall>row \<in> set (concat (map ch_rows chunks)).
      convert_cells null_value cast_value types names row = (Inr (f row) :: exn scan_exn + 'v list)"
    and "length (concat (map ch_rows chunks)) + length chunks < fuel"
  shows "fst (scan_batches (FillDataChunk (CursorChunkSource_NextChunk env) null_value cast_value fuel types names capacity)
       k (new_scan s)) =
     Inr (map (\<lambda>i. map f (take capacity (drop (i * capacity) (concat (map ch_rows chunks))))) [0..<k])"
  using assms by (intro scan_delivers_drained) auto

abbreviation demo_cast :: "LogicalType \<Rightarrow> byte_string \<Rightarrow> byte_string option" where
  "demo_cast t text \<equiv> Some text"

theorem scan_delivers_rows_witness:
  "fst (scan_batches (FillDataChunk (CursorChunkSource_NextChunk demo_env) (\<lambda>t. []) demo_cast 9 [VARCHAR] [''x''] 1) 3
     (new_scan demo_open)) = Inr [[[''a'']], [[[]]], []]"
proof -
  have "fst (drain demo_env 3 [] demo_open) = Inr demo_rows" by code_simp
  then have d: "drain demo_env 3 [] demo_open = (Inr demo_rows, snd (drain demo_env 3 [] demo_open))"
    by (metis surjective_pairing)
  have c: "\<forall>row \<in> set (concat (map ch_rows demo_rows)). convert_cells (\<lambda>t. []) demo_cast [VARCHAR] [''x''] row =
      (Inr (map (\<lambda>cell. case cell of None \<Rightarrow> [] | Some text \<Rightarrow> text) row) :: exn scan_exn + byte_string list)"
    by simp
  from scan_delivers_rows [OF d c, of 9 1 3] show ?thesis by (simp add: upt_rec numeral_eq_Suc)
qed

text \<open>
  C36. In every state of a run, filling a data chunk comes to an end within one round per row of its
  capacity and one per chunk the limit leaves, and never reads past the end of a row.
\<close>
theorem scan_total:
  assumes "client_run env op cr True s" "length types = length (s_metadata (m_session s))"
    and "capacity + unat (op_max_chunks op) < fuel"
  shows "\<not> scan_fault (fst (FillDataChunk (CursorChunkSource_NextChunk env) null_value cast_value fuel types names capacity
       (new_scan s)))"
proof -
  let ?md = "s_metadata (m_session s)"
  let ?k = "unat (op_max_chunks op) - unat (s_fetched_chunks (m_session s))"
  have "cursor_inv op ?md ?k s" using run_live [OF assms(1)] by (simp add: cursor_inv_def)
  then have "cursor.scan_ok op ?md ?k (new_scan s)"
    by (simp add: cursor.scan_ok_def new_scan_def empty_ResultChunk_def)
  then show ?thesis
    unfolding FillDataChunk_def
    by (rule cursor.fill_rows_safe) (use assms(2,3) in \<open>auto simp: convert_cells_width\<close>)
qed

theorem scan_total_witness:
  "\<not> scan_fault (fst (FillDataChunk (CursorChunkSource_NextChunk demo_env) (\<lambda>t. []) demo_cast 9 [VARCHAR] [''x''] 4
     (new_scan demo_open)))"
proof (rule scan_total)
  show "client_run demo_env demo_options demo_credentials True demo_open" by (intro called demo_run)
  show "length [VARCHAR] = length (s_metadata (m_session demo_open))" by code_simp
  show "4 + unat (op_max_chunks demo_options) < 9" by (simp add: demo_options_def)
qed

end
