(* ===== verification/OAuth_Provider.thy ===== *)
theory OAuth_Provider
  imports Auth_Registry OAuth_Origin Query_Session
begin

text \<open>
  \<open>salesforce_oauth_provider.cpp\<close>: the exchange of an authorization code for a Salesforce token and of
  that token for a Data 360 capability. The transport, the runtime hooks and the clock of the wall
  are the environment; every request is recorded. Wiping a local string does not change an
  outcome and is left out.
\<close>

section \<open>State and environment\<close>

text \<open>What a transport throws: a fault, a standard exception with its text, or anything else.\<close>

datatype transport_exn = TransportFault AuthFault | TransportError byte_string | TransportOther

record 'w ProviderEnv =
  pe_Send :: "HttpRequest \<Rightarrow> 'w \<Rightarrow> (transport_exn + HttpResponse) \<times> 'w"
  pe_IsCancelled :: "'w \<Rightarrow> bool \<times> 'w"
  pe_NowMs :: "'w \<Rightarrow> u64 \<times> 'w"
  pe_UtcNowMicros :: "'w \<Rightarrow> int \<times> 'w"

record 'w Provider =
  pv_world :: 'w
  pv_sent :: "HttpRequest list"

record Data360Capability =
  dc_tenant_url :: byte_string
  dc_access_token :: byte_string
  dc_expires_at_monotonic_ms :: u64
  dc_expires_at_utc_micros :: int

record OAuthExchangeOptions =
  ox_request_timeout_ms :: u64
  ox_max_response_bytes :: u64
  ox_default_ttl_seconds :: u64
  ox_expiry_skew_seconds :: u64

definition default_OAuthExchangeOptions :: OAuthExchangeOptions where
  "default_OAuthExchangeOptions =
     \<lparr>ox_request_timeout_ms = 30000, ox_max_response_bytes = 64 * 1024, ox_default_ttl_seconds = 900,
      ox_expiry_skew_seconds = 30\<rparr>"

definition MAX_JSON_BYTES :: u64 where
  "MAX_JSON_BYTES = 64 * 1024"

definition MAX_TOKEN_BYTES :: nat where
  "MAX_TOKEN_BYTES = 16 * 1024"

definition MAX_URL_BYTES :: nat where
  "MAX_URL_BYTES = 2048"

definition MAX_EXPIRY_SECONDS :: u64 where
  "MAX_EXPIRY_SECONDS = 86400 * 365"

section \<open>Values\<close>

definition FormEncode :: "byte_string \<Rightarrow> byte_string" where
  "FormEncode value = concat (map percent_encode_char value)"

definition origin_label :: "byte_string \<Rightarrow> bool" where
  "origin_label label \<longleftrightarrow>
     \<not> (length label = 0 \<or> 63 < length label \<or> hd label = CHR ''-'' \<or> last label = CHR ''-'') \<and>
     (\<forall>c \<in> set label. islower c \<or> isdigit c \<or> c = CHR ''-'')"

definition ValidDnsOrigin :: "byte_string \<Rightarrow> byte_string \<Rightarrow> bool" where
  "ValidDnsOrigin value domain =
     (if \<not> prefix ''https://'' value \<or> MAX_URL_BYTES < length value then False
      else let host = drop (length ''https://'') value
           in if host = [] \<or> 253 < length host \<or> str_find_if (\<lambda>c. c \<in> set url_delimiters) host \<noteq> None \<or>
                 length host \<le> length domain \<or> \<not> suffix domain host then False
              else label_loop origin_label host)"

definition JsonString :: "'v Yyjson \<Rightarrow> 'v \<Rightarrow> byte_string \<Rightarrow> nat \<Rightarrow> AuthFault + byte_string" where
  "JsonString js object name maximum =
     (case yy_obj_get js object name of
        None \<Rightarrow> Inl DATA360_EXCHANGE_FAILED
      | Some v \<Rightarrow>
          if \<not> yy_is_str js v \<or> length (yy_get_str js v) = 0 \<or> maximum < length (yy_get_str js v)
          then Inl DATA360_EXCHANGE_FAILED else Inr (yy_get_str js v))"

record Data360Response =
  dr_token :: byte_string
  dr_tenant_url :: byte_string
  dr_ttl_seconds :: u64

definition ttl_member :: "'v Yyjson \<Rightarrow> 'v \<Rightarrow> u64 \<Rightarrow> AuthFault + u64" where
  "ttl_member js root default_ttl_seconds =
     (case yy_obj_get js root ''expires_in'' of
        None \<Rightarrow> Inr default_ttl_seconds
      | Some v \<Rightarrow>
          if \<not> yy_is_uint js v \<or> yy_get_uint js v = 0 \<or> MAX_EXPIRY_SECONDS < yy_get_uint js v
          then Inl DATA360_EXCHANGE_FAILED else Inr (yy_get_uint js v))"

definition ParseData360Response :: "'v Yyjson \<Rightarrow> byte_string \<Rightarrow> u64 \<Rightarrow> AuthFault + Data360Response" where
  "ParseData360Response js body default_ttl_seconds =
     (if body = [] \<or> uint MAX_JSON_BYTES < int (length body) then Inl DATA360_EXCHANGE_FAILED
      else case yy_read js False body of
             None \<Rightarrow> Inl DATA360_EXCHANGE_FAILED
           | Some root \<Rightarrow>
               if \<not> yy_is_obj js root then Inl DATA360_EXCHANGE_FAILED
               else if (\<exists>name \<in> set (yy_obj_keys js root). 128 < length name) \<or> \<not> distinct (yy_obj_keys js root)
               then Inl DATA360_EXCHANGE_FAILED
               else ebind (JsonString js root ''access_token'' MAX_TOKEN_BYTES) (\<lambda>token.
                    ebind (JsonString js root ''instance_url'' MAX_URL_BYTES) (\<lambda>tenant_url.
                    ebind (if yy_obj_get js root ''token_type'' \<noteq> None
                           then ebind (JsonString js root ''token_type'' 16) (\<lambda>token_type.
                                  if token_type \<noteq> ''Bearer'' then Inl DATA360_EXCHANGE_FAILED else Inr ())
                           else Inr ()) (\<lambda>_.
                    ebind (ttl_member js root default_ttl_seconds) (\<lambda>ttl_seconds.
                      Inr \<lparr>dr_token = token, dr_tenant_url = tenant_url, dr_ttl_seconds = ttl_seconds\<rparr>)))))"

section \<open>Requests\<close>

definition exchange_fault :: "bool \<Rightarrow> AuthFault" where
  "exchange_fault data360_exchange = (if data360_exchange then DATA360_EXCHANGE_FAILED else TOKEN_EXCHANGE_FAILED)"

definition CheckStatus :: "int \<Rightarrow> bool \<Rightarrow> ('w Provider, AuthFault, unit) sem" where
  "CheckStatus status data360_exchange =
     (if 200 \<le> status \<and> status < 300 then sret ()
      else if data360_exchange \<and> status = 403 then sthrow ORG_POLICY_DENIED
      else sthrow (exchange_fault data360_exchange))"

definition SendSanitized :: "'w ProviderEnv \<Rightarrow> HttpRequest \<Rightarrow> bool \<Rightarrow> ('w Provider, AuthFault, HttpResponse) sem" where
  "SendSanitized env request data360_exchange s =
     (case pe_Send env request (pv_world s) of
        (out, w) \<Rightarrow>
          (let s' = s\<lparr>pv_world := w, pv_sent := request # pv_sent s\<rparr>
           in case out of
                Inr response \<Rightarrow> (Inr response, s')
              | Inl (TransportFault fault) \<Rightarrow> (Inl fault, s')
              | Inl (TransportError detail) \<Rightarrow>
                  (Inl (if detail = ''D360-AUTH-008 NETWORK_UNAVAILABLE'' then NETWORK_UNAVAILABLE
                        else if detail = ''D360-AUTH-009 TLS_FAILURE'' then TLS_FAILURE
                        else exchange_fault data360_exchange), s')
              | Inl TransportOther \<Rightarrow> (Inl (exchange_fault data360_exchange), s')))"

definition cancel_check :: "'w ProviderEnv \<Rightarrow> ('w Provider, AuthFault, unit) sem" where
  "cancel_check env s =
     (case pe_IsCancelled env (pv_world s) of
        (b, w) \<Rightarrow> (if b then Inl DATA360_EXCHANGE_FAILED else Inr (), s\<lparr>pv_world := w\<rparr>))"

definition provider_now :: "'w ProviderEnv \<Rightarrow> ('w Provider, AuthFault, u64) sem" where
  "provider_now env s = (case pe_NowMs env (pv_world s) of (t, w) \<Rightarrow> (Inr t, s\<lparr>pv_world := w\<rparr>))"

definition provider_utc :: "'w ProviderEnv \<Rightarrow> ('w Provider, AuthFault, int) sem" where
  "provider_utc env s = (case pe_UtcNowMicros env (pv_world s) of (t, w) \<Rightarrow> (Inr t, s\<lparr>pv_world := w\<rparr>))"

definition form_headers :: headers where
  "form_headers = map_put ''Content-Type'' ''application/x-www-form-urlencoded'' (map_put ''Accept'' ''application/json'' [])"

definition oauth_form :: "byte_string \<Rightarrow> AuthCompletionMaterial \<Rightarrow> byte_string" where
  "oauth_form client_id material =
     ''grant_type=authorization_code&client_id='' @ FormEncode client_id @ ''&redirect_uri='' @
     FormEncode FixedOAuthCallbackUrl @ ''&code='' @ FormEncode (cm_authorization_code material) @
     ''&code_verifier='' @ FormEncode (cm_pkce_verifier material)"

definition data360_form :: "byte_string \<Rightarrow> byte_string" where
  "data360_form access_token =
     ''grant_type='' @ FormEncode ''urn:salesforce:grant-type:external:cdp'' @ ''&subject_token='' @
     FormEncode access_token @ ''&subject_token_type='' @ FormEncode ''urn:ietf:params:oauth:token-type:access_token''"

definition form_request :: "OAuthExchangeOptions \<Rightarrow> byte_string \<Rightarrow> byte_string \<Rightarrow> HttpRequest" where
  "form_request options url body =
     default_HttpRequest\<lparr>rq_method := ''POST'', rq_url := url, rq_headers := form_headers, rq_body := body,
       rq_timeout_ms := ox_request_timeout_ms options, rq_max_response_bytes := ox_max_response_bytes options\<rparr>"

section \<open>The exchange\<close>

definition SalesforceOAuthProvider :: "OAuthExchangeOptions \<Rightarrow> AuthFault + OAuthExchangeOptions" where
  "SalesforceOAuthProvider options =
     (if ox_request_timeout_ms options = 0 \<or> ox_max_response_bytes options = 0 \<or>
         MAX_JSON_BYTES < ox_max_response_bytes options \<or> ox_default_ttl_seconds options = 0 \<or>
         MAX_EXPIRY_SECONDS < ox_default_ttl_seconds options
      then Inl DATA360_EXCHANGE_FAILED else Inr options)"

definition salesforce_token ::
  "'v Yyjson \<Rightarrow> 'w ProviderEnv \<Rightarrow> OAuthExchangeOptions \<Rightarrow> byte_string \<Rightarrow> byte_string \<Rightarrow> AuthCompletionMaterial \<Rightarrow>
     ('w Provider, AuthFault, OAuthTokenResponse) sem" where
  "salesforce_token js env options origin client_id material =
     sbind (SendSanitized env (form_request options (origin @ ''/services/oauth2/token'') (oauth_form client_id material)) False)
       (\<lambda>response.
     sthen (CheckStatus (rs_status response) False)
       (case ParseOAuthTokenResponse js (rs_body response) of
          Inl _ \<Rightarrow> sthrow TOKEN_EXCHANGE_FAILED
        | Inr salesforce \<Rightarrow>
            if \<not> ValidDnsOrigin (tr_instance_url salesforce) ''.salesforce.com'' then sthrow TOKEN_EXCHANGE_FAILED
            else sret salesforce))"

definition data360_token ::
  "'v Yyjson \<Rightarrow> 'w ProviderEnv \<Rightarrow> OAuthExchangeOptions \<Rightarrow> OAuthTokenResponse \<Rightarrow> ('w Provider, AuthFault, Data360Response) sem" where
  "data360_token js env options salesforce =
     sbind (SendSanitized env (form_request options (tr_instance_url salesforce @ ''/services/a360/token'')
              (data360_form (tr_access_token salesforce))) True) (\<lambda>response.
     sthen (CheckStatus (rs_status response) True)
     (sthen (cancel_check env)
       (case ParseData360Response js (rs_body response) (ox_default_ttl_seconds options) of
          Inl fault \<Rightarrow> sthrow fault
        | Inr parsed \<Rightarrow> sret parsed)))"

text \<open>The tenant URL may come without its scheme.\<close>

definition tenant_candidate :: "byte_string \<Rightarrow> byte_string" where
  "tenant_candidate tenant_url = (if prefix ''https://'' tenant_url then tenant_url else ''https://'' @ tenant_url)"

definition capability ::
  "'w ProviderEnv \<Rightarrow> OAuthExchangeOptions \<Rightarrow> Data360Response \<Rightarrow> ('w Provider, AuthFault, Data360Capability) sem" where
  "capability env options parsed =
     (let tenant_url = tenant_candidate (dr_tenant_url parsed)
      in if \<not> ValidDnsOrigin tenant_url ''.c360a.salesforce.com'' \<or>
            dr_ttl_seconds parsed \<le> ox_expiry_skew_seconds options
         then sthrow DATA360_EXCHANGE_FAILED
         else let effective_seconds = dr_ttl_seconds parsed - ox_expiry_skew_seconds options
              in sbind (provider_now env) (\<lambda>now_ms.
                   if 0xFFFFFFFFFFFFFFFF div 1000 < effective_seconds \<or>
                      0xFFFFFFFFFFFFFFFF - effective_seconds * 1000 < now_ms
                   then sthrow DATA360_EXCHANGE_FAILED
                   else sbind (provider_utc env) (\<lambda>now_utc.
                     if now_utc < 0 \<or> of_int (0x7FFFFFFFFFFFFFFF - now_utc) div 1000000 < effective_seconds
                     then sthrow DATA360_EXCHANGE_FAILED
                     else sret \<lparr>dc_tenant_url = tenant_url, dc_access_token = dr_token parsed,
                                dc_expires_at_monotonic_ms = now_ms + effective_seconds * 1000,
                                dc_expires_at_utc_micros = now_utc + sint (effective_seconds * 1000000)\<rparr>)))"

definition client_id_invalid :: "byte_string \<Rightarrow> bool" where
  "client_id_invalid client_id \<longleftrightarrow>
     client_id = [] \<or> 1024 < length client_id \<or> (\<exists>c \<in> set client_id. code c < 0x20 \<or> code c = 0x7f)"

definition Exchange_with ::
  "'v Yyjson \<Rightarrow> 'w ProviderEnv \<Rightarrow> OAuthExchangeOptions \<Rightarrow> byte_string \<Rightarrow> byte_string \<Rightarrow> AuthCompletionMaterial \<Rightarrow>
     ('w Provider, AuthFault, Data360Capability) sem" where
  "Exchange_with js env options login_origin client_id material =
     (case ValidateSalesforceLoginOrigin login_origin of
        Inl _ \<Rightarrow> sthrow INVALID_LOGIN_ORIGIN
      | Inr origin \<Rightarrow>
          if client_id_invalid client_id then sthrow INVALID_CLIENT_ID
          else sthen (cancel_check env)
               (sbind (salesforce_token js env options origin client_id material) (\<lambda>salesforce.
                sthen (cancel_check env)
                (sbind (data360_token js env options salesforce) (capability env options)))))"

definition Exchange ::
  "'v Yyjson \<Rightarrow> 'w ProviderEnv \<Rightarrow> OAuthExchangeOptions \<Rightarrow> AuthCompletionMaterial \<Rightarrow>
     ('w Provider, AuthFault, Data360Capability) sem" where
  "Exchange js env options material =
     Exchange_with js env options (cm_login_origin material) (cm_client_id material) material"

end
