(* ===== verification/OAuth_Exchange.thy ===== *)
theory OAuth_Exchange
  imports OAuth_Provider
begin

text \<open>
  Correctness of the exchange: the origins the provider accepts are host names below the given
  domain, each form splits into its fields again, an exchange sends at most the two token requests
  and the capability it returns is one the query client trusts, with an expiry that did not wrap.
\<close>

section \<open>Origins\<close>

lemma origin_label_dns: "origin_label l = dns_label l"
  by (cases l) (auto simp: origin_label_def dns_label_def)

lemma ValidDnsOrigin_iff:
  assumes "domain \<noteq> []" "last domain \<noteq> CHR ''.''"
  shows "ValidDnsOrigin value domain \<longleftrightarrow>
    (\<exists>host. value = ''https://'' @ host \<and> length host \<le> 253 \<and> dns_host_under domain host)"
proof (cases "\<exists>host. value = ''https://'' @ host")
  case True
  then obtain host where v: "value = ''https://'' @ host" by blast
  have labels: "label_loop origin_label host \<longleftrightarrow> (\<forall>l \<in> set (split_on CHR ''.'' host). dns_label l)"
    if "suffix domain host" "length domain < length host"
  proof -
    from that assms have "host \<noteq> []" "last host \<noteq> CHR ''.''" by (auto simp: suffix_def)
    then show ?thesis by (simp add: label_loop_split_on origin_label_dns)
  qed
  have clean: "str_find_if (\<lambda>c. c \<in> set url_delimiters) host = None" if "dns_host_under domain host"
    unfolding str_find_if_None
  proof
    fix c assume "c \<in> set host"
    from dns_host_under_chars [OF that this] show "c \<notin> set url_delimiters"
      by (auto simp: ctype_defs url_delimiters_code)
  qed
  show ?thesis
    using labels clean by (auto simp: v ValidDnsOrigin_def MAX_URL_BYTES_def Let_def dns_host_under_def)
next
  case False
  then show ?thesis by (auto simp: ValidDnsOrigin_def prefix_def)
qed

section \<open>Forms\<close>

lemma FormEncode_PercentEncode: "FormEncode v = PercentEncode v"
  by (simp add: FormEncode_def PercentEncode_def)

lemma oauth_form_fields:
  "split_on CHR ''&'' (oauth_form client_id material) =
     [''grant_type=authorization_code'', ''client_id='' @ PercentEncode client_id,
      ''redirect_uri='' @ PercentEncode FixedOAuthCallbackUrl,
      ''code='' @ PercentEncode (cm_authorization_code material),
      ''code_verifier='' @ PercentEncode (cm_pkce_verifier material)]"
  (is "_ = ?pieces")
proof -
  have "oauth_form client_id material = join_on CHR ''&'' ?pieces"
    by (simp add: oauth_form_def FormEncode_PercentEncode)
  moreover have "list_all (\<lambda>f. CHR ''&'' \<notin> set f) ?pieces" by (simp add: PercentEncode_clean)
  ultimately show ?thesis by (simp only: split_on_join_on list.distinct not_False_eq_True)
qed

section \<open>Requests\<close>

definition code_request :: "OAuthExchangeOptions \<Rightarrow> byte_string \<Rightarrow> byte_string \<Rightarrow> AuthCompletionMaterial \<Rightarrow> HttpRequest" where
  "code_request options host client_id material =
     form_request options (''https://'' @ host @ ''/services/oauth2/token'') (oauth_form client_id material)"

definition subject_request :: "OAuthExchangeOptions \<Rightarrow> byte_string \<Rightarrow> byte_string \<Rightarrow> HttpRequest" where
  "subject_request options host access_token =
     form_request options (''https://'' @ host @ ''/services/a360/token'') (data360_form access_token)"

lemma keeps_sent [keeps_intros]:
  "keeps (\<lambda>s. pv_sent s = xs) (cancel_check env)"
  "keeps (\<lambda>s. pv_sent s = xs) (CheckStatus status data360_exchange)"
  "keeps (\<lambda>s. pv_sent s = xs) (provider_now env)"
  "keeps (\<lambda>s. pv_sent s = xs) (provider_utc env)"
  by (auto intro!: keepsI simp: cancel_check_def CheckStatus_def provider_now_def provider_utc_def sem_simps
      split: prod.splits if_splits)

lemma SendSanitized_sends:
  "triple (\<lambda>s. pv_sent s = xs) (SendSanitized env request d)
     (\<lambda>_ s. pv_sent s = request # xs) (\<lambda>_ s. pv_sent s = request # xs)"
  by (auto simp: triple_def SendSanitized_def Let_def split: prod.splits sum.splits transport_exn.splits)

lemma salesforce_token_sends:
  "triple (\<lambda>s. pv_sent s = xs) (salesforce_token js env options (''https://'' @ host) client_id material)
     (\<lambda>t s. pv_sent s = code_request options host client_id material # xs \<and>
        ValidDnsOrigin (tr_instance_url t) ''.salesforce.com'')
     (\<lambda>_ s. pv_sent s = code_request options host client_id material # xs)"
  (is "triple ?P _ (\<lambda>t s. ?S s \<and> ?ok t) ?E")
proof -
  have tail: "triple ?S (sthen (CheckStatus (rs_status response) False) (case p of
        Inl _ \<Rightarrow> sthrow TOKEN_EXCHANGE_FAILED
      | Inr t \<Rightarrow> if \<not> ?ok t then sthrow TOKEN_EXCHANGE_FAILED else sret t)) (\<lambda>t s. ?S s \<and> ?ok t) ?E"
    for response and p :: "'x + OAuthTokenResponse"
    by (rule triple_keeps_then) (auto intro: keeps_intros simp: triple_def sem_simps split: sum.splits)
  have "code_request options host client_id material =
      form_request options ((''https://'' @ host) @ ''/services/oauth2/token'') (oauth_form client_id material)"
    by (simp add: code_request_def)
  then have send: "triple ?P (SendSanitized env (form_request options ((''https://'' @ host) @ ''/services/oauth2/token'')
      (oauth_form client_id material)) False) (\<lambda>_. ?S) ?E"
    by (simp only: SendSanitized_sends)
  show ?thesis unfolding salesforce_token_def by (rule triple_bind [OF tail send])
qed

lemma data360_token_sends:
  assumes "tr_instance_url t = ''https://'' @ host"
  shows "triple (\<lambda>s. pv_sent s = xs) (data360_token js env options t)
     (\<lambda>_ s. pv_sent s = subject_request options host (tr_access_token t) # xs)
     (\<lambda>_ s. pv_sent s = subject_request options host (tr_access_token t) # xs)"
  (is "triple ?P _ (\<lambda>_. ?S) ?E")
proof -
  have r: "subject_request options host (tr_access_token t) =
      form_request options (tr_instance_url t @ ''/services/a360/token'') (data360_form (tr_access_token t))"
    by (simp add: subject_request_def assms)
  show ?thesis unfolding data360_token_def r [symmetric]
    by (rule triple_bind [OF keeps_triple SendSanitized_sends]) (intro keeps_intros)
qed

lemma capability_sends: "keeps (\<lambda>s. pv_sent s = xs) (capability env options parsed)"
  unfolding capability_def Let_def by (intro keeps_intros)

text \<open>What an exchange may have sent: nothing, the request to the login host, or both requests.\<close>

definition exchange_sent ::
  "OAuthExchangeOptions \<Rightarrow> byte_string \<Rightarrow> byte_string \<Rightarrow> AuthCompletionMaterial \<Rightarrow> HttpRequest list \<Rightarrow> bool" where
  "exchange_sent options host client_id material new \<longleftrightarrow>
     new = [] \<or> new = [code_request options host client_id material] \<or>
     (\<exists>instance access_token. dns_host_under ''.salesforce.com'' instance \<and>
        new = [subject_request options instance access_token, code_request options host client_id material])"

lemma Exchange_sends:
  assumes "ValidateSalesforceLoginOrigin login_origin = Inr (''https://'' @ host)"
  shows "triple (\<lambda>s. pv_sent s = xs) (Exchange_with js env options login_origin client_id material)
    (\<lambda>_ s. \<exists>instance access_token. dns_host_under ''.salesforce.com'' instance \<and>
       pv_sent s = [subject_request options instance access_token, code_request options host client_id material] @ xs)
    (\<lambda>_ s. \<exists>new. exchange_sent options host client_id material new \<and> pv_sent s = new @ xs)"
  (is "triple ?P _ ?Q ?E")
proof -
  let ?first = "\<lambda>s. pv_sent s = code_request options host client_id material # xs"
  have first: "?E e s" if "?first s" for e s
    using that by (auto simp: exchange_sent_def)
  have rest: "triple ?first (sthen (cancel_check env) (sbind (data360_token js env options t) (capability env options))) ?Q ?E"
    if ok: "ValidDnsOrigin (tr_instance_url t) ''.salesforce.com''" for t
  proof -
    from ok obtain inst where i: "tr_instance_url t = ''https://'' @ inst" "dns_host_under ''.salesforce.com'' inst"
      by (auto simp: ValidDnsOrigin_iff)
    let ?both = "\<lambda>s. pv_sent s = subject_request options inst (tr_access_token t) # code_request options host client_id material # xs"
    have both: "?Q a s \<and> ?E e s" if "?both s" for a e s
      using that i(2) by (auto simp: exchange_sent_def)
    have "triple ?first (sbind (data360_token js env options t) (capability env options)) (\<lambda>_. ?both) (\<lambda>_. ?both)"
      by (rule triple_bind [OF keeps_triple [OF capability_sends] data360_token_sends [OF i(1)]])
    then have "triple ?first (sbind (data360_token js env options t) (capability env options)) ?Q ?E"
      by (rule triple_weaken_post) (use both in blast)+
    then show ?thesis by (rule triple_keeps_then [OF keeps_sent(1)]) (rule first)
  qed
  have step: "triple (\<lambda>s. ?first s \<and> ValidDnsOrigin (tr_instance_url t) ''.salesforce.com'')
      (sthen (cancel_check env) (sbind (data360_token js env options t) (capability env options))) ?Q ?E" for t
    using rest [of t] by (cases "ValidDnsOrigin (tr_instance_url t) ''.salesforce.com''") (auto simp: triple_def)
  have token: "triple ?P (salesforce_token js env options (''https://'' @ host) client_id material)
      (\<lambda>t s. ?first s \<and> ValidDnsOrigin (tr_instance_url t) ''.salesforce.com'') ?E"
    by (rule triple_weaken_post [OF salesforce_token_sends]) (auto simp: exchange_sent_def)
  have none: "?E e s" if "?P s" for e s using that by (auto simp: exchange_sent_def)
  show ?thesis
  proof (cases "client_id_invalid client_id")
    case True
    then show ?thesis by (auto simp: Exchange_with_def assms triple_def sem_simps exchange_sent_def)
  next
    case False
    have "triple ?P (sthen (cancel_check env) (sbind (salesforce_token js env options (''https://'' @ host) client_id material)
        (\<lambda>t. sthen (cancel_check env) (sbind (data360_token js env options t) (capability env options))))) ?Q ?E"
      by (rule triple_keeps_then [OF keeps_sent(1) triple_bind [OF step token]]) (rule none)
    with False show ?thesis unfolding Exchange_with_def assms sum.case by (simp only: if_False)
  qed
qed

section \<open>The capability\<close>

lemma JsonString_bounds: "JsonString js object name maximum = Inr v \<Longrightarrow> v \<noteq> [] \<and> length v \<le> maximum"
  by (auto simp: JsonString_def split: option.splits if_splits)

lemma ParseData360Response_ok:
  assumes "ParseData360Response js body default_ttl = Inr parsed" "0 < default_ttl" "default_ttl \<le> MAX_EXPIRY_SECONDS"
  shows "dr_token parsed \<noteq> [] \<and> length (dr_token parsed) \<le> MAX_TOKEN_BYTES \<and>
    dr_ttl_seconds parsed \<le> MAX_EXPIRY_SECONDS"
  using assms
  by (auto simp: ParseData360Response_def ebind_Inr ttl_member_def not_less dest!: JsonString_bounds
      split: option.splits if_splits)

lemma expiry_ms:
  fixes now seconds :: u64
  assumes "seconds \<le> 0xFFFFFFFFFFFFFFFF div 1000" "now \<le> 0xFFFFFFFFFFFFFFFF - seconds * 1000"
  shows "unat (now + seconds * 1000) = unat now + 1000 * unat seconds"
proof -
  from assms(1) have "unat seconds \<le> 18446744073709551615 div 1000"
    by (simp add: unat_mono_iff unat_div)
  then have m: "unat (seconds * 1000) = 1000 * unat seconds"
    by (simp add: unat_word_ariths)
  have "seconds * 1000 \<le> 0xFFFFFFFFFFFFFFFF"
    using \<open>unat seconds \<le> _\<close> m by (simp add: unat_mono_iff)
  then have "unat (0xFFFFFFFFFFFFFFFF - seconds * 1000) = 18446744073709551615 - unat (seconds * 1000)"
    by (simp add: unat_sub)
  with assms(2) m \<open>unat seconds \<le> _\<close> show ?thesis
    by (simp add: unat_mono_iff unat_word_ariths)
qed

lemma expiry_utc:
  fixes seconds :: u64
  assumes "0 \<le> now" "now < 2 ^ 63" "seconds \<le> of_int (0x7FFFFFFFFFFFFFFF - now) div 1000000"
  shows "now + sint (seconds * 1000000) = now + 1000000 * int (unat seconds)"
    and "now + sint (seconds * 1000000) < 2 ^ 63"
proof -
  have "uint (of_int (0x7FFFFFFFFFFFFFFF - now) :: u64) = 0x7FFFFFFFFFFFFFFF - now"
    using assms(1,2) by (simp add: uint_word_of_int del: of_int_diff)
  then have le: "uint seconds \<le> (0x7FFFFFFFFFFFFFFF - now) div 1000000"
    using assms(3) by (simp add: word_le_def uint_div)
  then have b: "uint seconds * 1000000 \<le> 0x7FFFFFFFFFFFFFFF - now" by linarith
  have u: "uint (seconds * 1000000) = uint seconds * 1000000"
    using b assms(1) by (simp add: uint_word_ariths)
  have "sint (seconds * 1000000) = uint (seconds * 1000000)"
  proof -
    have "0 \<le> uint seconds * 1000000" by simp
    then have "- (2 ^ 63) \<le> uint seconds * 1000000" by (rule order_trans [rotated]) simp
    moreover have "uint seconds * 1000000 < 2 ^ 63" using b assms(1) by simp
    ultimately have "signed_take_bit 63 (uint seconds * 1000000) = uint seconds * 1000000"
      by (rule signed_take_bit_int_eq_self)
    then show ?thesis by (simp add: sint_uint u)
  qed
  with u show "now + sint (seconds * 1000000) = now + 1000000 * int (unat seconds)" by simp
  with b show "now + sint (seconds * 1000000) < 2 ^ 63" by simp
qed

lemma capability_ok:
  assumes run: "capability env options parsed s = (Inr cap, s')"
    and utc: "\<And>w. fst (pe_UtcNowMicros env w) < 2 ^ 63"
  shows "\<exists>now utc w1 w2. fst (pe_NowMs env w1) = now \<and> fst (pe_UtcNowMicros env w2) = utc \<and>
    IsTrustedTenantUrl (dc_tenant_url cap) \<and> dc_access_token cap = dr_token parsed \<and>
    unat (dc_expires_at_monotonic_ms cap) =
      unat now + 1000 * (unat (dr_ttl_seconds parsed) - unat (ox_expiry_skew_seconds options)) \<and>
    dc_expires_at_utc_micros cap =
      utc + 1000000 * (int (unat (dr_ttl_seconds parsed)) - int (unat (ox_expiry_skew_seconds options))) \<and>
    dc_expires_at_utc_micros cap < 2 ^ 63 \<and> ox_expiry_skew_seconds options < dr_ttl_seconds parsed"
proof -
  let ?tenant = "tenant_candidate (dr_tenant_url parsed)"
  let ?seconds = "dr_ttl_seconds parsed - ox_expiry_skew_seconds options"
  obtain now w1 where now: "pe_NowMs env (pv_world s) = (now, w1)" by fastforce
  obtain utc w2 where utcnow: "pe_UtcNowMicros env w1 = (utc, w2)" by fastforce
  have ok: "ValidDnsOrigin ?tenant ''.c360a.salesforce.com''"
    and skew: "ox_expiry_skew_seconds options < dr_ttl_seconds parsed"
    and ms: "?seconds \<le> 0xFFFFFFFFFFFFFFFF div 1000" "now \<le> 0xFFFFFFFFFFFFFFFF - ?seconds * 1000"
    and us: "0 \<le> utc" "?seconds \<le> of_int (0x7FFFFFFFFFFFFFFF - utc) div 1000000"
    and cap: "cap = \<lparr>dc_tenant_url = ?tenant, dc_access_token = dr_token parsed,
        dc_expires_at_monotonic_ms = now + ?seconds * 1000, dc_expires_at_utc_micros = utc + sint (?seconds * 1000000)\<rparr>"
    using run now utcnow
    by (auto simp: capability_def Let_def run_returns provider_now_def provider_utc_def not_less not_le
        split: if_splits simp del: of_int_diff)
  from ok obtain host where "?tenant = ''https://'' @ host" "dns_host_under ''.c360a.salesforce.com'' host"
    by (auto simp: ValidDnsOrigin_iff)
  moreover from this have "last host \<noteq> CHR ''/''"
    using dns_host_no_slash dns_host_under_last last_in_set by metis
  ultimately have trusted: "IsTrustedTenantUrl ?tenant"
    by (simp add: IsTrustedTenantUrl_host del: append_Cons append_Nil)
  have "utc < 2 ^ 63" using utc [of w1] utcnow by simp
  note utc_ok = expiry_utc [OF us(1) this us(2)]
  have diff: "unat ?seconds = unat (dr_ttl_seconds parsed) - unat (ox_expiry_skew_seconds options)"
    using skew by (simp add: unat_sub)
  have "unat (ox_expiry_skew_seconds options) \<le> unat (dr_ttl_seconds parsed)"
    using skew by (simp add: word_less_nat_alt)
  then have "int (unat ?seconds) = int (unat (dr_ttl_seconds parsed)) - int (unat (ox_expiry_skew_seconds options))"
    using diff by linarith
  with trusted cap expiry_ms [OF ms] utc_ok diff skew now utcnow show ?thesis
    by (intro exI [of _ now] exI [of _ utc] exI [of _ "pv_world s"] exI [of _ w1]) (simp only: fst_conv Data360Capability.simps)
qed

end
