(* ===== verification/Exchange_Properties.thy ===== *)
theory Exchange_Properties
  imports OAuth_Exchange
begin

text \<open>The properties of the OAuth exchange, with witnesses on a scripted provider.\<close>

section \<open>A scripted provider\<close>

text \<open>The world is the list of responses to come; the clocks stand still.\<close>

definition demo_provider_env :: "HttpResponse list ProviderEnv" where
  "demo_provider_env =
     \<lparr>pe_Send = (\<lambda>rq w. case w of [] \<Rightarrow> (Inl TransportOther, w) | r # rs \<Rightarrow> (Inr r, rs)),
      pe_IsCancelled = (\<lambda>w. (False, w)), pe_NowMs = (\<lambda>w. (5000, w)), pe_UtcNowMicros = (\<lambda>w. (7, w))\<rparr>"

definition demo_tokens :: "json Yyjson" where
  "demo_tokens = json_tree
     [(''one'', JObj [(''access_token'', JStr ''sf''), (''instance_url'', JStr ''https://a.my.salesforce.com'')]),
      (''two'', JObj [(''access_token'', JStr ''d360''), (''instance_url'', JStr ''t.c360a.salesforce.com''),
                      (''token_type'', JStr ''Bearer''), (''expires_in'', JUint 90)])]"

definition demo_code :: AuthCompletionMaterial where
  "demo_code = \<lparr>cm_authorization_code = ''code'', cm_pkce_verifier = ''verifier'',
     cm_login_origin = ''https://login.salesforce.com/'', cm_client_id = ''client'', cm_secret_name = ''secret''\<rparr>"

definition demo_provider :: "HttpResponse list Provider" where
  "demo_provider = \<lparr>pv_world = [\<lparr>rs_status = 200, rs_body = ''one'', rs_headers = []\<rparr>,
     \<lparr>rs_status = 200, rs_body = ''two'', rs_headers = []\<rparr>], pv_sent = []\<rparr>"

definition demo_capability :: Data360Capability where
  "demo_capability = \<lparr>dc_tenant_url = ''https://t.c360a.salesforce.com'', dc_access_token = ''d360'',
     dc_expires_at_monotonic_ms = 65000, dc_expires_at_utc_micros = 60000007\<rparr>"

abbreviation demo_exchange :: "(AuthFault + Data360Capability) \<times> HttpResponse list Provider" where
  "demo_exchange \<equiv> Exchange demo_tokens demo_provider_env default_OAuthExchangeOptions demo_code demo_provider"

definition demo_sf :: OAuthTokenResponse where
  "demo_sf = \<lparr>tr_access_token = ''sf'', tr_instance_url = ''https://a.my.salesforce.com'', tr_expires_in_seconds = 0\<rparr>"

definition demo_first :: HttpRequest where
  "demo_first = code_request default_OAuthExchangeOptions ''login.salesforce.com'' ''client'' demo_code"

definition demo_second :: HttpRequest where
  "demo_second = subject_request default_OAuthExchangeOptions ''a.my.salesforce.com'' ''sf''"

definition demo_parsed :: Data360Response where
  "demo_parsed = \<lparr>dr_token = ''d360'', dr_tenant_url = ''t.c360a.salesforce.com'', dr_ttl_seconds = 90\<rparr>"

text \<open>The exchange, evaluated step by step.\<close>

lemma demo_parses:
  "ParseOAuthTokenResponse demo_tokens ''one'' = Inr demo_sf"
  "ParseData360Response demo_tokens ''two'' 900 = Inr demo_parsed"
  by (simp_all add: ParseOAuthTokenResponse_def ParseData360Response_def demo_tokens_def BoundedJsonString_def
      JsonString_def token_lifetime_def ttl_member_def demo_sf_def demo_parsed_def MAX_JSON_BYTES_def MAX_TOKEN_BYTES_def
      MAX_URL_BYTES_def MAX_EXPIRY_SECONDS_def)

lemma demo_sends:
  "pv_world s = r # rs \<Longrightarrow>
     SendSanitized demo_provider_env rq d s = (Inr r, s\<lparr>pv_world := rs, pv_sent := rq # pv_sent s\<rparr>)"
  by (simp add: SendSanitized_def demo_provider_env_def)

lemma demo_not_cancelled: "cancel_check demo_provider_env s = (Inr (), s)"
  by (simp add: cancel_check_def demo_provider_env_def)

lemma demo_steps:
  "ValidateSalesforceLoginOrigin (cm_login_origin demo_code) = Inr ''https://login.salesforce.com''"
  "cm_client_id demo_code = ''client''" "\<not> client_id_invalid ''client''"
  "ValidDnsOrigin (tr_instance_url demo_sf) ''.salesforce.com''"
  "capability demo_provider_env default_OAuthExchangeOptions demo_parsed \<lparr>pv_world = [], pv_sent = [demo_second, demo_first]\<rparr> =
     (Inr demo_capability, \<lparr>pv_world = [], pv_sent = [demo_second, demo_first]\<rparr>)"
  by code_simp+

lemma demo_tokens_received:
  "salesforce_token demo_tokens demo_provider_env default_OAuthExchangeOptions ''https://login.salesforce.com''
     ''client'' demo_code demo_provider =
     (Inr demo_sf, \<lparr>pv_world = tl (pv_world demo_provider), pv_sent = [demo_first]\<rparr>)"
  "data360_token demo_tokens demo_provider_env default_OAuthExchangeOptions demo_sf
     \<lparr>pv_world = tl (pv_world demo_provider), pv_sent = [demo_first]\<rparr> =
     (Inr demo_parsed, \<lparr>pv_world = [], pv_sent = [demo_second, demo_first]\<rparr>)"
  by (simp_all add: salesforce_token_def data360_token_def demo_provider_def demo_sends demo_parses demo_steps(4)
      demo_not_cancelled sem_simps sthen_def CheckStatus_def demo_first_def demo_second_def code_request_def
      subject_request_def default_OAuthExchangeOptions_def)
    (simp_all add: demo_sf_def)

lemma demo_exchange_returns:
  "demo_exchange = (Inr demo_capability, \<lparr>pv_world = [], pv_sent = [demo_second, demo_first]\<rparr>)"
  unfolding Exchange_def Exchange_with_def demo_steps(1) sum.case
  by (simp only: demo_steps demo_tokens_received demo_not_cancelled if_False sthen_def sbind_run)

section \<open>Where the code and the tokens go\<close>

text \<open>
  C39. Whatever the servers answer, an exchange sends at most two requests, both \<open>POST\<close> without
  redirects: the authorization code and the verifier go only to the Salesforce login host the session
  was opened for, and the Salesforce token only to a well-formed host below \<open>.salesforce.com\<close>. The
  fields of the code request cannot be changed by their values: it splits into exactly its five fields.
\<close>
theorem exchange_confined:
  assumes "Exchange js env options material s = (out, s')"
  shows "\<exists>host new. pv_sent s' = new @ pv_sent s \<and>
     (new \<noteq> [] \<longrightarrow> login_host host \<and>
        (cm_login_origin material = ''https://'' @ host \<or> cm_login_origin material = ''https://'' @ host @ ''/'')) \<and>
     exchange_sent options host (cm_client_id material) material new \<and>
     list_all (\<lambda>rq. rq_method rq = ''POST'' \<and> \<not> rq_follow_redirects rq) new \<and>
     split_on CHR ''&'' (oauth_form (cm_client_id material) material) =
       [''grant_type=authorization_code'', ''client_id='' @ PercentEncode (cm_client_id material),
        ''redirect_uri='' @ PercentEncode FixedOAuthCallbackUrl,
        ''code='' @ PercentEncode (cm_authorization_code material),
        ''code_verifier='' @ PercentEncode (cm_pkce_verifier material)]"
proof -
  have post: "list_all (\<lambda>rq. rq_method rq = ''POST'' \<and> \<not> rq_follow_redirects rq) new"
    if "exchange_sent options host client_id material new" for host client_id new
    using that by (auto simp: exchange_sent_def code_request_def subject_request_def form_request_def default_HttpRequest_def)
  show ?thesis
  proof (cases "ValidateSalesforceLoginOrigin (cm_login_origin material)")
    case (Inl e)
    with assms have "s' = s" by (simp add: Exchange_def Exchange_with_def sem_simps)
    then show ?thesis by (intro exI [of _ "[]"] exI [of _ "[]"]) (simp add: exchange_sent_def oauth_form_fields)
  next
    case (Inr r)
    then obtain host where host: "login_host host" and r: "r = ''https://'' @ host"
      and o: "cm_login_origin material = ''https://'' @ host \<or> cm_login_origin material = ''https://'' @ host @ ''/''"
      by (auto simp: ValidateSalesforceLoginOrigin_iff)
    have "triple (\<lambda>x. pv_sent x = pv_sent s) (Exchange js env options material)
        (\<lambda>_ x. \<exists>new. exchange_sent options host (cm_client_id material) material new \<and> pv_sent x = new @ pv_sent s)
        (\<lambda>_ x. \<exists>new. exchange_sent options host (cm_client_id material) material new \<and> pv_sent x = new @ pv_sent s)"
      unfolding Exchange_def
      by (rule triple_weaken_post [OF Exchange_sends [OF Inr [unfolded r]]]) (force simp: exchange_sent_def)+
    from triple_both [OF this refl assms] obtain new
      where "exchange_sent options host (cm_client_id material) material new" "pv_sent s' = new @ pv_sent s" by blast
    with host o post show ?thesis
      by (intro exI [of _ host] exI [of _ new]) (simp add: oauth_form_fields)
  qed
qed

theorem exchange_confined_witness:
  "list_all (\<lambda>rq. rq_method rq = ''POST'') (pv_sent (snd demo_exchange)) \<and> length (pv_sent (snd demo_exchange)) = 2"
proof -
  from exchange_confined [OF surjective_pairing, of demo_tokens demo_provider_env default_OAuthExchangeOptions demo_code demo_provider]
  have "list_all (\<lambda>rq. rq_method rq = ''POST'') (pv_sent (snd demo_exchange))"
    by (auto simp: list_all_iff demo_provider_def)
  moreover have "length (pv_sent (snd demo_exchange)) = 2" by (simp add: demo_exchange_returns)
  ultimately show ?thesis ..
qed

section \<open>What an exchange returns\<close>

lemma Exchange_returns:
  assumes "Exchange js env options material s = (Inr cap, s')"
  obtains body parsed s1 where "ParseData360Response js body (ox_default_ttl_seconds options) = Inr parsed"
    "capability env options parsed s1 = (Inr cap, s')"
proof -
  obtain origin where o: "ValidateSalesforceLoginOrigin (cm_login_origin material) = Inr origin"
    using assms by (auto simp: Exchange_def Exchange_with_def sem_simps split: sum.splits)
  have c: "\<not> client_id_invalid (cm_client_id material)"
    using assms o by (auto simp: Exchange_def Exchange_with_def sem_simps)
  from assms o c obtain salesforce s1 parsed s2 where
    p: "data360_token js env options salesforce s1 = (Inr parsed, s2)" and cap: "capability env options parsed s2 = (Inr cap, s')"
    by (auto simp: Exchange_def Exchange_with_def run_returns)
  have "\<exists>body. ParseData360Response js body (ox_default_ttl_seconds options) = Inr parsed"
  proof (rule ccontr)
    assume "\<nexists>body. ParseData360Response js body (ox_default_ttl_seconds options) = Inr parsed"
    then have "(case ParseData360Response js body (ox_default_ttl_seconds options) of
        Inl fault \<Rightarrow> sthrow fault | Inr r \<Rightarrow> sret r) x \<noteq> (Inr parsed, s2)" for body x
      by (auto simp: sem_simps split: sum.split)
    with p show False by (auto simp: data360_token_def sthen_def sbind_returns)
  qed
  with cap that show thesis by blast
qed

text \<open>
  C40. The capability an exchange returns is one the query client accepts: its URL passes the tenant
  check and its token is not empty. It expires, on both clocks, the lifetime less the skew after the
  moment it was built; neither sum wraps, and the lifetime is at most a year.
\<close>
theorem exchange_capability:
  assumes "SalesforceOAuthProvider options = Inr options" "Exchange js env options material s = (Inr cap, s')"
    and "\<And>w. fst (pe_UtcNowMicros env w) < 2 ^ 63"
  shows "IsTrustedTenantUrl (dc_tenant_url cap) \<and> dc_access_token cap \<noteq> [] \<and> length (dc_access_token cap) \<le> 16384 \<and>
    (\<exists>ttl w1 w2. unat (ox_expiry_skew_seconds options) < ttl \<and> ttl \<le> 31536000 \<and>
       unat (dc_expires_at_monotonic_ms cap) =
         unat (fst (pe_NowMs env w1)) + 1000 * (ttl - unat (ox_expiry_skew_seconds options)) \<and>
       dc_expires_at_utc_micros cap =
         fst (pe_UtcNowMicros env w2) + 1000000 * (int ttl - int (unat (ox_expiry_skew_seconds options))) \<and>
       dc_expires_at_utc_micros cap < 2 ^ 63)"
proof -
  obtain body parsed s1 where p: "ParseData360Response js body (ox_default_ttl_seconds options) = Inr parsed"
    and c: "capability env options parsed s1 = (Inr cap, s')"
    using Exchange_returns [OF assms(2)] by blast
  have "0 < ox_default_ttl_seconds options" "ox_default_ttl_seconds options \<le> MAX_EXPIRY_SECONDS"
    using assms(1) by (auto simp: SalesforceOAuthProvider_def not_less word_neq_0_conv split: if_splits)
  note parsed = ParseData360Response_ok [OF p this]
  then have "unat (dr_ttl_seconds parsed) \<le> 31536000"
    by (simp add: MAX_EXPIRY_SECONDS_def word_le_nat_alt)
  moreover obtain w1 w2 where
    "IsTrustedTenantUrl (dc_tenant_url cap)" "dc_access_token cap = dr_token parsed"
    "unat (dc_expires_at_monotonic_ms cap) =
      unat (fst (pe_NowMs env w1)) + 1000 * (unat (dr_ttl_seconds parsed) - unat (ox_expiry_skew_seconds options))"
    "dc_expires_at_utc_micros cap =
      fst (pe_UtcNowMicros env w2) + 1000000 * (int (unat (dr_ttl_seconds parsed)) - int (unat (ox_expiry_skew_seconds options)))"
    "dc_expires_at_utc_micros cap < 2 ^ 63" "ox_expiry_skew_seconds options < dr_ttl_seconds parsed"
    using capability_ok [OF c assms(3)] by blast
  ultimately show ?thesis
    using parsed unfolding MAX_TOKEN_BYTES_def word_less_nat_alt by (intro conjI exI) (assumption | simp)+
qed

theorem exchange_capability_witness:
  "IsTrustedTenantUrl (dc_tenant_url demo_capability) \<and> dc_access_token demo_capability \<noteq> []"
proof -
  have opts: "SalesforceOAuthProvider default_OAuthExchangeOptions = Inr default_OAuthExchangeOptions" by code_simp
  have "fst (pe_UtcNowMicros demo_provider_env w) < 2 ^ 63" for w by (simp add: demo_provider_env_def)
  from exchange_capability [OF opts demo_exchange_returns this] show ?thesis by blast
qed

end
