(* ===== verification/Session_Credentials.thy ===== *)
theory Session_Credentials
  imports OAuth_Provider Auth_History
begin

text \<open>
  \<open>session_credentials.cpp\<close>: the installation of a credential as a temporary secret of DuckDB. The
  catalog and its transactions are DuckDB's, and so part of the environment; what was registered,
  committed and rolled back is recorded. The state is shared by the SQL functions of
  \<open>auth_functions.cpp\<close>.
\<close>

section \<open>The secret\<close>

record SessionData360Secret =
  ss_scope :: "byte_string list"
  ss_type :: byte_string
  ss_provider :: byte_string
  ss_name :: byte_string
  ss_serializable :: bool
  ss_secret_map :: "(byte_string \<times> byte_string) list"
  ss_redact_keys :: "byte_string list"

definition make_SessionData360Secret ::
  "byte_string list \<Rightarrow> byte_string \<Rightarrow> byte_string \<Rightarrow> SessionData360Secret" where
  "make_SessionData360Secret scope name session_id =
     \<lparr>ss_scope = scope, ss_type = ''data360'', ss_provider = ''oauth_pkce'', ss_name = name, ss_serializable = False,
      ss_secret_map = [(''session_id'', session_id)], ss_redact_keys = [''session_id'']\<rparr>"

definition Clone :: "SessionData360Secret \<Rightarrow> SessionData360Secret" where
  "Clone other = other\<lparr>ss_serializable := False\<rparr>"

section \<open>State and environment\<close>

datatype catalog_event = SecretRegistered byte_string byte_string | CatalogCommitted | CatalogRolledBack

record 'w AuthState =
  au_registry :: "'w Registry"
  au_sent :: "HttpRequest list"
  au_catalog :: "catalog_event list"

text \<open>
  A secret as the catalog returns it; \<open>ks_session_id\<close> is \<open>None\<close> where it is no key-value secret or the
  member is missing or null.
\<close>

record CatalogSecret =
  ks_type :: byte_string
  ks_provider :: byte_string
  ks_session_id :: "byte_string option"

text \<open>
  The host of the functions: DuckDB, the operating system and the other threads of the process.
  \<open>False\<close> and \<open>None\<close> are a call that throws. \<open>ah_others\<close> are the registry calls other threads get in
  before the next registry call of this one.
\<close>

record 'w AuthHost =
  ah_auth :: "'w AuthEnv"
  ah_others :: "'w \<Rightarrow> RegistryCall list \<times> 'w"
  ah_IsInterrupted :: "'w \<Rightarrow> bool \<times> 'w"
  ah_UtcMicros :: "'w \<Rightarrow> int \<times> 'w"
  ah_Send :: "HttpRequest \<Rightarrow> 'w \<Rightarrow> (transport_exn + HttpResponse) \<times> 'w"
  ah_Connect :: "'w \<Rightarrow> bool \<times> 'w"
  ah_BeginTransaction :: "'w \<Rightarrow> bool \<times> 'w"
  ah_GetSecretByName :: "byte_string \<Rightarrow> 'w \<Rightarrow> CatalogSecret option option \<times> 'w"
  ah_RegisterSecret :: "SessionData360Secret \<Rightarrow> 'w \<Rightarrow> bool \<times> 'w"
  ah_Commit :: "'w \<Rightarrow> bool \<times> 'w"
  ah_Rollback :: "'w \<Rightarrow> bool \<times> 'w"
  ah_OpenListener :: "'w \<Rightarrow> owner option \<times> 'w"
  ah_StartWorker :: "owner \<Rightarrow> byte_string \<Rightarrow> 'w \<Rightarrow> bool \<times> 'w"

datatype host_exn =
    FaultException AuthFault
  | InterruptException
  | InvalidInputException byte_string
  | BinderException byte_string
  | OtherException

section \<open>Calls\<close>

definition ask :: "('w \<Rightarrow> 'a \<times> 'w) \<Rightarrow> ('w AuthState, host_exn, 'a) sem" where
  "ask f s =
     (case f (rg_world (au_registry s)) of
        (a, w) \<Rightarrow> (Inr a, s\<lparr>au_registry := (au_registry s)\<lparr>rg_world := w\<rparr>\<rparr>))"

definition require :: "('w \<Rightarrow> bool \<times> 'w) \<Rightarrow> ('w AuthState, host_exn, unit) sem" where
  "require f = sbind (ask f) (\<lambda>ok. if ok then sret () else sthrow OtherException)"

fun host_exn_of :: "auth_exn \<Rightarrow> host_exn" where
  "host_exn_of (AuthSessionError fault) = FaultException fault"
| "host_exn_of (RandomError e) = OtherException"

definition meanwhile :: "'w AuthHost \<Rightarrow> ('w AuthState, host_exn, unit) sem" where
  "meanwhile host =
     sbind (ask (ah_others host)) (\<lambda>calls.
       smodify (au_registry_update (fold (\<lambda>c r. snd (registry_call (ah_auth host) c r)) calls)))"

definition lift_registry :: "('w Registry, auth_exn, 'a) sem \<Rightarrow> ('w AuthState, host_exn, 'a) sem" where
  "lift_registry m s =
     (case m (au_registry s) of
        (Inl e, r) \<Rightarrow> (Inl (host_exn_of e), s\<lparr>au_registry := r\<rparr>)
      | (Inr a, r) \<Rightarrow> (Inr a, s\<lparr>au_registry := r\<rparr>))"

text \<open>A call of the registry: other threads may have been there first.\<close>

definition on_registry :: "'w AuthHost \<Rightarrow> ('w Registry, auth_exn, 'a) sem \<Rightarrow> ('w AuthState, host_exn, 'a) sem" where
  "on_registry host m = sthen (meanwhile host) (lift_registry m)"

abbreviation log_catalog :: "catalog_event \<Rightarrow> ('w AuthState, host_exn, unit) sem" where
  "log_catalog e \<equiv> smodify (au_catalog_update (\<lambda>es. e # es))"

section \<open>InstallTemporarySessionSecret\<close>

definition old_credential :: "CatalogSecret option \<Rightarrow> byte_string" where
  "old_credential existing =
     (case existing of
        None \<Rightarrow> []
      | Some secret \<Rightarrow>
          if ks_type secret = ''data360'' \<and> ks_provider secret = ''oauth_pkce''
          then (case ks_session_id secret of None \<Rightarrow> [] | Some old \<Rightarrow> old) else [])"

definition find_old :: "'w AuthHost \<Rightarrow> byte_string \<Rightarrow> ('w AuthState, host_exn, byte_string) sem" where
  "find_old host secret_name =
     sthen (require (ah_BeginTransaction host))
     (sbind (ask (ah_GetSecretByName host secret_name)) (\<lambda>found.
        case found of None \<Rightarrow> sthrow OtherException | Some existing \<Rightarrow> sret (old_credential existing)))"

definition replace_secret :: "'w AuthHost \<Rightarrow> byte_string \<Rightarrow> byte_string \<Rightarrow> ('w AuthState, host_exn, unit) sem" where
  "replace_secret host secret_name credential_id =
     sthen (require (ah_RegisterSecret host (make_SessionData360Secret [[]] secret_name credential_id)))
     (sthen (log_catalog (SecretRegistered secret_name credential_id))
     (sthen (require (ah_Commit host)) (log_catalog CatalogCommitted)))"

definition install_failed ::
  "'w AuthHost \<Rightarrow> byte_string \<Rightarrow> byte_string \<Rightarrow> host_exn \<Rightarrow> ('w AuthState, host_exn, unit) sem" where
  "install_failed host credential_id old_credential_id e =
     sbind (ask (ah_Rollback host)) (\<lambda>ok.
     sthen (swhen ok (log_catalog CatalogRolledBack))
     (sthen (swhen (credential_id \<noteq> old_credential_id) (on_registry host (RemoveCredential credential_id)))
       (sthrow e)))"

text \<open>
  Whatever the \<open>try\<close> block had found of the old credential when it threw is known to the handler:
  nothing before the look-up has returned.
\<close>

definition InstallTemporarySessionSecret ::
  "'w AuthHost \<Rightarrow> byte_string \<Rightarrow> byte_string \<Rightarrow> ('w AuthState, host_exn, unit) sem" where
  "InstallTemporarySessionSecret host secret_name credential_id =
     sthen (require (ah_Connect host))
     (sattempt (find_old host secret_name) (install_failed host credential_id []) (\<lambda>old_credential_id.
      sattempt (replace_secret host secret_name credential_id) (install_failed host credential_id old_credential_id) (\<lambda>_.
        swhen (old_credential_id \<noteq> [] \<and> old_credential_id \<noteq> credential_id)
          (on_registry host (RemoveCredential old_credential_id)))))"

definition Serialize :: "SessionData360Secret \<Rightarrow> host_exn + byte_string" where
  "Serialize secret = Inl (InvalidInputException (FormatSafeFault PERSISTENCE_FORBIDDEN))"

definition CreateOAuthPkceSecret :: "bool \<Rightarrow> host_exn + unit" where
  "CreateOAuthPkceSecret persistent =
     (if persistent then Inl (InvalidInputException (FormatSafeFault PERSISTENCE_FORBIDDEN))
      else Inl (InvalidInputException ''Data 360 OAuth secrets are created by data360_auth_complete''))"

end
