(* ===== verification/Auth_Functions.thy ===== *)
theory Auth_Functions
  imports Session_Credentials Type_Mapping
begin

text \<open>
  \<open>auth_functions.cpp\<close>: the SQL functions that start, observe, complete and cancel an authorization,
  and the handling of the callback. A row DuckDB is given is a record; an empty text becomes a null
  value.
\<close>

section \<open>Arguments and rows\<close>

definition ValidateAuthClientId :: "byte_string \<Rightarrow> AuthFault + unit" where
  "ValidateAuthClientId value =
     (if value = [] \<or> 512 < length value then Inl INVALID_CLIENT_ID
      else if \<exists>c \<in> set value. \<not> (isalnum c \<or> c = CHR ''.'' \<or> c = CHR ''_'' \<or> c = CHR ''-'') then Inl INVALID_CLIENT_ID
      else Inr ())"

definition ValidateAuthSecretName :: "byte_string \<Rightarrow> AuthFault + unit" where
  "ValidateAuthSecretName value =
     (if value = [] \<or> 128 < length value \<or> \<not> (isalpha (hd value) \<or> hd value = CHR ''_'') then Inl SECRET_NAME_INVALID
      else if \<exists>c \<in> set value. \<not> (isalnum c \<or> c = CHR ''_'') then Inl SECRET_NAME_INVALID
      else Inr ())"

record AuthStatusRow =
  ar_auth_id :: byte_string
  ar_status :: byte_string
  ar_expires_at_utc_micros :: int
  ar_error_code :: byte_string
  ar_message :: byte_string

definition ProjectAuthStatus :: "byte_string \<Rightarrow> AuthSessionSnapshot \<Rightarrow> AuthStatusRow" where
  "ProjectAuthStatus auth_id snapshot =
     (let row = \<lparr>ar_auth_id = auth_id, ar_status = AuthStatusName (sn_status snapshot),
                 ar_expires_at_utc_micros = sn_expires_at_utc_micros snapshot, ar_error_code = [], ar_message = []\<rparr>
      in case sn_fault snapshot of
           None \<Rightarrow> row
         | Some fault \<Rightarrow> row\<lparr>ar_error_code := sf_code (GetSafeFault fault), ar_message := sf_message (GetSafeFault fault)\<rparr>)"

definition RequiredString :: "byte_string option list \<Rightarrow> nat \<Rightarrow> host_exn + byte_string" where
  "RequiredString inputs index =
     (case inputs ! index of
        None \<Rightarrow> Inl (BinderException ''Data 360 auth arguments must not be NULL'')
      | Some text \<Rightarrow> Inr text)"

record AuthStartBindData =
  ab_login_origin :: byte_string
  ab_client_id :: byte_string
  ab_secret_name :: byte_string

text \<open>Binding gives the data for the execution and the columns of the result.\<close>

type_synonym columns = "(byte_string \<times> LogicalType) list"

definition AuthStartBind :: "byte_string option list \<Rightarrow> host_exn + AuthStartBindData \<times> columns" where
  "AuthStartBind inputs =
     ebind (RequiredString inputs 0) (\<lambda>login_origin.
     ebind (RequiredString inputs 1) (\<lambda>client_id.
     ebind (RequiredString inputs 2) (\<lambda>secret_name.
       Inr (\<lparr>ab_login_origin = login_origin, ab_client_id = client_id, ab_secret_name = secret_name\<rparr>,
            [(''auth_id'', VARCHAR), (''authorization_url'', VARCHAR), (''expires_at'', TIMESTAMP_TZ),
             (''callback_url'', VARCHAR), (''status'', VARCHAR)]))))"

definition AuthIdBind :: "byte_string option list \<Rightarrow> host_exn + byte_string \<times> columns" where
  "AuthIdBind inputs =
     ebind (RequiredString inputs 0) (\<lambda>auth_id.
       Inr (auth_id, [(''auth_id'', VARCHAR), (''status'', VARCHAR), (''expires_at'', TIMESTAMP_TZ),
                      (''error_code'', VARCHAR), (''message'', VARCHAR)]))"

definition AuthCompleteBind :: "byte_string option list \<Rightarrow> host_exn + byte_string \<times> columns" where
  "AuthCompleteBind inputs =
     ebind (RequiredString inputs 0) (\<lambda>auth_id.
       Inr (auth_id, [(''status'', VARCHAR), (''secret_name'', VARCHAR), (''expires_at'', TIMESTAMP_TZ),
                      (''error_code'', VARCHAR), (''message'', VARCHAR)]))"

definition DiagnosticsBind :: columns where
  "DiagnosticsBind =
     [(''fault_protocol_version'', UINTEGER), (''providers'', VARCHAR), (''callback_supported'', BOOLEAN),
      (''active_session_count'', UBIGINT), (''temporary_oauth_credential_count'', UBIGINT)]"

definition null_if_empty :: "byte_string \<Rightarrow> byte_string option" where
  "null_if_empty text = (if text = [] then None else Some text)"

record EmittedStatus =
  es_auth_id :: byte_string
  es_status :: byte_string
  es_expires_at :: int
  es_error_code :: "byte_string option"
  es_message :: "byte_string option"

definition EmitStatus :: "AuthStatusRow \<Rightarrow> EmittedStatus" where
  "EmitStatus row =
     \<lparr>es_auth_id = ar_auth_id row, es_status = ar_status row, es_expires_at = ar_expires_at_utc_micros row,
      es_error_code = null_if_empty (ar_error_code row), es_message = null_if_empty (ar_message row)\<rparr>"

text \<open>Every table function here yields one row and then none: the flag \<open>emitted\<close> with the state.\<close>

definition one_row :: "('s, 'e, 'a) sem \<Rightarrow> (bool \<times> 's, 'e, 'a option) sem" where
  "one_row m st =
     (if fst st then (Inr None, st)
      else case m (snd st) of
             (Inl e, s') \<Rightarrow> (Inl e, (True, s'))
           | (Inr a, s') \<Rightarrow> (Inr (Some a), (True, s')))"

section \<open>Starting an authorization\<close>

definition AUTH_TTL_MS :: u64 where
  "AUTH_TTL_MS = 10 * 60 * 1000"

record AuthStartRow =
  sr_auth_id :: byte_string
  sr_authorization_url :: byte_string
  sr_expires_at :: int
  sr_callback_url :: byte_string
  sr_status :: byte_string

definition draw ::
  "('w RandomSource \<Rightarrow> 'w \<Rightarrow> (oauth_exn + byte_string) \<times> 'w) \<Rightarrow> 'w AuthHost \<Rightarrow> ('w AuthState, host_exn, byte_string) sem" where
  "draw generate host =
     sbind (ask (generate (ae_random (ah_auth host)))) (\<lambda>r.
       case r of Inl e \<Rightarrow> sthrow OtherException | Inr v \<Rightarrow> sret v)"

definition throwing :: "('e \<Rightarrow> host_exn) \<Rightarrow> 'e + 'a \<Rightarrow> ('w AuthState, host_exn, 'a) sem" where
  "throwing f r = (case r of Inl e \<Rightarrow> sthrow (f e) | Inr a \<Rightarrow> sret a)"

text \<open>The destructor of the callback owner, when the last reference to it goes away.\<close>

definition drop_owner :: "owner \<Rightarrow> ('w AuthState, host_exn, unit) sem" where
  "drop_owner ow = lift_registry (stop_owner (Some ow))"

definition start_request ::
  "byte_string \<Rightarrow> AuthStartBindData \<Rightarrow> byte_string \<Rightarrow> byte_string \<Rightarrow> u64 \<Rightarrow> int \<Rightarrow> owner \<Rightarrow> AuthStartRequest" where
  "start_request origin bind oauth_state verifier expires_ms expires_utc ow =
     \<lparr>as_login_origin = origin, as_client_id = ab_client_id bind, as_secret_name = ab_secret_name bind,
      as_expected_state = oauth_state, as_pkce_verifier = verifier, as_expires_at_monotonic_ms = expires_ms,
      as_expires_at_utc_micros = expires_utc, as_callback_owner = Some ow\<rparr>"

text \<open>From the random values to the registered session.\<close>

definition register_start ::
  "(byte_string \<Rightarrow> u8 list option) \<Rightarrow> 'w AuthHost \<Rightarrow> byte_string \<Rightarrow> AuthStartBindData \<Rightarrow> owner \<Rightarrow>
     ('w AuthState, host_exn, byte_string \<times> byte_string \<times> byte_string \<times> int) sem" where
  "register_start sha256 host origin bind ow =
     sbind (draw GeneratePkceVerifier host) (\<lambda>verifier.
     sbind (draw GenerateOAuthState host) (\<lambda>oauth_state.
     sbind (throwing (\<lambda>_. OtherException) (CreateS256Challenge sha256 verifier)) (\<lambda>challenge.
     sbind (ask (ae_NowMs (ah_auth host))) (\<lambda>now.
     sbind (ask (ah_UtcMicros host)) (\<lambda>utc.
       let expires_utc = utc + sint (AUTH_TTL_MS * 1000)
       in sbind (on_registry host (Create (ah_auth host)
                   (start_request origin bind oauth_state verifier (now + AUTH_TTL_MS) expires_utc ow))) (\<lambda>auth_id.
            sret (auth_id, challenge, oauth_state, expires_utc)))))))"

definition start_worker :: "'w AuthHost \<Rightarrow> owner \<Rightarrow> byte_string \<Rightarrow> ('w AuthState, host_exn, unit) sem" where
  "start_worker host ow auth_id =
     scatch (require (ah_StartWorker host ow auth_id)) (\<lambda>e.
       sattempt (on_registry host (CancelSession auth_id)) (\<lambda>e'. sthen (drop_owner ow) (sthrow e'))
         (\<lambda>_. sthen (drop_owner ow) (sthrow e)))"

definition AuthStartExecute ::
  "(byte_string \<Rightarrow> u8 list option) \<Rightarrow> 'w AuthHost \<Rightarrow> AuthStartBindData \<Rightarrow> ('w AuthState, host_exn, AuthStartRow) sem" where
  "AuthStartExecute sha256 host bind =
     sbind (throwing (\<lambda>_. InvalidInputException (FormatSafeFault INVALID_LOGIN_ORIGIN))
              (ValidateSalesforceLoginOrigin (ab_login_origin bind))) (\<lambda>origin.
     sthen (throwing FaultException (ValidateAuthClientId (ab_client_id bind)))
     (sthen (throwing FaultException (ValidateAuthSecretName (ab_secret_name bind)))
     (sbind (ask (ah_OpenListener host)) (\<lambda>opened.
       case opened of
         None \<Rightarrow> sthrow (InvalidInputException (FormatSafeFault CALLBACK_PORT_UNAVAILABLE))
       | Some ow \<Rightarrow>
           sattempt (register_start sha256 host origin bind ow) (\<lambda>e. sthen (drop_owner ow) (sthrow e))
             (\<lambda>(auth_id, challenge, oauth_state, expires_utc).
               sthen (start_worker host ow auth_id)
               (sbind (throwing (\<lambda>_. OtherException)
                         (BuildSalesforceAuthorizationUrl origin (ab_client_id bind) challenge oauth_state FixedOAuthCallbackUrl))
                 (\<lambda>url. sret \<lparr>sr_auth_id = auth_id, sr_authorization_url = url, sr_expires_at = expires_utc,
                               sr_callback_url = FixedOAuthCallbackUrl, sr_status = ''PENDING_USER_ACTION''\<rparr>)))))))"

section \<open>Observing and cancelling\<close>

definition AuthStatusExecute :: "'w AuthHost \<Rightarrow> byte_string \<Rightarrow> ('w AuthState, host_exn, EmittedStatus) sem" where
  "AuthStatusExecute host auth_id =
     sbind (on_registry host (Snapshot (ah_auth host) auth_id)) (\<lambda>snapshot.
       sret (EmitStatus (ProjectAuthStatus auth_id snapshot)))"

definition AuthCancel :: "'w AuthHost \<Rightarrow> byte_string \<Rightarrow> ('w AuthState, host_exn, bool) sem" where
  "AuthCancel host auth_id = sthen (on_registry host (CancelSession auth_id)) (sret True)"

record DiagnosticsRow =
  dg_fault_protocol_version :: u32
  dg_providers :: byte_string
  dg_callback_supported :: bool
  dg_active_session_count :: nat
  dg_temporary_oauth_credential_count :: nat

definition DiagnosticsExecute :: "'w AuthHost \<Rightarrow> ('w AuthState, host_exn, DiagnosticsRow) sem" where
  "DiagnosticsExecute host =
     sbind (on_registry host (sgets SessionCount)) (\<lambda>sessions.
     sbind (on_registry host (sgets CredentialCount)) (\<lambda>credentials.
       sret \<lparr>dg_fault_protocol_version = AuthFaultProtocolVersion, dg_providers = ''oauth_pkce'',
             dg_callback_supported = True, dg_active_session_count = sessions,
             dg_temporary_oauth_credential_count = credentials\<rparr>))"

section \<open>Completing an authorization\<close>

text \<open>\<open>ContextRuntime\<close>: interrupts of the connection and the steady clock.\<close>

definition ContextRuntime :: "'w AuthHost \<Rightarrow> 'w ProviderEnv" where
  "ContextRuntime host =
     \<lparr>pe_Send = ah_Send host, pe_IsCancelled = ah_IsInterrupted host, pe_NowMs = ae_NowMs (ah_auth host),
      pe_UtcNowMicros = ah_UtcMicros host\<rparr>"

definition lift_provider :: "('w Provider, AuthFault, 'a) sem \<Rightarrow> ('w AuthState, host_exn, 'a) sem" where
  "lift_provider m s =
     (case m \<lparr>pv_world = rg_world (au_registry s), pv_sent = au_sent s\<rparr> of
        (r, p) \<Rightarrow>
          (case r of Inl fault \<Rightarrow> Inl (FaultException fault) | Inr a \<Rightarrow> Inr a,
           s\<lparr>au_registry := (au_registry s)\<lparr>rg_world := pv_world p\<rparr>, au_sent := pv_sent p\<rparr>))"

definition RecordAuthCompletionFailure ::
  "('w AuthState, host_exn, bool) sem \<Rightarrow> (AuthFault \<Rightarrow> ('w AuthState, host_exn, unit) sem) \<Rightarrow> host_exn option \<Rightarrow>
     ('w AuthState, host_exn, unit) sem" where
  "RecordAuthCompletionFailure is_interrupted record_fault failure =
     sbind is_interrupted (\<lambda>b.
       if b then sthrow InterruptException
       else case failure of
              Some (FaultException fault) \<Rightarrow> record_fault fault
            | _ \<Rightarrow> record_fault TOKEN_EXCHANGE_FAILED)"

text \<open>\<open>FinishFailed\<close> with its own \<open>catch (...) {}\<close>.\<close>

definition finish_quietly :: "'w AuthHost \<Rightarrow> byte_string \<Rightarrow> AuthFault \<Rightarrow> ('w AuthState, host_exn, unit) sem" where
  "finish_quietly host auth_id fault = scatch (on_registry host (FinishFailed auth_id fault)) (\<lambda>_. sret ())"

definition completion_failed ::
  "'w AuthHost \<Rightarrow> byte_string \<Rightarrow> byte_string \<Rightarrow> host_exn \<Rightarrow> ('w AuthState, host_exn, unit) sem" where
  "completion_failed host auth_id credential_id failure =
     sthen (swhen (credential_id \<noteq> []) (on_registry host (RemoveCredential credential_id)))
     (sbind (ask (ah_IsInterrupted host)) (\<lambda>b.
      sthen (swhen b (finish_quietly host auth_id TOKEN_EXCHANGE_FAILED))
        (RecordAuthCompletionFailure (ask (ah_IsInterrupted host)) (finish_quietly host auth_id) (Some failure))))"

definition exchange_and_store ::
  "'v Yyjson \<Rightarrow> 'w AuthHost \<Rightarrow> AuthCompletionMaterial \<Rightarrow> ('w AuthState, host_exn, byte_string) sem" where
  "exchange_and_store js host material =
     sbind (throwing FaultException (SalesforceOAuthProvider default_OAuthExchangeOptions)) (\<lambda>options.
     sbind (lift_provider (Exchange js (ContextRuntime host) options material)) (\<lambda>capability.
       on_registry host (StoreCredential (ah_auth host) (dc_tenant_url capability) (dc_access_token capability)
         (dc_expires_at_monotonic_ms capability))))"

text \<open>
  The \<open>try\<close> block of the completion. The handler knows whether \<open>BeginCompletion\<close> was won and which
  credential had been stored when the exception was thrown; where it was not won it does nothing.
\<close>

definition complete_session :: "'v Yyjson \<Rightarrow> 'w AuthHost \<Rightarrow> byte_string \<Rightarrow> byte_string \<Rightarrow> ('w AuthState, host_exn, unit) sem" where
  "complete_session js host auth_id secret_name =
     sattempt (on_registry host (BeginCompletion (ah_auth host) auth_id)) (\<lambda>_. sret ()) (\<lambda>material.
     sattempt (exchange_and_store js host material) (completion_failed host auth_id []) (\<lambda>credential_id.
     sattempt (sthen (InstallTemporarySessionSecret host secret_name credential_id)
                 (on_registry host (FinishAuthorized auth_id)))
       (completion_failed host auth_id credential_id) sret))"

record AuthCompleteRow =
  cr_status :: byte_string
  cr_secret_name :: "byte_string option"
  cr_expires_at :: int
  cr_error_code :: "byte_string option"
  cr_message :: "byte_string option"

definition complete_row :: "byte_string \<Rightarrow> AuthSessionSnapshot \<Rightarrow> AuthCompleteRow" where
  "complete_row auth_id snapshot =
     (let row = ProjectAuthStatus auth_id snapshot
      in \<lparr>cr_status = ar_status row, cr_secret_name = null_if_empty (sn_secret_name snapshot),
          cr_expires_at = sn_expires_at_utc_micros snapshot, cr_error_code = null_if_empty (ar_error_code row),
          cr_message = null_if_empty (ar_message row)\<rparr>)"

definition AuthCompleteExecute :: "'v Yyjson \<Rightarrow> 'w AuthHost \<Rightarrow> byte_string \<Rightarrow> ('w AuthState, host_exn, AuthCompleteRow) sem" where
  "AuthCompleteExecute js host auth_id =
     sbind (on_registry host (Snapshot (ah_auth host) auth_id)) (\<lambda>snapshot.
     sbind (if sn_status snapshot = CALLBACK_RECEIVED
            then sthen (complete_session js host auth_id (sn_secret_name snapshot))
                   (on_registry host (Snapshot (ah_auth host) auth_id))
            else sret snapshot) (\<lambda>final.
       sret (complete_row auth_id final)))"

end
