(* ===== verification/Auth_Completion.thy ===== *)
theory Auth_Completion
  imports Auth_Functions OAuth_Exchange
begin

text \<open>
  Correctness of the completion under interference: while it owns the session, the calls of other
  threads leave it alone; it ends the session, as authorized exactly where the secret was committed.
\<close>

section \<open>Interference\<close>

definition session_status :: "byte_string \<Rightarrow> 'w AuthState \<Rightarrow> AuthSessionStatus option" where
  "session_status key s = statuses (rg_sessions (au_registry s)) key"

text \<open>The completion owns the session and has seen the catalog in the state \<open>xs\<close>.\<close>

definition owned :: "byte_string \<Rightarrow> catalog_event list \<Rightarrow> 'w AuthState \<Rightarrow> bool" where
  "owned key xs s \<longleftrightarrow> registry_ok (au_registry s) \<and> session_status key s = Some COMPLETING \<and> au_catalog s = xs"

text \<open>Nobody but the owner of a completion finishes the session.\<close>

definition others_leave :: "'w AuthHost \<Rightarrow> byte_string \<Rightarrow> bool" where
  "others_leave host key \<longleftrightarrow> (\<forall>w. \<forall>c \<in> set (fst (ah_others host w)). \<not> finishes c key)"

lemma call_ok: "registry_ok r \<Longrightarrow> registry_ok (snd (registry_call env c r))"
  using call_effect [of env c r "fst (registry_call env c r)" "snd (registry_call env c r)"] effect_ok by auto

lemma registry_ok_world [simp]: "registry_ok (r\<lparr>rg_world := w\<rparr>) = registry_ok r"
  by (simp add: registry_ok_def)

lemma fold_calls_ok: "registry_ok r \<Longrightarrow> registry_ok (fold (\<lambda>c r. snd (registry_call env c r)) calls r)"
  by (induction calls arbitrary: r) (auto intro: call_ok)

lemma fold_calls_completing:
  "registry_ok r \<Longrightarrow> statuses (rg_sessions r) key = Some COMPLETING \<Longrightarrow> \<forall>c \<in> set calls. \<not> finishes c key \<Longrightarrow>
     statuses (rg_sessions (fold (\<lambda>c r. snd (registry_call env c r)) calls r)) key = Some COMPLETING"
  by (induction calls arbitrary: r) (auto intro: call_ok call_completing)

lemma ask_run: "ask f s = (Inr (fst (f (rg_world (au_registry s)))),
    s\<lparr>au_registry := (au_registry s)\<lparr>rg_world := snd (f (rg_world (au_registry s)))\<rparr>\<rparr>)"
  by (simp add: ask_def split: prod.split)

lemma owned_world [simp]:
  "owned key xs (s\<lparr>au_registry := (au_registry s)\<lparr>rg_world := w\<rparr>\<rparr>) = owned key xs s"
  by (simp add: owned_def session_status_def)

lemma keeps_ask [keeps_intros]: "keeps (owned key xs) (ask f)"
  by (rule keepsI) (auto simp: ask_run)

lemma keeps_require [keeps_intros]: "keeps (owned key xs) (require f)"
  unfolding require_def by (intro keeps_intros)

lemma keeps_meanwhile:
  assumes "others_leave host key"
  shows "keeps (owned key xs) (meanwhile host)"
  by (rule keepsI)
    (use assms in \<open>auto simp: meanwhile_def sbind_def smodify_def ask_run owned_def session_status_def others_leave_def
      intro!: fold_calls_ok fold_calls_completing\<close>)

lemma keeps_lift_call:
  assumes "\<And>r. snd (m r) = snd (registry_call env c r)" "\<not> finishes c key"
  shows "keeps (owned key xs) (lift_registry m)"
proof (rule keepsI)
  fix s out s' assume s: "owned key xs s" and run: "lift_registry m s = (out, s')"
  have "s' = s\<lparr>au_registry := snd (registry_call env c (au_registry s))\<rparr>"
    using run assms(1) [of "au_registry s"] by (auto simp: lift_registry_def split: prod.splits sum.splits)
  then show "owned key xs s'"
    using s assms(2) by (auto simp: owned_def session_status_def intro: call_ok call_completing)
qed

lemma keeps_on_registry:
  assumes "others_leave host key" "\<And>r. snd (m r) = snd (registry_call (ah_auth host) c r)" "\<not> finishes c key"
  shows "keeps (owned key xs) (on_registry host m)"
  unfolding on_registry_def
  by (intro keeps_intros keeps_meanwhile assms keeps_lift_call [where c = c and env = "ah_auth host"])

lemma keeps_credentials:
  assumes "others_leave host key"
  shows "keeps (owned key xs) (on_registry host (RemoveCredential k))"
    and "keeps (owned key xs) (on_registry host (StoreCredential (ah_auth host) url token expiry))"
  by (rule keeps_on_registry [OF assms, where c = "RemoveCredentialCall k"];
      simp add: observe_state)
    (rule keeps_on_registry [OF assms, where c = "StoreCredentialCall url token expiry"];
      simp add: observe_state)

lemma keeps_lift_provider: "keeps (owned key xs) (lift_provider m)"
  by (rule keepsI) (auto simp: lift_provider_def owned_def session_status_def split: prod.splits)

section \<open>Ending the session\<close>

lemma finish_completing:
  assumes "statuses (rg_sessions r) key = Some COMPLETING"
  shows "fst (FinishAuthorized key r) = Inr () \<and> statuses (rg_sessions (snd (FinishAuthorized key r))) key = Some AUTHORIZED"
    and "fst (FinishFailed key fault r) = Inr () \<and> statuses (rg_sessions (snd (FinishFailed key fault r))) key = Some FAILED_STATUS"
proof -
  obtain ses where "map_of (rg_sessions r) key = Some ses" "se_status ses = COMPLETING"
    using assms by (auto simp: statuses_def)
  then show "fst (FinishAuthorized key r) = Inr () \<and> statuses (rg_sessions (snd (FinishAuthorized key r))) key = Some AUTHORIZED"
    and "fst (FinishFailed key fault r) = Inr () \<and> statuses (rg_sessions (snd (FinishFailed key fault r))) key = Some FAILED_STATUS"
    by (simp_all add: FinishAuthorized_def FinishFailed_def finish_session_def TerminalLocked_def Terminal_def
        FindLocked_run registry_runs statuses_put split: prod.split)
qed

lemma finishes_owned:
  fixes host :: "'w AuthHost"
  assumes "others_leave host key"
  shows "triple (owned key xs) (on_registry host (FinishAuthorized key))
      (\<lambda>_ s. session_status key s = Some AUTHORIZED \<and> au_catalog s = xs) (\<lambda>_ _. False)"
    and "triple (owned key xs) (on_registry host (FinishFailed key fault))
      (\<lambda>_ s. session_status key s = Some FAILED_STATUS \<and> au_catalog s = xs) (\<lambda>_ _. False)"
proof -
  have lift: "triple (owned key xs) (on_registry host m) (\<lambda>_ s. session_status key s = Some st \<and> au_catalog s = xs) (\<lambda>_ _. False)"
    if "\<And>r. statuses (rg_sessions r) key = Some COMPLETING \<Longrightarrow> fst (m r) = Inr () \<and> statuses (rg_sessions (snd (m r))) key = Some st"
    for m :: "('w Registry, auth_exn, unit) sem" and st
    unfolding on_registry_def
  proof (rule triple_then)
    show "triple (owned key xs) (meanwhile host) (\<lambda>_. owned key xs) (\<lambda>_ _. False)"
      using keeps_triple [OF keeps_meanwhile [OF assms, of xs]]
      by (auto simp: triple_def meanwhile_def sbind_def smodify_def ask_run)
    show "triple (owned key xs) (lift_registry m) (\<lambda>_ s. session_status key s = Some st \<and> au_catalog s = xs) (\<lambda>_ _. False)"
      unfolding triple_def
    proof (intro allI impI)
      fix s :: "'w AuthState" assume "owned key xs s"
      with that [of "au_registry s"] show "case lift_registry m s of (Inr a, s') \<Rightarrow> session_status key s' = Some st \<and> au_catalog s' = xs
          | (Inl e, s') \<Rightarrow> False"
        by (cases "m (au_registry s)") (simp add: lift_registry_def owned_def session_status_def)
    qed
  qed
  show "triple (owned key xs) (on_registry host (FinishAuthorized key))
      (\<lambda>_ s. session_status key s = Some AUTHORIZED \<and> au_catalog s = xs) (\<lambda>_ _. False)"
    by (rule lift) (rule finish_completing)
  show "triple (owned key xs) (on_registry host (FinishFailed key fault))
      (\<lambda>_ s. session_status key s = Some FAILED_STATUS \<and> au_catalog s = xs) (\<lambda>_ _. False)"
    by (rule lift) (rule finish_completing)
qed

abbreviation failed_with :: "byte_string \<Rightarrow> catalog_event list \<Rightarrow> 'a \<Rightarrow> 'w AuthState \<Rightarrow> bool" where
  "failed_with key xs a s \<equiv> session_status key s = Some FAILED_STATUS \<and> au_catalog s = xs"

lemma finish_quietly_owned:
  assumes "others_leave host key"
  shows "triple (owned key xs) (finish_quietly host key fault) (failed_with key xs) (\<lambda>_ _. False)"
  unfolding finish_quietly_def
  by (rule triple_catch [OF _ finishes_owned(2) [OF assms]]) (simp add: triple_def)

lemma ask_uninterrupted:
  assumes "\<And>w. \<not> fst (ah_IsInterrupted host w)"
  shows "triple (owned key xs) (ask (ah_IsInterrupted host)) (\<lambda>b s. \<not> b \<and> owned key xs s) (\<lambda>_ _. False)"
  using assms by (simp add: triple_def ask_run)

lemma completion_failed_owned:
  assumes "others_leave host key" and quiet: "\<And>w. \<not> fst (ah_IsInterrupted host w)"
  shows "triple (owned key xs) (completion_failed host key k e) (failed_with key xs) (\<lambda>_ _. False)"
proof -
  have rec: "triple (owned key xs) (RecordAuthCompletionFailure (ask (ah_IsInterrupted host)) (finish_quietly host key) f)
      (failed_with key xs) (\<lambda>_ _. False)" for f
    unfolding RecordAuthCompletionFailure_def
  proof (rule triple_bind [OF _ ask_uninterrupted [OF quiet]])
    fix b
    show "triple (\<lambda>s. \<not> b \<and> owned key xs s) (if b then sthrow InterruptException
        else case f of Some (FaultException fault) \<Rightarrow> finish_quietly host key fault
             | _ \<Rightarrow> finish_quietly host key TOKEN_EXCHANGE_FAILED) (failed_with key xs) (\<lambda>_ _. False)"
      using finish_quietly_owned [OF assms(1)]
      by (cases b) (auto simp: triple_def split: option.split host_exn.split)
  qed
  have check: "triple (\<lambda>s. \<not> b \<and> owned key xs s) (sthen (swhen b (finish_quietly host key TOKEN_EXCHANGE_FAILED))
      (RecordAuthCompletionFailure (ask (ah_IsInterrupted host)) (finish_quietly host key) f))
      (failed_with key xs) (\<lambda>_ _. False)" for b f
    using rec [of f] by (cases b) (auto simp: triple_def swhen_def sthen_def sret_def sbind_def)
  have rm: "triple (owned key xs) (swhen (k \<noteq> []) (on_registry host (RemoveCredential k))) (\<lambda>_. owned key xs) (\<lambda>_ _. False)"
  proof -
    have "triple (owned key xs) (on_registry host (RemoveCredential k)) (\<lambda>_. owned key xs) (\<lambda>_ _. False)"
      using keeps_triple [OF keeps_credentials(1) [OF assms(1), of xs k]]
      by (auto simp: triple_def on_registry_def meanwhile_def RemoveCredential_def lift_registry_def sthen_def sbind_def
          smodify_def ask_run)
    then show ?thesis by (auto simp: triple_def swhen_def sret_def)
  qed
  show ?thesis
    unfolding completion_failed_def
    by (rule triple_then [OF triple_bind [OF check ask_uninterrupted [OF quiet]] rm])
qed

section \<open>Installing the secret\<close>

definition uncommitted :: "byte_string \<Rightarrow> catalog_event list \<Rightarrow> 'w AuthState \<Rightarrow> bool" where
  "uncommitted key xs s \<longleftrightarrow> (\<exists>new. CatalogCommitted \<notin> set new \<and> owned key (new @ xs) s)"

lemma keeps_uncommitted: "(\<And>ys. keeps (owned key ys) m) \<Longrightarrow> keeps (uncommitted key xs) m"
  by (rule keepsI) (auto simp: uncommitted_def dest: keepsD)

lemma owned_uncommitted: "owned key xs s \<Longrightarrow> uncommitted key xs s"
  unfolding uncommitted_def by (intro exI [of _ "[]"]) simp

lemma uncommitted_log:
  "uncommitted key xs s \<Longrightarrow> e \<noteq> CatalogCommitted \<Longrightarrow> uncommitted key xs (au_catalog_update (\<lambda>es. e # es) s)"
proof -
  assume "uncommitted key xs s" and e: "e \<noteq> CatalogCommitted"
  then obtain new where "CatalogCommitted \<notin> set new" "owned key (new @ xs) s" by (auto simp: uncommitted_def)
  with e have "CatalogCommitted \<notin> set (e # new)" "owned key ((e # new) @ xs) (au_catalog_update (\<lambda>es. e # es) s)"
    by (simp_all add: owned_def session_status_def)
  then show ?thesis unfolding uncommitted_def by blast
qed

lemma install_failed_uncommitted:
  assumes "others_leave host key"
  shows "triple (uncommitted key xs) (install_failed host k old e) (\<lambda>_ _. False) (\<lambda>_. uncommitted key xs)"
proof -
  have rm: "keeps (uncommitted key xs) (swhen b (on_registry host (RemoveCredential k)))" for b
    by (intro keeps_intros keeps_uncommitted keeps_credentials assms)
  have lg: "keeps (uncommitted key xs) (swhen ok (log_catalog CatalogRolledBack))" for ok
    by (intro keeps_intros) (simp add: uncommitted_log)
  have ak: "keeps (uncommitted key xs) (ask f)" for f :: "'a \<Rightarrow> 'b \<times> 'a"
    by (intro keeps_uncommitted keeps_intros)
  show ?thesis
    unfolding install_failed_def
    by (intro triple_keeps_bind [OF ak] triple_keeps_then [OF lg] triple_keeps_then [OF rm])
       (auto simp: triple_def sthrow_def)
qed

lemma require_uncommitted:
  fixes f :: "'w \<Rightarrow> bool \<times> 'w"
  shows "(\<And>s :: 'w AuthState. owned key ys s \<Longrightarrow> uncommitted key xs s) \<Longrightarrow>
     triple (owned key ys) (require f) (\<lambda>_. owned key ys) (\<lambda>_. uncommitted key xs)"
  by (rule triple_weaken_post [OF keeps_triple [OF keeps_require]])

lemma log_owned: "triple (owned key ys) (log_catalog e) (\<lambda>_. owned key (e # ys)) E"
  by (simp add: triple_def smodify_def owned_def session_status_def)

lemma replace_secret_commits:
  fixes host :: "'w AuthHost"
  shows "triple (owned key xs) (replace_secret host name k)
     (\<lambda>_. owned key (CatalogCommitted # SecretRegistered name k # xs)) (\<lambda>_. uncommitted key xs)"
proof -
  have reg: "uncommitted key xs s" if "owned key (SecretRegistered name k # xs) s" for s :: "'w AuthState"
    using that unfolding uncommitted_def by (intro exI [of _ "[SecretRegistered name k]"]) simp
  show ?thesis
    unfolding replace_secret_def
    by (rule triple_then [OF triple_then [OF triple_then [OF log_owned require_uncommitted [OF reg]] log_owned]
          require_uncommitted [OF owned_uncommitted]])
qed

lemma Install_owned:
  assumes "others_leave host key"
  shows "triple (owned key xs) (InstallTemporarySessionSecret host name k)
     (\<lambda>_. owned key (CatalogCommitted # SecretRegistered name k # xs)) (\<lambda>_. uncommitted key xs)"
proof -
  let ?done = "\<lambda>_. owned key (CatalogCommitted # SecretRegistered name k # xs)"
  have failed: "triple (uncommitted key xs) (install_failed host k old e) ?done (\<lambda>_. uncommitted key xs)" for old e
    by (rule triple_weaken_post [OF install_failed_uncommitted [OF assms]]) auto
  have "keeps (owned key xs) (find_old host name)"
    unfolding find_old_def by (intro keeps_intros)
  then have find: "triple (owned key xs) (find_old host name) (\<lambda>_. owned key xs) (\<lambda>_. uncommitted key xs)"
    by (intro triple_weaken_post [OF keeps_triple]) (auto intro: owned_uncommitted)
  have rm: "triple (owned key ys) (swhen b (on_registry host (RemoveCredential old))) (\<lambda>_. owned key ys) (\<lambda>_ _. False)" for b old ys
    using keeps_triple [OF keeps_credentials(1) [OF assms, of ys old]]
    by (auto simp: triple_def on_registry_def meanwhile_def RemoveCredential_def lift_registry_def sthen_def sbind_def
        smodify_def ask_run swhen_def sret_def)
  have retire: "triple (owned key (CatalogCommitted # SecretRegistered name k # xs))
      (swhen b (on_registry host (RemoveCredential old))) ?done (\<lambda>_. uncommitted key xs)" for b old
    by (rule triple_weaken_post [OF rm]) auto
  have body: "triple (owned key xs) (sattempt (find_old host name) (install_failed host k []) (\<lambda>old.
      sattempt (replace_secret host name k) (install_failed host k old) (\<lambda>_. swhen (old \<noteq> [] \<and> old \<noteq> k)
        (on_registry host (RemoveCredential old))))) ?done (\<lambda>_. uncommitted key xs)"
    by (intro triple_attempt [OF failed _ find] triple_attempt [OF failed retire replace_secret_commits])
  show ?thesis
    unfolding InstallTemporarySessionSecret_def
    by (rule triple_keeps_then [OF keeps_require body]) (rule owned_uncommitted)
qed

section \<open>The completion\<close>

lemma keeps_throwing: "keeps I (throwing f r)"
  unfolding throwing_def by (intro keeps_intros)

lemma exchange_and_store_owned:
  assumes "others_leave host key"
  shows "keeps (owned key xs) (exchange_and_store js host material)"
  unfolding exchange_and_store_def
  by (intro keeps_intros keeps_throwing keeps_lift_provider keeps_credentials assms)

definition completed :: "byte_string \<Rightarrow> byte_string \<Rightarrow> catalog_event list \<Rightarrow> 'w AuthState \<Rightarrow> bool" where
  "completed key name xs s \<longleftrightarrow>
     (\<exists>k. session_status key s = Some AUTHORIZED \<and> au_catalog s = CatalogCommitted # SecretRegistered name k # xs) \<or>
     (\<exists>new. session_status key s = Some FAILED_STATUS \<and> CatalogCommitted \<notin> set new \<and> au_catalog s = new @ xs)"

lemma failed_completed:
  assumes "others_leave host key" "\<And>w. \<not> fst (ah_IsInterrupted host w)"
  shows "triple (uncommitted key xs) (completion_failed host key k e) (\<lambda>_. completed key name xs) (\<lambda>_ _. False)"
proof -
  have "triple (owned key (new @ xs)) (completion_failed host key k e) (\<lambda>_. completed key name xs) (\<lambda>_ _. False)"
    if "CatalogCommitted \<notin> set new" for new
    by (rule triple_weaken_post [OF completion_failed_owned [OF assms]]) (use that in \<open>auto simp: completed_def\<close>)
  then have "triple (\<lambda>s. CatalogCommitted \<notin> set new \<and> owned key (new @ xs) s) (completion_failed host key k e)
      (\<lambda>_. completed key name xs) (\<lambda>_ _. False)" for new
    by (cases "CatalogCommitted \<in> set new") (auto simp: triple_def)
  then show ?thesis unfolding uncommitted_def by (rule triple_ex)
qed

lemma complete_owned:
  assumes "others_leave host key" "\<And>w. \<not> fst (ah_IsInterrupted host w)"
  shows "triple (owned key xs)
    (sattempt (exchange_and_store js host material) (completion_failed host key []) (\<lambda>k.
       sattempt (sthen (InstallTemporarySessionSecret host name k) (on_registry host (FinishAuthorized key)))
         (completion_failed host key k) sret))
    (\<lambda>_. completed key name xs) (\<lambda>_ _. False)"
proof -
  note failed = failed_completed [OF assms, where name = name]
  have fin: "triple (owned key (CatalogCommitted # SecretRegistered name k # xs)) (on_registry host (FinishAuthorized key))
      (\<lambda>_. completed key name xs) (\<lambda>_. uncommitted key xs)" for k
    by (rule triple_weaken_post [OF finishes_owned(1) [OF assms(1)]]) (auto simp: completed_def)
  have install: "triple (owned key xs) (sthen (InstallTemporarySessionSecret host name k) (on_registry host (FinishAuthorized key)))
      (\<lambda>_. completed key name xs) (\<lambda>_. uncommitted key xs)" for k
    by (rule triple_then [OF fin Install_owned [OF assms(1)]])
  have store: "triple (owned key xs) (exchange_and_store js host material) (\<lambda>_. owned key xs) (\<lambda>_. uncommitted key xs)"
    by (rule triple_weaken_post [OF keeps_triple [OF exchange_and_store_owned [OF assms(1)]]]) (auto intro: owned_uncommitted)
  show ?thesis
    by (intro triple_attempt [OF failed _ store] triple_attempt [OF failed _ install]) (simp add: triple_def sret_def)
qed

end
