(* ===== verification/Completion_Properties.thy ===== *)
theory Completion_Properties
  imports Auth_Completion
begin

text \<open>
  The properties of the SQL functions, over the registry, the exchange and the catalog together, with
  witnesses on a scripted host.
\<close>

section \<open>A scripted host\<close>

text \<open>
  The world counts the clock and the random draws and holds the answers to come of the interrupt flag;
  the servers do not answer.
\<close>

record DemoWorld =
  dw_count :: nat
  dw_flags :: "bool list"

definition tick :: "DemoWorld \<Rightarrow> DemoWorld" where
  "tick w = w\<lparr>dw_count := dw_count w + 1\<rparr>"

definition demo_host :: "(DemoWorld \<Rightarrow> bool \<times> DemoWorld) \<Rightarrow> DemoWorld AuthHost" where
  "demo_host interrupted =
     \<lparr>ah_auth = \<lparr>ae_random = (\<lambda>n w. (Inr (replicate n (of_nat (dw_count w))), tick w)),
                 ae_NowMs = (\<lambda>w. (of_nat (dw_count w), tick w))\<rparr>,
      ah_others = (\<lambda>w. ([], w)), ah_IsInterrupted = interrupted, ah_UtcMicros = (\<lambda>w. (7, w)),
      ah_Send = (\<lambda>rq w. (Inl TransportOther, w)), ah_Connect = (\<lambda>w. (True, w)), ah_BeginTransaction = (\<lambda>w. (True, w)),
      ah_GetSecretByName = (\<lambda>name w. (Some None, w)), ah_RegisterSecret = (\<lambda>secret w. (True, w)),
      ah_Commit = (\<lambda>w. (True, w)), ah_Rollback = (\<lambda>w. (True, w)), ah_OpenListener = (\<lambda>w. (Some 2, w)),
      ah_StartWorker = (\<lambda>ow auth_id w. (True, w))\<rparr>"

definition quiet_host :: "DemoWorld AuthHost" where
  "quiet_host = demo_host (\<lambda>w. (False, w))"


definition demo_bind :: AuthStartBindData where
  "demo_bind = \<lparr>ab_login_origin = ''https://login.salesforce.com'', ab_client_id = ''client'', ab_secret_name = ''secret''\<rparr>"

definition demo_sha256 :: "byte_string \<Rightarrow> u8 list option" where
  "demo_sha256 text = Some (replicate 32 7)"

definition demo_initial :: "bool list \<Rightarrow> DemoWorld AuthState" where
  "demo_initial flags = \<lparr>au_registry = empty_registry \<lparr>dw_count = 1, dw_flags = flags\<rparr>, au_sent = [], au_catalog = []\<rparr>"

definition demo_auth_id :: byte_string where
  "demo_auth_id = ''BQUFBQUFBQUFBQUFBQUFBQ''"

definition demo_started_url :: byte_string where
  "demo_started_url = ''https://login.salesforce.com/services/oauth2/authorize?response_type=code&client_id=client'' @
     ''&redirect_uri=http%3A%2F%2Flocalhost%3A8910%2Foauth%2Fcallback&scope=api%20cdp_query_api'' @
     ''&code_challenge=BwcHBwcHBwcHBwcHBwcHBwcHBwcHBwcHBwcHBwcHBwc&code_challenge_method=S256'' @
     ''&state=AgICAgICAgICAgICAgICAg''"

text \<open>The session that is started, and the states after the start and after the callback.\<close>

definition demo_session :: AuthSession where
  "demo_session = \<lparr>se_status = PENDING_USER_ACTION, se_expected_state = ''AgICAgICAgICAgICAgICAg'',
     se_pkce_verifier = ''AQEBAQEBAQEBAQEBAQEBAQEBAQEBAQEBAQEBAQEBAQE'', se_authorization_code = [],
     se_login_origin = ''https://login.salesforce.com'', se_client_id = ''client'', se_secret_name = ''secret'',
     se_expires_at_ms = 600003, se_expires_at_utc_micros = 600000007, se_fault = None, se_callback_owner = Some 2\<rparr>"

definition demo_holding :: "nat \<Rightarrow> bool list \<Rightarrow> AuthSession \<Rightarrow> DemoWorld AuthState" where
  "demo_holding count flags ses =
     \<lparr>au_registry = \<lparr>rg_world = \<lparr>dw_count = count, dw_flags = flags\<rparr>, rg_sessions = [(demo_auth_id, ses)],
                     rg_credentials = [], rg_stopped = []\<rparr>, au_sent = [], au_catalog = []\<rparr>"

definition demo_started :: "bool list \<Rightarrow> DemoWorld AuthState" where
  "demo_started flags = demo_holding 6 flags demo_session"

definition demo_answered :: "bool list \<Rightarrow> DemoWorld AuthState" where
  "demo_answered flags = demo_holding 7 flags
     (demo_session\<lparr>se_expected_state := [], se_authorization_code := ''code'', se_status := CALLBACK_RECEIVED\<rparr>)"

definition demo_row :: AuthStartRow where
  "demo_row = \<lparr>sr_auth_id = demo_auth_id, sr_authorization_url = demo_started_url, sr_expires_at = 600000007,
     sr_callback_url = FixedOAuthCallbackUrl, sr_status = ''PENDING_USER_ACTION''\<rparr>"

lemma demo_start_values:
  "ValidateSalesforceLoginOrigin (ab_login_origin demo_bind) = Inr ''https://login.salesforce.com''"
  "ValidateAuthClientId (ab_client_id demo_bind) = Inr ()" "ValidateAuthSecretName (ab_secret_name demo_bind) = Inr ()"
  by code_simp+

lemma demo_start_steps:
  "ask (ah_OpenListener quiet_host) s = (Inr (Some 2), s)"
  "start_worker quiet_host ow auth_id s = (Inr (), s)"
  by (simp_all add: quiet_host_def demo_host_def ask_def start_worker_def require_def sem_simps scatch_def)

lemma demo_url_returned:
  "BuildSalesforceAuthorizationUrl ''https://login.salesforce.com'' (ab_client_id demo_bind)
     ''BwcHBwcHBwcHBwcHBwcHBwcHBwcHBwcHBwcHBwcHBwc'' ''AgICAgICAgICAgICAgICAg'' FixedOAuthCallbackUrl = Inr demo_started_url"
  by code_simp

lemma demo_registered:
  "register_start demo_sha256 quiet_host ''https://login.salesforce.com'' demo_bind 2 (demo_initial flags) =
     (Inr (demo_auth_id, ''BwcHBwcHBwcHBwcHBwcHBwcHBwcHBwcHBwcHBwcHBwc'', ''AgICAgICAgICAgICAgICAg'', 600000007), demo_started flags)"
  by code_simp

lemma demo_received:
  "lift_registry (ReceiveCallback (ah_auth quiet_host) demo_auth_id ''AgICAgICAgICAgICAgICAg'' ''code'') (demo_started flags) =
     (Inr (), demo_answered flags)"
  by code_simp

lemma demo_start_returns: "AuthStartExecute demo_sha256 quiet_host demo_bind (demo_initial flags) = (Inr demo_row, demo_started flags)"
  unfolding AuthStartExecute_def sthen_def sattempt_def
  by (simp add: demo_start_values demo_start_steps demo_registered demo_url_returned throwing_def sbind_run run_basic demo_row_def
      del: split_on_Cons)

definition no_json :: "json Yyjson" where
  "no_json = json_tree []"

section \<open>Starting an authorization\<close>

lemma throwing_returns: "throwing f r s = (Inr a, s') \<longleftrightarrow> r = Inr a \<and> s' = s"
  by (auto simp: throwing_def sem_defs split: sum.split)

lemma sattempt_returns:
  "sattempt m (\<lambda>e. sthen n (sthrow (f e))) k s = (Inr b, s') \<longleftrightarrow> (\<exists>a s1. m s = (Inr a, s1) \<and> k a s1 = (Inr b, s'))"
  by (auto simp: sem_defs split: sum.split prod.split)

lemma validated_origin: "login_host host \<Longrightarrow> ValidateSalesforceLoginOrigin (''https://'' @ host) = Inr (''https://'' @ host)"
  using ValidateSalesforceLoginOrigin_iff [of "''https://'' @ host" "''https://'' @ host"] by blast

lemma on_registry_returns:
  assumes "on_registry host m s = (Inr a, s')"
  obtains r where "m r = (Inr a, au_registry s')"
  using assms
  by (auto simp: on_registry_def meanwhile_def lift_registry_def sthen_def sbind_def ask_run smodify_def
      split: prod.splits sum.splits)

lemma register_start_session:
  assumes "register_start sha256 host origin bind ow s = (Inr (auth_id, challenge, oauth_state, expires_utc), s')"
  shows "\<exists>verifier expires_ms. CreateS256Challenge sha256 verifier = Inr challenge \<and>
     map_of (rg_sessions (au_registry s')) auth_id =
       Some (session_of_request (start_request origin bind oauth_state verifier expires_ms expires_utc ow))"
proof -
  from assms obtain verifier expires_ms s1 s2 where
    c: "CreateS256Challenge sha256 verifier = Inr challenge" and
    o: "on_registry host (Create (ah_auth host) (start_request origin bind oauth_state verifier expires_ms expires_utc ow)) s1 =
          (Inr auth_id, s')"
    unfolding register_start_def Let_def by (auto simp: sbind_returns throwing_returns atomic_returns)
  from on_registry_returns [OF o] obtain r where
    "Create (ah_auth host) (start_request origin bind oauth_state verifier expires_ms expires_utc ow) r = (Inr auth_id, au_registry s')" .
  from Create_cases(2) [OF this] c show ?thesis by (auto simp: opens_def smap.find_put intro!: exI [of _ verifier])
qed

lemma start_worker_returns:
  assumes "start_worker host ow auth_id s = (Inr u, s')"
  shows "rg_sessions (au_registry s') = rg_sessions (au_registry s)"
  using assms
  by (auto simp: start_worker_def require_def scatch_def sattempt_def sthen_def sbind_def ask_run sret_def sthrow_def
      split: if_splits prod.splits sum.splits)

text \<open>
  C30. When an authorization has been started, the registry holds a pending session under the
  identifier of the row, for the validated login host, the client and the secret the user named. The
  URL of the row asks that host for a code with the challenge of exactly this session's verifier and
  with exactly the state this session will insist on; no argument can add or change a parameter.
\<close>
theorem auth_start_session:
  assumes "AuthStartExecute sha256 host bind s = (Inr row, s')"
  shows "\<exists>ses host challenge query.
     map_of (rg_sessions (au_registry s')) (sr_auth_id row) = Some ses \<and>
     se_status ses = PENDING_USER_ACTION \<and> login_host host \<and> se_login_origin ses = ''https://'' @ host \<and>
     se_client_id ses = ab_client_id bind \<and> se_secret_name ses = ab_secret_name bind \<and>
     se_expires_at_utc_micros ses = sr_expires_at row \<and>
     CreateS256Challenge sha256 (se_pkce_verifier ses) = Inr challenge \<and>
     sr_authorization_url row = ''https://'' @ host @ ''/services/oauth2/authorize?'' @ query \<and>
     split_on CHR ''&'' query =
       [''response_type=code'', ''client_id='' @ PercentEncode (ab_client_id bind),
        ''redirect_uri='' @ PercentEncode FixedOAuthCallbackUrl, ''scope=api%20cdp_query_api'',
        ''code_challenge='' @ PercentEncode challenge, ''code_challenge_method=S256'',
        ''state='' @ PercentEncode (se_expected_state ses)]"
proof -
  from assms obtain origin where o: "ValidateSalesforceLoginOrigin (ab_login_origin bind) = Inr origin"
    by (auto simp: AuthStartExecute_def run_returns throwing_returns)
  then obtain login where login: "login_host login" "origin = ''https://'' @ login"
    by (auto simp: ValidateSalesforceLoginOrigin_iff)
  from assms o obtain ow s1 s2 challenge oauth_state where
    r: "register_start sha256 host origin bind ow s1 = (Inr (sr_auth_id row, challenge, oauth_state, sr_expires_at row), s2)" and
    w: "start_worker host ow (sr_auth_id row) s2 = (Inr (), s')" and
    u: "BuildSalesforceAuthorizationUrl origin (ab_client_id bind) challenge oauth_state FixedOAuthCallbackUrl =
          Inr (sr_authorization_url row)"
    unfolding AuthStartExecute_def
    by (auto simp: run_returns throwing_returns sattempt_returns split: option.splits)
  obtain verifier expires_ms where c: "CreateS256Challenge sha256 verifier = Inr challenge" and
    ses: "map_of (rg_sessions (au_registry s')) (sr_auth_id row) =
       Some (session_of_request (start_request origin bind oauth_state verifier expires_ms (sr_expires_at row) ow))"
    using register_start_session [OF r] start_worker_returns [OF w] by auto
  have v: "ValidateSalesforceLoginOrigin origin = Inr origin"
    using validated_origin [OF login(1)] by (simp only: login(2))
  from BuildSalesforceAuthorizationUrl_structure [OF u, unfolded v sum.inject] obtain query where
    url: "sr_authorization_url row = origin @ ''/services/oauth2/authorize?'' @ query" and
    fields: "split_on CHR ''&'' query =
       [''response_type=code'', ''client_id='' @ PercentEncode (ab_client_id bind),
        ''redirect_uri='' @ PercentEncode FixedOAuthCallbackUrl, ''scope=api%20cdp_query_api'',
        ''code_challenge='' @ PercentEncode challenge, ''code_challenge_method=S256'',
        ''state='' @ PercentEncode oauth_state]"
    by blast
  let ?ses = "session_of_request (start_request origin bind oauth_state verifier expires_ms (sr_expires_at row) ow)"
  have "se_status ?ses = PENDING_USER_ACTION" "se_login_origin ?ses = ''https://'' @ login"
    "se_client_id ?ses = ab_client_id bind" "se_secret_name ?ses = ab_secret_name bind"
    "se_expires_at_utc_micros ?ses = sr_expires_at row" "se_pkce_verifier ?ses = verifier" "se_expected_state ?ses = oauth_state"
    by (simp_all add: session_of_request_def start_request_def login(2))
  with c ses login(1) url [unfolded login(2) append_assoc] fields show ?thesis by metis
qed

theorem auth_start_session_witness:
  "\<exists>ses. map_of (rg_sessions (au_registry (demo_started []))) demo_auth_id = Some ses \<and>
     se_status ses = PENDING_USER_ACTION \<and> se_client_id ses = ''client'' \<and> se_expires_at_utc_micros ses = 600000007"
proof -
  from auth_start_session [OF demo_start_returns, of "[]"] show ?thesis
    unfolding demo_row_def AuthStartRow.select_convs demo_bind_def AuthStartBindData.select_convs by blast
qed

section \<open>The outcome of a completion\<close>

lemma BeginCompletion_owned:
  assumes "registry_ok (au_registry s)" "on_registry host (BeginCompletion (ah_auth host) key) s = (Inr material, s')"
  shows "owned key (au_catalog s) s'"
proof -
  obtain r w where r: "r = fold (\<lambda>c r. snd (registry_call (ah_auth host) c r)) (fst (ah_others host (rg_world (au_registry s))))
        ((au_registry s)\<lparr>rg_world := w\<rparr>)"
    and b: "BeginCompletion (ah_auth host) key r = (Inr material, au_registry s')" and cat: "au_catalog s' = au_catalog s"
    using assms(2)
    by (auto simp: on_registry_def meanwhile_def lift_registry_def sthen_def sbind_def ask_run smodify_def
        split: prod.splits sum.splits)
  have "registry_ok r" unfolding r by (rule fold_calls_ok) (simp add: assms(1))
  from call_ok [OF this, of "ah_auth host" "BeginCompletionCall key"] b have "registry_ok (au_registry s')"
    by (simp add: observe_state)
  with BeginCompletion_returns [OF b] cat show ?thesis
    by (auto simp: owned_def session_status_def statuses_put)
qed

text \<open>
  C29. Whoever wins the right to complete a session, and is not interrupted, ends it, whatever the
  servers, the catalog and the other threads do: either the secret was registered and its transaction
  committed, as the last thing done to the catalog, and the session is authorized, or nothing was
  committed and the session has failed. No exception escapes.
\<close>
theorem completion_outcome:
  fixes host :: "'w AuthHost"
  assumes "registry_ok (au_registry s)" "\<forall>w. \<not> fst (ah_IsInterrupted host w)" "others_leave host key"
    and "on_registry host (BeginCompletion (ah_auth host) key) s = (Inr material, s1)"
    and "complete_session js host key name s = (out, s')"
  shows "out = Inr () \<and>
     ((\<exists>k. session_status key s' = Some AUTHORIZED \<and>
           au_catalog s' = CatalogCommitted # SecretRegistered name k # au_catalog s) \<or>
      (\<exists>new. session_status key s' = Some FAILED_STATUS \<and> CatalogCommitted \<notin> set new \<and> au_catalog s' = new @ au_catalog s))"
proof -
  have own: "owned key (au_catalog s) s1" by (rule BeginCompletion_owned [OF assms(1,4)])
  have quiet: "\<not> fst (ah_IsInterrupted host w)" for w using assms(2) by blast
  note t = complete_owned [OF assms(3) quiet, of "au_catalog s" js material name]
  have run: "sattempt (exchange_and_store js host material) (completion_failed host key []) (\<lambda>k.
       sattempt (sthen (InstallTemporarySessionSecret host name k) (on_registry host (FinishAuthorized key)))
         (completion_failed host key k) sret) s1 = (out, s')"
    using assms(4,5) by (simp add: complete_session_def sattempt_def [of "on_registry host (BeginCompletion (ah_auth host) key)"])
  show ?thesis
  proof (cases out)
    case (Inl e)
    with run triple_exn [OF t own] show ?thesis by auto
  next
    case (Inr u)
    with run triple_ret [OF t own] show ?thesis by (auto simp: completed_def)
  qed
qed

lemma demo_begins:
  "\<not> isl (fst (on_registry quiet_host (BeginCompletion (ah_auth quiet_host) demo_auth_id) (demo_answered [])))"
  by code_simp

lemma demo_answered_ok: "registry_ok (au_registry (demo_answered flags))"
  by (simp add: registry_ok_def session_ok_def demo_answered_def demo_holding_def demo_session_def demo_auth_id_def
      active_count_def map_wf_def)

theorem completion_outcome_witness:
  "fst (complete_session no_json quiet_host demo_auth_id ''secret'' (demo_answered [])) = Inr ()"
proof -
  have "\<forall>w. \<not> fst (ah_IsInterrupted quiet_host w)" "others_leave quiet_host demo_auth_id"
    by (simp_all add: quiet_host_def demo_host_def others_leave_def)
  moreover obtain material s1 where
    "on_registry quiet_host (BeginCompletion (ah_auth quiet_host) demo_auth_id) (demo_answered []) = (Inr material, s1)"
    using demo_begins by (cases "on_registry quiet_host (BeginCompletion (ah_auth quiet_host) demo_auth_id) (demo_answered [])")
      (metis fst_conv isl_def sum.exhaust)
  moreover obtain out s' where run: "complete_session no_json quiet_host demo_auth_id ''secret'' (demo_answered []) = (out, s')"
    by fastforce
  ultimately have "out = Inr ()" using completion_outcome [OF demo_answered_ok] by blast
  then show ?thesis by (simp add: run)
qed



end
