(* ===== verification/Loopback_Listener.thy ===== *)
theory Loopback_Listener
  imports Loopback_Parser
begin

text \<open>
  The listener of \<open>loopback_listener.cpp\<close>: the sockets of the native acceptor and the one-shot wait
  of \<open>FixedLoopbackListener\<close>, as built for Linux. The operating system is a parameter; so is the other
  thread that may call \<open>Close\<close>: between two critical sections it may have set the flag, or have closed
  the sockets as well, and inside of one it can only have set the flag.
\<close>

section \<open>State and environment\<close>

datatype callback_exn = CallbackCancelled | CallbackProtocolError byte_string | CallbackStuck

text \<open>The sockets are recorded in the order in which they were opened and closed, newest first.\<close>

record 'w Acceptor =
  ac_world :: 'w
  ac_close_requested :: bool
  ac_listener :: "int option"
  ac_client :: "int option"
  ac_opened :: "int list"
  ac_closed :: "int list"

datatype wait_result = Ready | TimedOut | WaitInterrupted | WaitFailed
datatype accept_result = Accepted int | AcceptAgain | AcceptFailed
datatype recv_result = Received byte_string | RecvAgain | RecvEnded
datatype send_result = Sent nat | SendAgain | SendEnded
datatype closing = NotClosing | FlagSet | ClosedByOther

record 'w Sockets =
  so_socket :: "'w \<Rightarrow> int option \<times> 'w"
  so_SetNonBlocking :: "int \<Rightarrow> 'w \<Rightarrow> bool \<times> 'w"
  so_setsockopt :: "int \<Rightarrow> 'w \<Rightarrow> bool \<times> 'w"
  so_bind_and_listen :: "int \<Rightarrow> 'w \<Rightarrow> bool \<times> 'w"
  so_select :: "int \<Rightarrow> int \<Rightarrow> 'w \<Rightarrow> wait_result \<times> 'w"
  so_accept :: "int \<Rightarrow> 'w \<Rightarrow> accept_result \<times> 'w"
  so_recv :: "int \<Rightarrow> nat \<Rightarrow> 'w \<Rightarrow> recv_result \<times> 'w"
  so_send :: "int \<Rightarrow> byte_string \<Rightarrow> 'w \<Rightarrow> send_result \<times> 'w"
  so_now :: "'w \<Rightarrow> int \<times> 'w"
  so_cancelled :: "'w \<Rightarrow> bool \<times> 'w"
  so_others :: "'w \<Rightarrow> closing \<times> 'w"

definition FD_SETSIZE :: int where
  "FD_SETSIZE = 1024"

definition SOCKET_WAIT_SLICE_MS :: int where
  "SOCKET_WAIT_SLICE_MS = 50"

definition RESPONSE_DEADLINE_MS :: int where
  "RESPONSE_DEADLINE_MS = 250"

text \<open>The steady clock counts nanoseconds.\<close>

definition ns_per_ms :: int where
  "ns_per_ms = 1000000"

section \<open>Steps\<close>

definition call :: "('w \<Rightarrow> 'a \<times> 'w) \<Rightarrow> ('w Acceptor, callback_exn, 'a) sem" where
  "call f s = (case f (ac_world s) of (a, w) \<Rightarrow> (Inr a, s\<lparr>ac_world := w\<rparr>))"

definition protocol_error :: "byte_string \<Rightarrow> ('w Acceptor, callback_exn, 'a) sem" where
  "protocol_error message = sthrow (CallbackProtocolError message)"

definition CloseSocket :: "int option \<Rightarrow> 'w Acceptor \<Rightarrow> 'w Acceptor" where
  "CloseSocket socket s = (case socket of None \<Rightarrow> s | Some fd \<Rightarrow> s\<lparr>ac_closed := fd # ac_closed s\<rparr>)"

definition open_socket :: "int \<Rightarrow> 'w Acceptor \<Rightarrow> 'w Acceptor" where
  "open_socket fd s = s\<lparr>ac_opened := fd # ac_opened s\<rparr>"

definition close_sockets :: "'w Acceptor \<Rightarrow> 'w Acceptor" where
  "close_sockets s =
     (CloseSocket (ac_listener s) (CloseSocket (ac_client s) s))\<lparr>ac_client := None, ac_listener := None\<rparr>"

definition Close :: "('w Acceptor, callback_exn, unit) sem" where
  "Close = smodify (\<lambda>s. close_sockets (s\<lparr>ac_close_requested := True\<rparr>))"

definition interfere :: "closing \<Rightarrow> 'w Acceptor \<Rightarrow> 'w Acceptor" where
  "interfere c s =
     (case c of NotClosing \<Rightarrow> s | FlagSet \<Rightarrow> s\<lparr>ac_close_requested := True\<rparr>
      | ClosedByOther \<Rightarrow> close_sockets (s\<lparr>ac_close_requested := True\<rparr>))"

text \<open>Where no mutex is held, and where it is.\<close>

definition unlocked :: "'w Sockets \<Rightarrow> ('w Acceptor, callback_exn, unit) sem" where
  "unlocked env = sbind (call (so_others env)) (\<lambda>c. smodify (interfere c))"

definition locked :: "'w Sockets \<Rightarrow> ('w Acceptor, callback_exn, unit) sem" where
  "locked env = sbind (call (so_others env)) (\<lambda>c.
     smodify (\<lambda>s. if c = NotClosing then s else s\<lparr>ac_close_requested := True\<rparr>))"

definition stop_if_closing :: "('w Acceptor, callback_exn, unit) sem" where
  "stop_if_closing = sguard ac_close_requested CallbackCancelled"

section \<open>Bind\<close>

definition drop_listener :: "byte_string \<Rightarrow> ('w Acceptor, callback_exn, 'a) sem" where
  "drop_listener message =
     sthen (smodify (\<lambda>s. (CloseSocket (ac_listener s) s)\<lparr>ac_listener := None\<rparr>)) (protocol_error message)"

definition prepare_listener :: "'w Sockets \<Rightarrow> int \<Rightarrow> ('w Acceptor, callback_exn, unit) sem" where
  "prepare_listener env fd =
     (if fd < 0 \<or> FD_SETSIZE \<le> fd then drop_listener ''callback listener unavailable''
      else sbind (call (so_SetNonBlocking env fd)) (\<lambda>ok.
        if \<not> ok then drop_listener ''callback port unavailable''
        else sbind (call (so_setsockopt env fd)) (\<lambda>ok.
          if \<not> ok then drop_listener ''callback port unavailable''
          else sbind (call (so_bind_and_listen env fd)) (\<lambda>ok.
            if \<not> ok then drop_listener ''callback port unavailable'' else sret ()))))"

definition Bind :: "'w Sockets \<Rightarrow> byte_string \<Rightarrow> nat \<Rightarrow> ('w Acceptor, callback_exn, unit) sem" where
  "Bind env address port =
     sthen (unlocked env)
     (sbind (sgets (\<lambda>s. address \<noteq> ''127.0.0.1'' \<or> port \<noteq> 8910 \<or> ac_close_requested s \<or> ac_listener s \<noteq> None)) (\<lambda>refused.
       if refused then protocol_error ''invalid loopback bind request''
       else sbind (call (so_socket env)) (\<lambda>opened.
         case opened of
           None \<Rightarrow> protocol_error ''callback port unavailable''
         | Some fd \<Rightarrow>
             sthen (smodify (\<lambda>s. (open_socket fd s)\<lparr>ac_listener := Some fd\<rparr>)) (prepare_listener env fd))))"

section \<open>AcceptOne\<close>

text \<open>The checks both loops start with; the time that remains, in whole milliseconds.\<close>

definition check_wait :: "'w Sockets \<Rightarrow> int \<Rightarrow> ('w Acceptor, callback_exn, int) sem" where
  "check_wait env deadline =
     sthen (unlocked env) (sthen stop_if_closing
     (sbind (call (so_cancelled env)) (\<lambda>b.
       if b then sthrow CallbackCancelled
       else sbind (call (so_now env)) (\<lambda>now.
         if deadline \<le> now then protocol_error ''OAuth callback timed out''
         else sthen (unlocked env) (sret ((deadline - now) div ns_per_ms))))))"

definition wait_slice :: "int \<Rightarrow> int" where
  "wait_slice remaining = min remaining SOCKET_WAIT_SLICE_MS * 1000"

text \<open>A connection that was accepted.\<close>

definition keep_client :: "'w Sockets \<Rightarrow> int \<Rightarrow> ('w Acceptor, callback_exn, bool) sem" where
  "keep_client env accepted =
     sbind (call (so_SetNonBlocking env accepted)) (\<lambda>ok.
       if \<not> ok then sthen (smodify (CloseSocket (Some accepted))) (protocol_error ''callback listener failed'')
       else if accepted < 0 \<or> FD_SETSIZE \<le> accepted
       then sthen (smodify (CloseSocket (Some accepted))) (protocol_error ''callback listener unavailable'')
       else sthen (smodify (\<lambda>s. s\<lparr>ac_client := Some accepted\<rparr>)) (sret True))"

text \<open>The part of a round behind the look at the client, where there is none yet.\<close>

definition await_client :: "'w Sockets \<Rightarrow> int \<Rightarrow> int option \<Rightarrow> ('w Acceptor, callback_exn, bool) sem" where
  "await_client env remaining listener =
     (case listener of
         None \<Rightarrow> sthrow CallbackCancelled
       | Some fd \<Rightarrow>
           if fd < 0 \<or> FD_SETSIZE \<le> fd then protocol_error ''callback listener unavailable''
           else sbind (call (so_select env fd (wait_slice remaining))) (\<lambda>ready.
             case ready of
               WaitInterrupted \<Rightarrow> sret False
             | WaitFailed \<Rightarrow> protocol_error ''callback listener failed''
             | TimedOut \<Rightarrow> sthen (locked env) (sthen stop_if_closing (sret False))
             | Ready \<Rightarrow>
                 sbind (call (so_accept env fd)) (\<lambda>r.
                   case r of
                     AcceptAgain \<Rightarrow> sret False
                   | AcceptFailed \<Rightarrow> protocol_error ''callback listener failed''
                   | Accepted accepted \<Rightarrow> sthen (smodify (open_socket accepted)) (keep_client env accepted))))"

text \<open>One round of the first loop: whether it is left.\<close>

definition accept_round :: "'w Sockets \<Rightarrow> int \<Rightarrow> ('w Acceptor, callback_exn, bool) sem" where
  "accept_round env deadline =
     sbind (check_wait env deadline) (\<lambda>remaining.
     sbind (sgets ac_client) (\<lambda>client.
     sbind (sgets ac_listener) (\<lambda>listener.
       if client \<noteq> None then sret True else await_client env remaining listener)))"

fun accept_loop :: "nat \<Rightarrow> 'w Sockets \<Rightarrow> int \<Rightarrow> ('w Acceptor, callback_exn, unit) sem" where
  "accept_loop 0 env deadline = sthrow CallbackStuck"
| "accept_loop (Suc fuel) env deadline =
     sbind (accept_round env deadline) (\<lambda>left. if left then sret () else accept_loop fuel env deadline)"

text \<open>One round of the second loop: the request so far.\<close>

definition read_round ::
  "'w Sockets \<Rightarrow> int \<Rightarrow> nat \<Rightarrow> byte_string \<Rightarrow> ('w Acceptor, callback_exn, byte_string) sem" where
  "read_round env deadline maximum_bytes request =
     sbind (check_wait env deadline) (\<lambda>remaining.
     sbind (sgets ac_client) (\<lambda>client.
       case client of
         None \<Rightarrow> sthrow CallbackCancelled
       | Some fd \<Rightarrow>
           if fd < 0 \<or> FD_SETSIZE \<le> fd then protocol_error ''callback listener unavailable''
           else sbind (call (so_select env fd (wait_slice remaining))) (\<lambda>ready.
             case ready of
               WaitInterrupted \<Rightarrow> sret request
             | WaitFailed \<Rightarrow> protocol_error ''callback listener failed''
             | TimedOut \<Rightarrow> sthen (locked env) (sthen stop_if_closing (sret request))
             | Ready \<Rightarrow>
                 sbind (call (so_recv env fd 512)) (\<lambda>r.
                   case r of
                     RecvAgain \<Rightarrow> sret request
                   | RecvEnded \<Rightarrow> protocol_error ''invalid or oversized callback request''
                   | Received bytes \<Rightarrow>
                       if bytes = [] \<or> maximum_bytes < length request + length bytes
                       then protocol_error ''invalid or oversized callback request''
                       else sret (request @ bytes)))))"

fun read_loop ::
  "nat \<Rightarrow> 'w Sockets \<Rightarrow> int \<Rightarrow> nat \<Rightarrow> byte_string \<Rightarrow> ('w Acceptor, callback_exn, byte_string) sem" where
  "read_loop fuel env deadline maximum_bytes request =
     (if str_find (crlf @ crlf) request \<noteq> None then sret request
      else case fuel of
             0 \<Rightarrow> sthrow CallbackStuck
           | Suc fuel' \<Rightarrow>
               sbind (read_round env deadline maximum_bytes request) (read_loop fuel' env deadline maximum_bytes))"

declare read_loop.simps [simp del]

definition AcceptOne :: "nat \<Rightarrow> 'w Sockets \<Rightarrow> nat \<Rightarrow> u64 \<Rightarrow> ('w Acceptor, callback_exn, byte_string) sem" where
  "AcceptOne fuel env maximum_bytes timeout_ms =
     sthen (unlocked env) (sthen stop_if_closing
     (sbind (sgets (\<lambda>s. ac_listener s = None \<or> MAX_CALLBACK_REQUEST_BYTES < maximum_bytes)) (\<lambda>refused.
       if refused then protocol_error ''invalid callback listener state''
       else sbind (call (so_now env)) (\<lambda>now.
         let deadline = now + uint timeout_ms * ns_per_ms
         in sthen (accept_loop fuel env deadline) (read_loop fuel env deadline maximum_bytes [])))))"

section \<open>Respond\<close>

text \<open>One round: what is left to send, or \<open>None\<close> where the function returns. First the part under the mutex.\<close>

definition send_some :: "'w Sockets \<Rightarrow> int \<Rightarrow> byte_string \<Rightarrow> ('w Acceptor, callback_exn, byte_string option) sem" where
  "send_some env deadline rest =
     sbind (sgets (\<lambda>s. if ac_close_requested s then None else ac_client s)) (\<lambda>client.
       case client of
         None \<Rightarrow> sret None
       | Some fd \<Rightarrow>
           sbind (call (so_now env)) (\<lambda>now.
           let remaining = (deadline - now) div ns_per_ms
           in if remaining \<le> 0 \<or> fd < 0 \<or> FD_SETSIZE \<le> fd then sret None
              else sbind (call (so_select env fd (wait_slice remaining))) (\<lambda>ready.
                case ready of
                  WaitInterrupted \<Rightarrow> sret (Some rest)
                | WaitFailed \<Rightarrow> sret None
                | TimedOut \<Rightarrow> sret (Some rest)
                | Ready \<Rightarrow>
                    sbind (call (so_send env fd rest)) (\<lambda>r.
                      case r of
                        SendAgain \<Rightarrow> sret (Some rest)
                      | SendEnded \<Rightarrow> sret None
                      | Sent count \<Rightarrow> if count = 0 then sret None else sret (Some (drop count rest))))))"

definition send_round :: "'w Sockets \<Rightarrow> int \<Rightarrow> byte_string \<Rightarrow> ('w Acceptor, callback_exn, byte_string option) sem" where
  "send_round env deadline rest =
     sthen (unlocked env)
     (sbind (sgets ac_close_requested) (\<lambda>closing.
       if closing then sret None
       else sbind (call (so_now env)) (\<lambda>now.
         if deadline \<le> now then sret None else sthen (unlocked env) (send_some env deadline rest))))"

fun Respond :: "nat \<Rightarrow> 'w Sockets \<Rightarrow> int \<Rightarrow> byte_string \<Rightarrow> ('w Acceptor, callback_exn, unit) sem" where
  "Respond fuel env deadline rest =
     (if rest = [] then sret ()
      else case fuel of
             0 \<Rightarrow> sthrow CallbackStuck
           | Suc fuel' \<Rightarrow>
               sbind (send_round env deadline rest) (\<lambda>r.
                 case r of None \<Rightarrow> sret () | Some rest' \<Rightarrow> Respond fuel' env deadline rest'))"

declare Respond.simps [simp del]

definition respond_within :: "nat \<Rightarrow> 'w Sockets \<Rightarrow> byte_string \<Rightarrow> ('w Acceptor, callback_exn, unit) sem" where
  "respond_within fuel env response =
     sbind (call (so_now env)) (\<lambda>now. Respond fuel env (now + RESPONSE_DEADLINE_MS * ns_per_ms) response)"

section \<open>The fixed listener\<close>

record 'w Listener =
  fl_acceptor :: "'w Acceptor"
  fl_consumed :: bool
  fl_waiting :: bool

definition on_acceptor :: "('w Acceptor, callback_exn, 'a) sem \<Rightarrow> ('w Listener, callback_exn, 'a) sem" where
  "on_acceptor m s = (case m (fl_acceptor s) of (r, a) \<Rightarrow> (r, s\<lparr>fl_acceptor := a\<rparr>))"

definition fresh_acceptor :: "'w \<Rightarrow> 'w Acceptor" where
  "fresh_acceptor w =
     \<lparr>ac_world = w, ac_close_requested = False, ac_listener = None, ac_client = None, ac_opened = [], ac_closed = []\<rparr>"

text \<open>The constructor; the acceptor it was given is destroyed, and so closed, where it throws.\<close>

definition FixedLoopbackListener :: "'w Sockets \<Rightarrow> 'w \<Rightarrow> (callback_exn + 'w Listener) \<times> 'w Acceptor" where
  "FixedLoopbackListener env w =
     (case Bind env ''127.0.0.1'' 8910 (fresh_acceptor w) of
        (Inl e, a) \<Rightarrow> (Inl e, snd (Close a))
      | (Inr _, a) \<Rightarrow> (Inr \<lparr>fl_acceptor = a, fl_consumed = False, fl_waiting = False\<rparr>, a))"

definition wait_and_parse :: "nat \<Rightarrow> 'w Sockets \<Rightarrow> u64 \<Rightarrow> ('w Acceptor, callback_exn, CallbackResult) sem" where
  "wait_and_parse fuel env timeout_ms =
     sbind (AcceptOne fuel env MAX_CALLBACK_REQUEST_BYTES timeout_ms) (\<lambda>request.
       case ParseOAuthCallbackRequest request of
         Inl message \<Rightarrow> protocol_error message
       | Inr result \<Rightarrow>
           sthen (respond_within fuel env (if cb_status result = CODE_RECEIVED then SuccessResponse else FailureResponse))
             (sret result))"

text \<open>Both ways out close the acceptor and end the waiting.\<close>

definition WaitForCallback :: "nat \<Rightarrow> 'w Sockets \<Rightarrow> u64 \<Rightarrow> ('w Listener, callback_exn, CallbackResult) sem" where
  "WaitForCallback fuel env timeout_ms =
     sbind (sgets (\<lambda>s. fl_consumed s \<or> timeout_ms = 0 \<or> 600000 < timeout_ms)) (\<lambda>refused.
       if refused then sthrow (CallbackProtocolError ''invalid callback listener state'')
       else sthen (smodify (\<lambda>s. s\<lparr>fl_consumed := True, fl_waiting := True\<rparr>))
         (sattempt (on_acceptor (wait_and_parse fuel env timeout_ms))
           (\<lambda>e. sthen (on_acceptor Close) (sthen (smodify (\<lambda>s. s\<lparr>fl_waiting := False\<rparr>)) (sthrow e)))
           (\<lambda>result. sthen (on_acceptor Close) (sthen (smodify (\<lambda>s. s\<lparr>fl_waiting := False\<rparr>)) (sret result)))))"

definition CancelListener :: "('w Listener, callback_exn, unit) sem" where
  "CancelListener = sthen (smodify (\<lambda>s. s\<lparr>fl_consumed := True\<rparr>)) (on_acceptor Close)"

end
