(* ===== verification/Callback_Worker.thy ===== *)
theory Callback_Worker
  imports Auth_Functions Loopback_Listener
begin

text \<open>
  The worker that waits for the callback of one session and reports it to the registry:
  \<open>ProcessAuthCallback\<close> of \<open>auth_functions.cpp\<close>, from what the listener's wait ended with.
\<close>

definition fail_quietly :: "'w AuthHost \<Rightarrow> byte_string \<Rightarrow> ('w AuthState, host_exn, unit) sem" where
  "fail_quietly host auth_id = scatch (on_registry host (Fail auth_id CALLBACK_PROTOCOL_ERROR)) (\<lambda>_. sret ())"

definition deliver_callback :: "'w AuthHost \<Rightarrow> byte_string \<Rightarrow> CallbackResult \<Rightarrow> ('w AuthState, host_exn, unit) sem" where
  "deliver_callback host auth_id result =
     (if cb_status result = ACCESS_DENIED then on_registry host (ReceiveDenied (ah_auth host) auth_id (cb_state result))
      else case fst (TakeCode result) of
             Inl message \<Rightarrow> sthrow OtherException
           | Inr taken \<Rightarrow> on_registry host (ReceiveCallback (ah_auth host) auth_id (cb_state result) taken))"

definition ProcessAuthCallback ::
  "'w AuthHost \<Rightarrow> byte_string \<Rightarrow> callback_exn + CallbackResult \<Rightarrow> ('w AuthState, host_exn, unit) sem" where
  "ProcessAuthCallback host auth_id outcome =
     (case outcome of
        Inl e \<Rightarrow> if e = CallbackCancelled then sret () else fail_quietly host auth_id
      | Inr result \<Rightarrow> scatch (deliver_callback host auth_id result) (\<lambda>_. fail_quietly host auth_id))"

text \<open>It is \<open>noexcept\<close>.\<close>

lemma fail_quietly_returns: "fst (fail_quietly host auth_id s) = Inr ()"
  by (auto simp: fail_quietly_def scatch_def sret_def split: prod.split sum.split)

lemma ProcessAuthCallback_returns: "fst (ProcessAuthCallback host auth_id outcome s) = Inr ()"
  by (auto simp: ProcessAuthCallback_def scatch_def sret_def fail_quietly_returns split: prod.split sum.split)

end
