(* ===== verification/Libcurl_Transport.thy ===== *)
theory Libcurl_Transport
  imports Query_Session
begin

text \<open>
  \<open>libcurl_transport.cpp\<close>: the HTTPS transport. libcurl itself is a parameter: what each of its calls
  answers, and for a transfer the sequence of callbacks it makes with their data. The callbacks, the
  validation of the request, the configuration of the handle and the reading of the result are the
  program's.
\<close>

section \<open>Callbacks\<close>

record TransferState =
  ts_body :: byte_string
  ts_headers :: headers
  ts_limit :: u64
  ts_cleanup_request :: bool
  ts_exceeded_limit :: bool
  ts_exceeded_headers :: bool
  ts_cancelled :: bool
  ts_header_count :: u64
  ts_header_bytes :: u64

definition ContainsForbidden :: "byte_string \<Rightarrow> bool" where
  "ContainsForbidden text \<longleftrightarrow> CHR 0x0D \<in> set text \<or> CHR 0x0A \<in> set text \<or> CHR 0x00 \<in> set text"

definition SIZE_MAX :: u64 where
  "SIZE_MAX = 0xFFFFFFFFFFFFFFFF"

definition CURL_WRITEFUNC_ERROR :: u64 where
  "CURL_WRITEFUNC_ERROR = 0xFFFFFFFF"

definition WriteBody :: "byte_string \<Rightarrow> u64 \<Rightarrow> u64 \<Rightarrow> TransferState \<Rightarrow> u64 \<times> TransferState" where
  "WriteBody pointer sz count state =
     (if sz \<noteq> 0 \<and> SIZE_MAX div sz < count then (CURL_WRITEFUNC_ERROR, state\<lparr>ts_exceeded_limit := True\<rparr>)
      else let bytes = sz * count
           in if budget (ts_limit state) (size_u64 (ts_body state)) < bytes
              then (CURL_WRITEFUNC_ERROR, state\<lparr>ts_exceeded_limit := True\<rparr>)
              else (bytes, state\<lparr>ts_body := ts_body state @ take (unat bytes) pointer\<rparr>))"

text \<open>The field of a header line, where it is one that is kept.\<close>

definition header_field :: "byte_string \<Rightarrow> (byte_string \<times> byte_string) option" where
  "header_field raw =
     (let line = rev (dropWhile (\<lambda>c. c = CHR 0x0D \<or> c = CHR 0x0A) (rev raw))
      in if line = [] then None
         else case str_find_if (\<lambda>c. c = CHR '':'') line of
                None \<Rightarrow> None
              | Some colon \<Rightarrow>
                  if colon = 0 then None
                  else let key = lower_string (take colon line);
                           content = dropWhile (\<lambda>c. c = CHR '' '' \<or> c = CHR 0x09) (drop (colon + 1) line)
                       in if length key \<le> 256 \<and> length content \<le> 8192 then Some (key, content) else None)"

definition add_field :: "byte_string \<Rightarrow> headers \<Rightarrow> headers" where
  "add_field line m = (case header_field line of None \<Rightarrow> m | Some (k, v) \<Rightarrow> map_put k v m)"

definition WriteHeader :: "byte_string \<Rightarrow> u64 \<Rightarrow> u64 \<Rightarrow> TransferState \<Rightarrow> u64 \<times> TransferState" where
  "WriteHeader pointer sz count state =
     (if sz \<noteq> 0 \<and> SIZE_MAX div sz < count then (0, state)
      else let bytes = sz * count; line = take (unat bytes) pointer
           in if prefix ''HTTP/'' line
              then (bytes, state\<lparr>ts_headers := [], ts_header_count := 0, ts_header_bytes := 0\<rparr>)
              else if 8192 < bytes \<or> budget (64 * 1024) (ts_header_bytes state) < bytes \<or> 64 \<le> ts_header_count state
              then (0, state\<lparr>ts_exceeded_headers := True\<rparr>)
              else (bytes, state\<lparr>ts_header_bytes := ts_header_bytes state + bytes,
                                ts_header_count := ts_header_count state + 1,
                                ts_headers := add_field line (ts_headers state)\<rparr>))"

section \<open>libcurl\<close>

datatype CURLcode =
    CURLE_OK
  | CURLE_ABORTED_BY_CALLBACK
  | CURLE_PEER_FAILED_VERIFICATION
  | CURLE_SSL_CONNECT_ERROR
  | CURLE_SSL_CERTPROBLEM
  | CURLE_SSL_CACERT_BADFILE
  | CURLE_OTHER

datatype curl_event = HeaderData byte_string u64 u64 | BodyData byte_string u64 u64 | Progress

text \<open>An option of the handle: a text, a number or a list of texts. The callbacks are options too.\<close>

datatype CurlOption =
    TextOption byte_string byte_string
  | LongOption byte_string int
  | ListOption byte_string "byte_string list"
  | CallbackOption byte_string

text \<open>
  The answers of libcurl, of the environment variables and files, and of the runtime, if there is one.
  \<open>False\<close> and \<open>None\<close> are a failure; \<open>cu_perform\<close> gives the callbacks in order and the result.
\<close>

record 'w Curl =
  cu_global_init :: bool
  cu_easy_init :: "'w \<Rightarrow> bool \<times> 'w"
  cu_setopt :: "CurlOption \<Rightarrow> 'w \<Rightarrow> bool \<times> 'w"
  cu_slist_append :: "byte_string \<Rightarrow> 'w \<Rightarrow> bool \<times> 'w"
  cu_perform :: "'w \<Rightarrow> (curl_event list \<times> CURLcode) \<times> 'w"
  cu_response_code :: "'w \<Rightarrow> int option \<times> 'w"
  cu_getenv :: "byte_string \<Rightarrow> byte_string option"
  cu_readable :: "byte_string \<Rightarrow> bool"
  cu_IsCancelled :: "('w \<Rightarrow> bool \<times> 'w) option"

definition TransferProgress :: "'w Curl \<Rightarrow> TransferState \<Rightarrow> 'w \<Rightarrow> int \<times> TransferState \<times> 'w" where
  "TransferProgress curl state w =
     (if \<not> ts_cleanup_request state
      then case cu_IsCancelled curl of
             None \<Rightarrow> (0, state, w)
           | Some cancelled \<Rightarrow>
               (case cancelled w of
                  (b, w') \<Rightarrow> if b then (1, state\<lparr>ts_cancelled := True\<rparr>, w') else (0, state, w'))
      else (0, state, w))"

text \<open>The callbacks of a transfer, one after the other.\<close>

fun callbacks :: "'w Curl \<Rightarrow> curl_event list \<Rightarrow> TransferState \<Rightarrow> 'w \<Rightarrow> TransferState \<times> 'w" where
  "callbacks curl [] state w = (state, w)"
| "callbacks curl (HeaderData pointer sz count # es) state w =
     callbacks curl es (snd (WriteHeader pointer sz count state)) w"
| "callbacks curl (BodyData pointer sz count # es) state w =
     callbacks curl es (snd (WriteBody pointer sz count state)) w"
| "callbacks curl (Progress # es) state w =
     (case TransferProgress curl state w of (_, state', w') \<Rightarrow> callbacks curl es state' w')"

section \<open>Send\<close>

definition request_rejected :: exn where
  "request_rejected = invalid_argument ''Data 360 HTTPS request configuration is invalid''"

definition network_unavailable :: exn where
  "network_unavailable = runtime_error ''D360-AUTH-008 NETWORK_UNAVAILABLE''"

text \<open>The loop over the header sizes: \<open>False\<close> where it throws.\<close>

fun header_sizes_ok :: "u64 \<Rightarrow> headers \<Rightarrow> bool" where
  "header_sizes_ok used [] \<longleftrightarrow> True"
| "header_sizes_ok used ((k, v) # hs) \<longleftrightarrow>
     (let bytes = size_u64 k + size_u64 v + 4
      in if 8192 < bytes \<or> budget (64 * 1024) used < bytes then False else header_sizes_ok (used + bytes) hs)"

definition request_ok :: "HttpRequest \<Rightarrow> bool" where
  "request_ok request \<longleftrightarrow>
     \<not> (rq_follow_redirects request \<or> rq_timeout_ms request = 0 \<or> 0x7FFFFFFFFFFFFFFF < rq_timeout_ms request \<or>
        rq_max_response_bytes request = 0 \<or> 1024 * 1024 < size_u64 (rq_body request) \<or>
        \<not> prefix ''https://'' (rq_url request) \<or> ContainsForbidden (rq_url request) \<or>
        rq_method request \<noteq> ''GET'' \<and> rq_method request \<noteq> ''POST'' \<and> rq_method request \<noteq> ''DELETE'') \<and>
     list_all (\<lambda>(k, v). \<not> (k = [] \<or> ContainsForbidden k \<or> ContainsForbidden v \<or> CHR '':'' \<in> set k)) (rq_headers request) \<and>
     \<not> 64 < size_u64 (rq_headers request) \<and> header_sizes_ok 0 (rq_headers request)"

definition SystemCaBundle :: "'w Curl \<Rightarrow> byte_string option" where
  "SystemCaBundle curl =
     (let named = List.map_filter (\<lambda>name. case cu_getenv curl name of
                     None \<Rightarrow> None
                   | Some path \<Rightarrow> if path \<noteq> [] \<and> \<not> ContainsForbidden path then Some path else None)
                   [''CURL_CA_BUNDLE'', ''SSL_CERT_FILE''];
          installed = filter (cu_readable curl)
            [''/etc/ssl/certs/ca-certificates.crt'', ''/etc/pki/ca-trust/extracted/pem/tls-ca-bundle.pem'',
             ''/etc/pki/tls/certs/ca-bundle.crt'', ''/etc/ssl/ca-bundle.pem'', ''/etc/ssl/cert.pem'']
      in case named @ installed of [] \<Rightarrow> None | path # _ \<Rightarrow> Some path)"

text \<open>\<open>Check\<close>.\<close>

definition check_curl :: "('w \<Rightarrow> bool \<times> 'w) \<Rightarrow> ('w, exn, unit) sem" where
  "check_curl f w = (case f w of (ok, w') \<Rightarrow> (if ok then Inr () else Inl network_unavailable, w'))"

fun check_all :: "('a \<Rightarrow> 'w \<Rightarrow> bool \<times> 'w) \<Rightarrow> 'a list \<Rightarrow> ('w, exn, unit) sem" where
  "check_all f [] = sret ()"
| "check_all f (x # xs) = sthen (check_curl (f x)) (check_all f xs)"

definition transfer_options :: "byte_string option \<Rightarrow> HttpRequest \<Rightarrow> CurlOption list" where
  "transfer_options ca request =
     [TextOption ''CURLOPT_URL'' (rq_url request), TextOption ''CURLOPT_PROTOCOLS_STR'' ''HTTPS'',
      TextOption ''CURLOPT_REDIR_PROTOCOLS_STR'' ''HTTPS'', LongOption ''CURLOPT_FOLLOWLOCATION'' 0,
      LongOption ''CURLOPT_MAXREDIRS'' 0, LongOption ''CURLOPT_NOSIGNAL'' 1, LongOption ''CURLOPT_SSL_VERIFYPEER'' 1,
      LongOption ''CURLOPT_SSL_VERIFYHOST'' 2, TextOption ''CURLOPT_PROXY'' [],
      LongOption ''CURLOPT_CONNECTTIMEOUT_MS'' (sint (rq_timeout_ms request)),
      LongOption ''CURLOPT_TIMEOUT_MS'' (sint (rq_timeout_ms request)),
      CallbackOption ''CURLOPT_WRITEFUNCTION'', CallbackOption ''CURLOPT_WRITEDATA'',
      CallbackOption ''CURLOPT_HEADERFUNCTION'', CallbackOption ''CURLOPT_HEADERDATA'',
      LongOption ''CURLOPT_NOPROGRESS'' 0, CallbackOption ''CURLOPT_XFERINFOFUNCTION'',
      CallbackOption ''CURLOPT_XFERINFODATA''] @
     (case ca of None \<Rightarrow> [] | Some path \<Rightarrow> [TextOption ''CURLOPT_CAINFO'' path])"

definition header_lines :: "HttpRequest \<Rightarrow> byte_string list" where
  "header_lines request = ''Expect:'' # map (\<lambda>(k, v). k @ '': '' @ v) (rq_headers request)"

definition method_options :: "HttpRequest \<Rightarrow> CurlOption list" where
  "method_options request =
     (if rq_method request = ''GET'' then LongOption ''CURLOPT_HTTPGET'' 1
      else if rq_method request = ''POST'' then LongOption ''CURLOPT_POST'' 1
      else TextOption ''CURLOPT_CUSTOMREQUEST'' ''DELETE'') #
     (if rq_method request = ''POST'' \<or> rq_body request \<noteq> []
      then [TextOption ''CURLOPT_POSTFIELDS'' (rq_body request),
            LongOption ''CURLOPT_POSTFIELDSIZE_LARGE'' (sint (size_u64 (rq_body request)))]
      else [])"

definition start_transfer :: "HttpRequest \<Rightarrow> TransferState" where
  "start_transfer request =
     \<lparr>ts_body = [], ts_headers = [], ts_limit = rq_max_response_bytes request,
      ts_cleanup_request = rq_cleanup_request request, ts_exceeded_limit = False, ts_exceeded_headers = False,
      ts_cancelled = False, ts_header_count = 0, ts_header_bytes = 0\<rparr>"

text \<open>The exception a finished transfer is reported with, if any.\<close>

definition transfer_failure :: "TransferState \<Rightarrow> CURLcode \<Rightarrow> exn option" where
  "transfer_failure transfer result =
     (if ts_exceeded_limit transfer then Some (runtime_error ''Data 360 HTTPS response exceeded limit'')
      else if ts_exceeded_headers transfer then Some (runtime_error ''Data 360 HTTPS response headers exceeded limit'')
      else if ts_cancelled transfer \<or> result = CURLE_ABORTED_BY_CALLBACK then Some (runtime_error ''Data 360 query cancelled'')
      else if result = CURLE_PEER_FAILED_VERIFICATION \<or> result = CURLE_SSL_CONNECT_ERROR \<or>
              result = CURLE_SSL_CERTPROBLEM \<or> result = CURLE_SSL_CACERT_BADFILE
      then Some (runtime_error ''D360-AUTH-009 TLS_FAILURE'')
      else if result \<noteq> CURLE_OK then Some network_unavailable
      else None)"

definition configure :: "'w Curl \<Rightarrow> HttpRequest \<Rightarrow> ('w, exn, unit) sem" where
  "configure curl request =
     sthen (check_all (cu_setopt curl) (transfer_options (SystemCaBundle curl) request))
     (sthen (check_all (cu_slist_append curl) (header_lines request))
     (check_all (cu_setopt curl) (ListOption ''CURLOPT_HTTPHEADER'' (header_lines request) # method_options request)))"

definition perform :: "'w Curl \<Rightarrow> HttpRequest \<Rightarrow> ('w, exn, HttpResponse) sem" where
  "perform curl request w =
     (case cu_perform curl w of
        ((events, result), w1) \<Rightarrow>
          (case callbacks curl events (start_transfer request) w1 of
             (transfer, w2) \<Rightarrow>
               (case transfer_failure transfer result of
                  Some e \<Rightarrow> (Inl e, w2)
                | None \<Rightarrow>
                    (case cu_response_code curl w2 of
                       (None, w3) \<Rightarrow> (Inl network_unavailable, w3)
                     | (Some status, w3) \<Rightarrow>
                         (Inr \<lparr>rs_status = signed_take_bit 31 status, rs_body = ts_body transfer,
                               rs_headers = ts_headers transfer\<rparr>, w3)))))"

definition LibcurlTransport_Send :: "'w Curl \<Rightarrow> HttpRequest \<Rightarrow> ('w, exn, HttpResponse) sem" where
  "LibcurlTransport_Send curl request =
     (if \<not> request_ok request then sthrow request_rejected
      else if \<not> cu_global_init curl then sthrow network_unavailable
      else sthen (check_curl (cu_easy_init curl)) (sthen (configure curl request) (perform curl request)))"

end
