(* ===== verification/Transport_Properties.thy ===== *)
theory Transport_Properties
  imports Libcurl_Transport
begin

text \<open>
  Correctness of the transport: what a response is, as a function of the data libcurl delivered, and
  its bounds.
\<close>

section \<open>What was delivered\<close>

definition delivered :: "byte_string \<Rightarrow> u64 \<Rightarrow> u64 \<Rightarrow> byte_string" where
  "delivered pointer sz count = take (unat (sz * count)) pointer"

fun body_parts :: "curl_event list \<Rightarrow> byte_string list" where
  "body_parts [] = []"
| "body_parts (BodyData pointer sz count # es) = delivered pointer sz count # body_parts es"
| "body_parts (_ # es) = body_parts es"

fun lines_of :: "curl_event list \<Rightarrow> byte_string list" where
  "lines_of [] = []"
| "lines_of (HeaderData pointer sz count # es) = delivered pointer sz count # lines_of es"
| "lines_of (_ # es) = lines_of es"

text \<open>The header lines behind the last status line.\<close>

definition final_lines :: "byte_string list \<Rightarrow> byte_string list" where
  "final_lines ls = rev (takeWhile (\<lambda>l. \<not> prefix ''HTTP/'' l) (rev ls))"

definition fields_of :: "byte_string list \<Rightarrow> headers" where
  "fields_of ls = fold add_field ls []"

text \<open>libcurl passes as many bytes as it says, in a buffer whose size is a \<open>size_t\<close>.\<close>

fun event_sized :: "curl_event \<Rightarrow> bool" where
  "event_sized (HeaderData pointer sz count) \<longleftrightarrow> length pointer = unat sz * unat count \<and> length pointer < 2 ^ 64"
| "event_sized (BodyData pointer sz count) \<longleftrightarrow> length pointer = unat sz * unat count \<and> length pointer < 2 ^ 64"
| "event_sized Progress \<longleftrightarrow> True"

lemma final_lines_snoc:
  "final_lines (ls @ [l]) = (if prefix ''HTTP/'' l then [] else final_lines ls @ [l])"
  by (simp add: final_lines_def)

lemma sized_product:
  assumes "length pointer = unat (sz::u64) * unat count" "length pointer < 2 ^ 64"
  shows "unat (sz * count) = length pointer" "\<not> (sz \<noteq> 0 \<and> SIZE_MAX div sz < count)" "delivered pointer sz count = pointer"
proof -
  show u: "unat (sz * count) = length pointer"
    using assms by (simp add: unat_word_ariths)
  then show "delivered pointer sz count = pointer" by (simp add: delivered_def)
  show "\<not> (sz \<noteq> 0 \<and> SIZE_MAX div sz < count)"
  proof
    assume h: "sz \<noteq> 0 \<and> SIZE_MAX div sz < count"
    then have "0 < unat sz" by (simp add: word_neq_0_conv word_less_nat_alt)
    moreover have "(2 ^ 64 - 1) div unat sz < unat count"
      using h by (simp add: SIZE_MAX_def word_less_nat_alt unat_div)
    ultimately have "2 ^ 64 - 1 < unat count * unat sz" by (simp add: div_less_iff_less_mult)
    with assms show False by (simp add: mult.commute)
  qed
qed

section \<open>The callbacks\<close>

text \<open>What holds of the transfer when header lines \<open>ls\<close> and body parts \<open>bs\<close> have been delivered.\<close>

definition headers_ok :: "byte_string list \<Rightarrow> TransferState \<Rightarrow> bool" where
  "headers_ok ls st \<longleftrightarrow>
     ts_headers st = fields_of (final_lines ls) \<and> unat (ts_header_count st) = length (final_lines ls) \<and>
     unat (ts_header_bytes st) = sum_list (map length (final_lines ls)) \<and>
     length (final_lines ls) \<le> 64 \<and> sum_list (map length (final_lines ls)) \<le> 65536 \<and>
     list_all (\<lambda>l. length l \<le> 8192) (final_lines ls)"

definition transfer_ok :: "u64 \<Rightarrow> byte_string list \<Rightarrow> byte_string list \<Rightarrow> TransferState \<Rightarrow> bool" where
  "transfer_ok limit ls bs st \<longleftrightarrow>
     ts_limit st = limit \<and> length (ts_body st) \<le> unat limit \<and>
     (\<not> ts_exceeded_limit st \<longrightarrow> ts_body st = concat bs) \<and> (\<not> ts_exceeded_headers st \<longrightarrow> headers_ok ls st)"

lemma WriteBody_ok:
  assumes "transfer_ok limit ls bs st" "event_sized (BodyData pointer sz count)"
  shows "transfer_ok limit ls (bs @ [delivered pointer sz count]) (snd (WriteBody pointer sz count st))"
proof -
  have len: "length pointer = unat sz * unat count" "length pointer < 2 ^ 64" using assms(2) by simp_all
  note sized = sized_product [OF len]
  have st: "ts_limit st = limit" "length (ts_body st) \<le> unat limit" using assms(1) by (simp_all add: transfer_ok_def)
  moreover have "unat limit < 2 ^ 64" using unsigned_less [of limit] by simp
  ultimately have "unat (size_u64 (ts_body st)) = length (ts_body st)" by (intro unat_size_u64) simp
  with st sized(1) have fits: "length (ts_body st @ pointer) \<le> unat limit"
    if "\<not> budget (ts_limit st) (size_u64 (ts_body st)) < sz * count"
    using that by (simp add: not_less unat_mono_iff unat_budget)
  show ?thesis
  proof (cases "budget (ts_limit st) (size_u64 (ts_body st)) < sz * count")
    case True
    with assms(1) sized(2) show ?thesis by (auto simp: WriteBody_def transfer_ok_def headers_ok_def)
  next
    case False
    with assms(1) sized fits show ?thesis by (auto simp: WriteBody_def Let_def transfer_ok_def headers_ok_def)
  qed
qed

lemma WriteHeader_ok:
  assumes "transfer_ok limit ls bs st" "event_sized (HeaderData pointer sz count)"
  shows "transfer_ok limit (ls @ [delivered pointer sz count]) bs (snd (WriteHeader pointer sz count st))"
proof -
  have len: "length pointer = unat sz * unat count" "length pointer < 2 ^ 64" using assms(2) by simp_all
  note sized = sized_product [OF len]
  define bytes where "bytes = sz * count"
  have bytes: "unat bytes = length pointer" by (simp add: bytes_def sized)
  let ?full = "8192 < bytes \<or> budget (64 * 1024) (ts_header_bytes st) < bytes \<or> 64 \<le> ts_header_count st"
  have run: "snd (WriteHeader pointer sz count st) =
      (if prefix ''HTTP/'' pointer then st\<lparr>ts_headers := [], ts_header_count := 0, ts_header_bytes := 0\<rparr>
       else if ?full then st\<lparr>ts_exceeded_headers := True\<rparr>
       else st\<lparr>ts_header_bytes := ts_header_bytes st + bytes, ts_header_count := ts_header_count st + 1,
               ts_headers := add_field pointer (ts_headers st)\<rparr>)"
    unfolding WriteHeader_def Let_def bytes_def if_not_P [OF sized(2)] sized(3) [unfolded delivered_def]
    by (simp only: if_distrib [of snd] snd_conv)
  have grown: "headers_ok (ls @ [pointer]) (st\<lparr>ts_header_bytes := ts_header_bytes st + bytes,
      ts_header_count := ts_header_count st + 1, ts_headers := add_field pointer (ts_headers st)\<rparr>)"
    if h: "headers_ok ls st" and p: "\<not> prefix ''HTTP/'' pointer" and room: "\<not> ?full"
  proof -
    have "unat (ts_header_bytes st) \<le> 65536" using h by (simp add: headers_ok_def)
    then have "ts_header_bytes st \<le> 64 * 1024" by (simp add: word_le_nat_alt)
    note spend = budget_spend [OF _ this, of bytes]
    have "unat (ts_header_bytes st + bytes) = unat (ts_header_bytes st) + length pointer"
      "unat (ts_header_bytes st + bytes) \<le> 65536"
      using spend room by (simp_all add: not_less bytes word_le_nat_alt)
    moreover have "unat (ts_header_count st + 1) = Suc (unat (ts_header_count st))" "unat (ts_header_count st) < 64"
      using room unat_Suc_u64 [of "ts_header_count st" 64] by (simp_all add: not_le word_less_nat_alt)
    moreover have "length pointer \<le> 8192" using room bytes by (simp add: not_less word_le_nat_alt)
    ultimately show ?thesis
      using h p by (simp add: headers_ok_def final_lines_snoc fields_of_def)
  qed
  have ok: "headers_ok (ls @ [pointer]) (st\<lparr>ts_headers := [], ts_header_count := 0, ts_header_bytes := 0\<rparr>)"
    if "prefix ''HTTP/'' pointer"
    using that by (simp add: headers_ok_def final_lines_snoc fields_of_def)
  show ?thesis
    using assms(1) grown ok unfolding run sized(3) by (auto simp: transfer_ok_def)
qed

lemma Progress_ok:
  "transfer_ok limit ls bs st \<Longrightarrow> transfer_ok limit ls bs (fst (snd (TransferProgress curl st w)))"
  by (auto simp: TransferProgress_def transfer_ok_def headers_ok_def split: option.split prod.split)

lemma callbacks_ok:
  assumes "transfer_ok limit ls bs st" "list_all event_sized es"
  shows "transfer_ok limit (ls @ lines_of es) (bs @ body_parts es) (fst (callbacks curl es st w))"
  using assms
proof (induction es arbitrary: ls bs st w)
  case (Cons e es)
  show ?case
  proof (cases e)
    case (HeaderData pointer sz count)
    with Cons.IH [OF WriteHeader_ok] Cons.prems show ?thesis by simp
  next
    case (BodyData pointer sz count)
    with Cons.IH [OF WriteBody_ok] Cons.prems show ?thesis by simp
  next
    case Progress
    obtain r st' w' where p: "TransferProgress curl st w = (r, st', w')" by (metis prod_cases3)
    with Progress_ok [OF Cons.prems(1), of curl w] have "transfer_ok limit ls bs st'" by simp
    from Cons.IH [OF this] Cons.prems Progress p show ?thesis by simp
  qed
qed simp

section \<open>The response\<close>

lemma start_transfer_ok: "transfer_ok (rq_max_response_bytes request) [] [] (start_transfer request)"
  by (simp add: transfer_ok_def headers_ok_def start_transfer_def final_lines_def fields_of_def)

lemma perform_returns:
  assumes "perform curl request w = (Inr r, w')"
  obtains events w1 transfer where "fst (cu_perform curl w) = (events, CURLE_OK)"
    "transfer = fst (callbacks curl events (start_transfer request) w1)"
    "\<not> ts_exceeded_limit transfer" "\<not> ts_exceeded_headers transfer" "\<not> ts_cancelled transfer"
    "rs_body r = ts_body transfer" "rs_headers r = ts_headers transfer"
proof -
  obtain events result w1 where p: "cu_perform curl w = ((events, result), w1)" by (metis prod_cases3 surj_pair)
  obtain transfer w2 where c: "callbacks curl events (start_transfer request) w1 = (transfer, w2)" by fastforce
  have "transfer_failure transfer result = None"
    using assms p c by (auto simp: perform_def split: option.splits)
  then have "result = CURLE_OK" "\<not> ts_exceeded_limit transfer" "\<not> ts_exceeded_headers transfer" "\<not> ts_cancelled transfer"
    by (auto simp: transfer_failure_def split: if_splits)
  moreover have "rs_body r = ts_body transfer" "rs_headers r = ts_headers transfer"
    using assms p c by (auto simp: perform_def split: option.splits prod.splits)
  ultimately show thesis using that [of events transfer w1] p c by simp
qed

text \<open>
  C32. A response the transport returns is exactly what the server sent last: its body is all the
  body data delivered, in order, its headers those of the header lines behind the last status line,
  later ones replacing earlier ones of the same name. The body is within the limit of the request and
  the header lines within theirs: 64 lines, 8 KiB each, 64 KiB together. Anything over a limit, and
  any cancellation, is an exception and never a truncated response.
\<close>
theorem transport_response:
  assumes "LibcurlTransport_Send curl request w = (Inr r, w')"
    and sized: "\<And>w. list_all event_sized (fst (fst (cu_perform curl w)))"
  shows "\<exists>events w1. fst (cu_perform curl w1) = (events, CURLE_OK) \<and>
     rs_body r = concat (body_parts events) \<and> length (rs_body r) \<le> unat (rq_max_response_bytes request) \<and>
     rs_headers r = fields_of (final_lines (lines_of events)) \<and> length (final_lines (lines_of events)) \<le> 64 \<and>
     sum_list (map length (final_lines (lines_of events))) \<le> 65536 \<and>
     list_all (\<lambda>l. length l \<le> 8192) (final_lines (lines_of events))"
proof -
  obtain w1 where p: "perform curl request w1 = (Inr r, w')"
    using assms(1) by (auto simp: LibcurlTransport_Send_def run_returns split: if_splits)
  obtain events w2 transfer where e: "fst (cu_perform curl w1) = (events, CURLE_OK)"
    and t: "transfer = fst (callbacks curl events (start_transfer request) w2)"
    and flags: "\<not> ts_exceeded_limit transfer" "\<not> ts_exceeded_headers transfer"
    and r: "rs_body r = ts_body transfer" "rs_headers r = ts_headers transfer"
    using perform_returns [OF p] by metis
  have "list_all event_sized events" using sized [of w1] e by simp
  from callbacks_ok [OF start_transfer_ok this, of request curl w2]
  have "transfer_ok (rq_max_response_bytes request) (lines_of events) (body_parts events) transfer" by (simp add: t)
  with flags r have "rs_body r = concat (body_parts events)" "length (rs_body r) \<le> unat (rq_max_response_bytes request)"
    "rs_headers r = fields_of (final_lines (lines_of events))" "length (final_lines (lines_of events)) \<le> 64"
    "sum_list (map length (final_lines (lines_of events))) \<le> 65536"
    "list_all (\<lambda>l. length l \<le> 8192) (final_lines (lines_of events))"
    by (auto simp: transfer_ok_def headers_ok_def)
  with e show ?thesis by blast
qed

text \<open>A transfer with a redirected status line first and the body in two parts.\<close>

definition demo_curl :: "unit Curl" where
  "demo_curl =
     \<lparr>cu_global_init = True, cu_easy_init = (\<lambda>w. (True, w)), cu_setopt = (\<lambda>opt w. (True, w)),
      cu_slist_append = (\<lambda>l w. (True, w)),
      cu_perform = (\<lambda>w. (([HeaderData ''HTTP/1.1 100'' 1 12, HeaderData ''A: 1'' 1 4, HeaderData ''HTTP/1.1 200'' 1 12,
         HeaderData ''Content-Type: x'' 1 15, Progress, BodyData ''ab'' 1 2, BodyData ''c'' 1 1], CURLE_OK), w)),
      cu_response_code = (\<lambda>w. (Some 200, w)), cu_getenv = (\<lambda>name. None), cu_readable = (\<lambda>path. False),
      cu_IsCancelled = None\<rparr>"

definition demo_get :: HttpRequest where
  "demo_get = \<lparr>rq_method = ''GET'', rq_url = ''https://a'', rq_headers = [(''accept'', ''x'')], rq_body = [],
     rq_timeout_ms = 1000, rq_follow_redirects = False, rq_max_response_bytes = 3, rq_cleanup_request = False\<rparr>"

definition demo_got :: HttpResponse where
  "demo_got = \<lparr>rs_status = 200, rs_body = ''abc'', rs_headers = [(''content-type'', ''x'')]\<rparr>"

lemma demo_get_returns: "LibcurlTransport_Send demo_curl demo_get () = (Inr demo_got, ())"
  by code_simp

theorem transport_response_witness:
  "\<exists>events. rs_body demo_got = concat (body_parts events) \<and> rs_headers demo_got = fields_of (final_lines (lines_of events))"
proof -
  have "list_all event_sized (fst (fst (cu_perform demo_curl w)))" for w by (simp add: demo_curl_def)
  from transport_response [OF demo_get_returns this] show ?thesis by blast
qed

end
