(* ===== verification/Listener_Correct.thy ===== *)
theory Listener_Correct
  imports Loopback_Listener "HOL-Library.Multiset"
begin

text \<open>
  Correctness of the listener: no socket is lost or closed twice, whatever the operating system answers
  and whenever another thread closes, and the loops end at their deadlines.
\<close>

section \<open>The sockets\<close>

abbreviation held :: "int option \<Rightarrow> int multiset" where
  "held socket \<equiv> mset_set (set_option socket)"

text \<open>Every socket that was opened has been closed, or is held, once; \<open>extra\<close> are those in hand.\<close>

definition accounted :: "int multiset \<Rightarrow> 'w Acceptor \<Rightarrow> bool" where
  "accounted extra s \<longleftrightarrow>
     mset (ac_opened s) = mset (ac_closed s) + held (ac_listener s) + held (ac_client s) + extra"

abbreviation sockets_ok :: "'w Acceptor \<Rightarrow> bool" where
  "sockets_ok \<equiv> accounted {#}"

lemma call_run: "call f s = (Inr (fst (f (ac_world s))), s\<lparr>ac_world := snd (f (ac_world s))\<rparr>)"
  by (simp add: call_def split: prod.split)

definition world_blind :: "('w Acceptor \<Rightarrow> bool) \<Rightarrow> bool" where
  "world_blind I \<longleftrightarrow> (\<forall>s w. I (s\<lparr>ac_world := w\<rparr>) = I s)"

lemma keeps_call: "world_blind I \<Longrightarrow> keeps I (call f)"
  by (rule keepsI) (auto simp: call_run world_blind_def)

lemma accounted_blind: "world_blind (accounted extra)"
  by (simp add: world_blind_def accounted_def)

lemmas accounted_call [keeps_intros] = keeps_call [OF accounted_blind]

lemma accounted_flag [simp]: "accounted extra (s\<lparr>ac_close_requested := b\<rparr>) = accounted extra s"
  by (simp add: accounted_def)

lemma accounted_close: "accounted extra s \<Longrightarrow> accounted extra (close_sockets s)"
  by (cases "ac_listener s"; cases "ac_client s") (simp_all add: accounted_def close_sockets_def CloseSocket_def)

lemma keeps_protocol_error [keeps_intros]: "keeps I (protocol_error message)"
  unfolding protocol_error_def by (intro keeps_intros)

lemma keeps_Close [keeps_intros]: "keeps (accounted extra) Close"
  unfolding Close_def by (intro keeps_intros) (simp add: accounted_close)

lemma keeps_unlocked [keeps_intros]: "keeps (accounted extra) (unlocked env)"
  unfolding unlocked_def by (intro keeps_intros) (simp add: interfere_def accounted_close split: closing.split)

lemma keeps_locked [keeps_intros]: "keeps (accounted extra) (locked env)"
  unfolding locked_def by (intro keeps_intros) simp

lemma keeps_stop [keeps_intros]: "keeps I stop_if_closing"
  unfolding stop_if_closing_def by (intro keeps_intros)

lemma keeps_check_wait [keeps_intros]: "keeps (accounted extra) (check_wait env deadline)"
  unfolding check_wait_def by (intro keeps_intros)

text \<open>A socket in hand is stored or closed.\<close>

definition in_hand :: "int \<Rightarrow> 'w Acceptor \<Rightarrow> bool" where
  "in_hand fd s \<longleftrightarrow> accounted {#fd#} s \<and> ac_client s = None"

lemma keep_client_ok: "triple (in_hand fd) (keep_client env fd) (\<lambda>_. sockets_ok) (\<lambda>_. sockets_ok)"
  by (auto simp: triple_def keep_client_def call_run sem_defs protocol_error_def in_hand_def accounted_def CloseSocket_def)

lemma accept_ok:
  "triple (\<lambda>s. sockets_ok s \<and> ac_client s = None)
     (sbind (call (so_accept env fd)) (\<lambda>r. case r of
         AcceptAgain \<Rightarrow> sret False
       | AcceptFailed \<Rightarrow> protocol_error ''callback listener failed''
       | Accepted accepted \<Rightarrow> sthen (smodify (open_socket accepted)) (keep_client env accepted)))
     (\<lambda>_. sockets_ok) (\<lambda>_. sockets_ok)"
proof (rule triple_bind)
  show "triple (\<lambda>s. sockets_ok s \<and> ac_client s = None) (call (so_accept env fd))
      (\<lambda>_ s. sockets_ok s \<and> ac_client s = None) (\<lambda>_. sockets_ok)"
    by (simp add: triple_def call_run accounted_def)
  have stored: "triple (\<lambda>s. sockets_ok s \<and> ac_client s = None) (sthen (smodify (open_socket accepted)) (keep_client env accepted))
      (\<lambda>_. sockets_ok) (\<lambda>_. sockets_ok)" for accepted
    by (rule triple_modify_then [OF keep_client_ok]) (simp add: in_hand_def accounted_def open_socket_def)
  show "triple (\<lambda>s. sockets_ok s \<and> ac_client s = None) (case r of
         AcceptAgain \<Rightarrow> sret False
       | AcceptFailed \<Rightarrow> protocol_error ''callback listener failed''
       | Accepted accepted \<Rightarrow> sthen (smodify (open_socket accepted)) (keep_client env accepted)) (\<lambda>_. sockets_ok) (\<lambda>_. sockets_ok)" for r
    by (cases r) (simp_all add: stored, simp_all add: triple_def sem_simps protocol_error_def)
qed

lemma await_client_ok:
  fixes env :: "'w Sockets"
  shows "triple (\<lambda>s. sockets_ok s \<and> ac_client s = None) (await_client env remaining listener) (\<lambda>_. sockets_ok) (\<lambda>_. sockets_ok)"
proof -
  have calm: "triple (\<lambda>s. sockets_ok s \<and> ac_client s = None) m (\<lambda>_. sockets_ok) (\<lambda>_. sockets_ok)"
    if "keeps sockets_ok m" for m :: "('w Acceptor, callback_exn, bool) sem"
    by (rule triple_of_keeps [OF that]) simp_all
  have sel: "triple (\<lambda>s. sockets_ok s \<and> ac_client s = None) (call (so_select env fd ms))
      (\<lambda>_ s. sockets_ok s \<and> ac_client s = None) (\<lambda>_. sockets_ok)" for fd ms
    by (simp add: triple_def call_run accounted_def)
  show ?thesis
  proof (cases listener)
    case None
    then show ?thesis unfolding await_client_def by (simp add: calm keeps_intros)
  next
    case (Some fd)
    have "triple (\<lambda>s. sockets_ok s \<and> ac_client s = None) (case ready of
               WaitInterrupted \<Rightarrow> sret False
             | WaitFailed \<Rightarrow> protocol_error ''callback listener failed''
             | TimedOut \<Rightarrow> sthen (locked env) (sthen stop_if_closing (sret False))
             | Ready \<Rightarrow>
                 sbind (call (so_accept env fd)) (\<lambda>r.
                   case r of
                     AcceptAgain \<Rightarrow> sret False
                   | AcceptFailed \<Rightarrow> protocol_error ''callback listener failed''
                   | Accepted accepted \<Rightarrow> sthen (smodify (open_socket accepted)) (keep_client env accepted)))
           (\<lambda>_. sockets_ok) (\<lambda>_. sockets_ok)" for ready
      by (cases ready) (simp_all only: wait_result.case accept_ok, (rule calm, intro keeps_intros)+)
    from triple_bind [OF this sel] Some show ?thesis
      unfolding await_client_def by (simp add: calm keeps_intros)
  qed
qed

lemma keeps_accept_round [keeps_intros]: "keeps sockets_ok (accept_round env deadline)"
  unfolding keeps_def accept_round_def
proof (intro triple_keeps_bind [OF keeps_check_wait] triple_gets_bind)
  fix remaining client listener
  show "triple (\<lambda>s. (sockets_ok s \<and> ac_client s = client) \<and> ac_listener s = listener)
      (if client \<noteq> None then sret True else await_client env remaining listener) (\<lambda>_. sockets_ok) (\<lambda>_. sockets_ok)"
  proof (cases client)
    case None
    then show ?thesis by simp (rule triple_pre [OF await_client_ok], simp)
  qed (simp add: triple_def sem_simps)
qed simp_all

lemma keeps_accept_loop [keeps_intros]: "keeps sockets_ok (accept_loop fuel env deadline)"
  by (induction fuel) (auto intro!: keeps_intros)

lemma keeps_wait_result [keeps_intros]:
  "keeps I a \<Longrightarrow> keeps I b \<Longrightarrow> keeps I c \<Longrightarrow> keeps I d \<Longrightarrow>
     keeps I (case r of Ready \<Rightarrow> a | TimedOut \<Rightarrow> b | WaitInterrupted \<Rightarrow> c | WaitFailed \<Rightarrow> d)"
  by (cases r) simp_all

lemma keeps_transfer_result [keeps_intros]:
  "(\<And>x. keeps I (f x)) \<Longrightarrow> keeps I b \<Longrightarrow> keeps I c \<Longrightarrow>
     keeps I (case r of Received x \<Rightarrow> f x | RecvAgain \<Rightarrow> b | RecvEnded \<Rightarrow> c)"
  "(\<And>x. keeps I (g x)) \<Longrightarrow> keeps I d \<Longrightarrow> keeps I e \<Longrightarrow>
     keeps I (case t of Sent x \<Rightarrow> g x | SendAgain \<Rightarrow> d | SendEnded \<Rightarrow> e)"
  by (cases r; simp) (cases t; simp)

lemma keeps_read_round [keeps_intros]: "keeps (accounted extra) (read_round env deadline maximum_bytes request)"
  unfolding read_round_def by (intro keeps_intros)

lemma keeps_read_loop [keeps_intros]: "keeps (accounted extra) (read_loop fuel env deadline maximum_bytes request)"
proof (induction fuel arbitrary: request)
  case 0
  then show ?case by (subst read_loop.simps) (auto intro!: keeps_intros)
next
  case (Suc fuel)
  then show ?case by (subst read_loop.simps) (auto intro!: keeps_intros)
qed

lemma keeps_AcceptOne [keeps_intros]: "keeps sockets_ok (AcceptOne fuel env maximum_bytes timeout_ms)"
  unfolding AcceptOne_def Let_def by (intro keeps_intros)

lemma keeps_send_round [keeps_intros]: "keeps (accounted extra) (send_round env deadline rest)"
  unfolding send_round_def send_some_def Let_def by (intro keeps_intros)

lemma keeps_Respond [keeps_intros]: "keeps (accounted extra) (Respond fuel env deadline rest)"
proof (induction fuel arbitrary: rest)
  case 0
  then show ?case by (subst Respond.simps) (auto intro!: keeps_intros)
next
  case (Suc fuel)
  then show ?case by (subst Respond.simps) (auto intro!: keeps_intros)
qed

lemma keeps_wait_and_parse: "keeps sockets_ok (wait_and_parse fuel env timeout_ms)"
  unfolding wait_and_parse_def respond_within_def by (intro keeps_intros)

lemma keeps_prepare_listener: "keeps sockets_ok (prepare_listener env fd)"
proof -
  have "keeps sockets_ok (drop_listener m)" for m
    unfolding drop_listener_def
    by (intro keeps_intros) (auto simp: accounted_def CloseSocket_def split: option.split)
  then show ?thesis unfolding prepare_listener_def by (intro keeps_intros)
qed

lemma keeps_Bind [keeps_intros]: "keeps sockets_ok (Bind env address port)"
  unfolding keeps_def Bind_def
proof (intro triple_keeps_then [OF keeps_unlocked] triple_gets_bind)
  let ?free = "\<lambda>s. sockets_ok s \<and> ac_listener s = None"
  have store: "triple ?free (sthen (smodify (\<lambda>s. (open_socket fd s)\<lparr>ac_listener := Some fd\<rparr>)) (prepare_listener env fd))
      (\<lambda>_. sockets_ok) (\<lambda>_. sockets_ok)" for fd
    by (rule triple_modify_then [OF keeps_triple [OF keeps_prepare_listener]]) (simp add: accounted_def open_socket_def)
  have "triple ?free (case opened of
           None \<Rightarrow> protocol_error ''callback port unavailable''
         | Some fd \<Rightarrow>
             sthen (smodify (\<lambda>s. (open_socket fd s)\<lparr>ac_listener := Some fd\<rparr>)) (prepare_listener env fd))
      (\<lambda>_. sockets_ok) (\<lambda>_. sockets_ok)" for opened
    by (cases opened) (simp_all add: store, simp add: triple_def protocol_error_def sem_simps)
  moreover have "triple ?free (call (so_socket env)) (\<lambda>_. ?free) (\<lambda>_. sockets_ok)"
    by (simp add: triple_def call_run accounted_def)
  ultimately have run: "triple ?free (sbind (call (so_socket env)) (\<lambda>opened. case opened of
           None \<Rightarrow> protocol_error ''callback port unavailable''
         | Some fd \<Rightarrow>
             sthen (smodify (\<lambda>s. (open_socket fd s)\<lparr>ac_listener := Some fd\<rparr>)) (prepare_listener env fd)))
      (\<lambda>_. sockets_ok) (\<lambda>_. sockets_ok)"
    by (rule triple_bind)
  fix refused
  show "triple (\<lambda>s. sockets_ok s \<and>
         (address \<noteq> ''127.0.0.1'' \<or> port \<noteq> 8910 \<or> ac_close_requested s \<or> ac_listener s \<noteq> None) = refused)
      (if refused then protocol_error ''invalid loopback bind request''
       else sbind (call (so_socket env)) (\<lambda>opened. case opened of
           None \<Rightarrow> protocol_error ''callback port unavailable''
         | Some fd \<Rightarrow>
             sthen (smodify (\<lambda>s. (open_socket fd s)\<lparr>ac_listener := Some fd\<rparr>)) (prepare_listener env fd)))
      (\<lambda>_. sockets_ok) (\<lambda>_. sockets_ok)"
  proof (cases refused)
    case False
    then show ?thesis by simp (rule triple_pre [OF run], simp)
  qed (simp add: triple_def protocol_error_def sem_simps)
qed simp_all

section \<open>The deadlines\<close>

named_theorems steady_intros \<open>structural rules for steps that take no time back and do not run out of fuel\<close>

text \<open>
  The steady clock: no call turns it back, and each reading is later than the one before.
\<close>

locale socket_clock =
  fixes env :: "'w Sockets" and clock :: "'w \<Rightarrow> int"
  assumes now_reads: "clock w < fst (so_now env w)" "fst (so_now env w) \<le> clock (snd (so_now env w))"
    and cancelled_forward: "clock w \<le> clock (snd (so_cancelled env w))"
    and others_forward: "clock w \<le> clock (snd (so_others env w))"
    and select_forward: "clock w \<le> clock (snd (so_select env fd ms w))"
    and accept_forward: "clock w \<le> clock (snd (so_accept env fd w))"
    and recv_forward: "clock w \<le> clock (snd (so_recv env fd n w))"
    and send_forward: "clock w \<le> clock (snd (so_send env fd bytes w))"
    and nonblocking_forward: "clock w \<le> clock (snd (so_SetNonBlocking env fd w))"
begin

definition late :: "int \<Rightarrow> 'w Acceptor \<Rightarrow> bool" where
  "late c s \<longleftrightarrow> c \<le> clock (ac_world s)"

text \<open>A step that cannot run out of fuel and takes no time back.\<close>

definition steady :: "int \<Rightarrow> ('w Acceptor, callback_exn, 'a) sem \<Rightarrow> bool" where
  "steady c m \<longleftrightarrow> triple (late c) m (\<lambda>_. late c) (\<lambda>e _. e \<noteq> CallbackStuck)"

lemma steady_bind [steady_intros]: "steady c m \<Longrightarrow> (\<And>a. steady c (k a)) \<Longrightarrow> steady c (sbind m k)"
  unfolding steady_def by (rule triple_bind)

lemma steady_then [steady_intros]: "steady c m \<Longrightarrow> steady c n \<Longrightarrow> steady c (sthen m n)"
  unfolding steady_def by (rule triple_then)

lemma steady_call: "(\<And>w. clock w \<le> clock (snd (f w))) \<Longrightarrow> steady c (call f)"
  unfolding steady_def triple_def by (auto simp: call_run late_def intro: order_trans)

lemmas steady_calls [steady_intros] = steady_call [OF cancelled_forward] steady_call [OF others_forward]
  steady_call [OF select_forward] steady_call [OF accept_forward] steady_call [OF recv_forward]
  steady_call [OF send_forward] steady_call [OF nonblocking_forward]

lemma steady_atomic [steady_intros]:
  "steady c (sret a)" "steady c (sgets f)" "steady c (protocol_error message)" "steady c (sthrow CallbackCancelled)"
  "steady c stop_if_closing"
  by (simp_all add: steady_def triple_def sem_defs protocol_error_def stop_if_closing_def)

lemma steady_modify: "(\<And>s. ac_world (g s) = ac_world s) \<Longrightarrow> steady c (smodify g)"
  by (simp add: steady_def triple_def sem_defs late_def)

lemma steady_interference [steady_intros]: "steady c (unlocked env)" "steady c (locked env)"
proof -
  have "ac_world (interfere x s) = ac_world s" for x and s :: "'w Acceptor"
    by (simp add: interfere_def close_sockets_def CloseSocket_def split: closing.split option.split)
  then show "steady c (unlocked env)" "steady c (locked env)"
    unfolding unlocked_def locked_def by (intro steady_intros steady_modify; simp)+
qed

lemma steady_cases [steady_intros]:
  "steady c m \<Longrightarrow> steady c n \<Longrightarrow> steady c (if b then m else n)"
  "steady c n \<Longrightarrow> (\<And>x. steady c (f x)) \<Longrightarrow> steady c (case x of None \<Rightarrow> n | Some y \<Rightarrow> f y)"
  "steady c n1 \<Longrightarrow> steady c n2 \<Longrightarrow> steady c n3 \<Longrightarrow> steady c n4 \<Longrightarrow>
     steady c (case ready of Ready \<Rightarrow> n1 | TimedOut \<Rightarrow> n2 | WaitInterrupted \<Rightarrow> n3 | WaitFailed \<Rightarrow> n4)"
  "(\<And>fd. steady c (g1 fd)) \<Longrightarrow> steady c n1 \<Longrightarrow> steady c n2 \<Longrightarrow>
     steady c (case accepted of Accepted fd \<Rightarrow> g1 fd | AcceptAgain \<Rightarrow> n1 | AcceptFailed \<Rightarrow> n2)"
  "(\<And>bytes. steady c (g2 bytes)) \<Longrightarrow> steady c m1 \<Longrightarrow> steady c m2 \<Longrightarrow>
     steady c (case received of Received bytes \<Rightarrow> g2 bytes | RecvAgain \<Rightarrow> m1 | RecvEnded \<Rightarrow> m2)"
  "(\<And>n. steady c (g3 n)) \<Longrightarrow> steady c m3 \<Longrightarrow> steady c m4 \<Longrightarrow>
     steady c (case sent of Sent n \<Rightarrow> g3 n | SendAgain \<Rightarrow> m3 | SendEnded \<Rightarrow> m4)"
  by (simp_all split: option.split wait_result.split accept_result.split recv_result.split send_result.split)

text \<open>A reading of the clock is later than every earlier one.\<close>

lemma reading: "triple (late c) (call (so_now env)) (\<lambda>t s. c < t \<and> late t s) E"
  using now_reads by (auto simp: triple_def call_run late_def intro: order_le_less_trans)

text \<open>A round that comes back has read the clock before the deadline.\<close>

definition in_time :: "int \<Rightarrow> int \<Rightarrow> 'a \<Rightarrow> 'w Acceptor \<Rightarrow> bool" where
  "in_time c deadline a s \<longleftrightarrow> late (c + 1) s \<and> c < deadline"

lemma check_wait_in_time:
  "triple (late c) (check_wait env deadline) (in_time c deadline) (\<lambda>e _. e \<noteq> CallbackStuck)"
proof -
  have timed: "triple (\<lambda>s. c < t \<and> late t s) (if deadline \<le> t then protocol_error m else sthen (unlocked env) (sret r))
      (in_time c deadline) (\<lambda>e _. e \<noteq> CallbackStuck)" for t r m
  proof (cases "c < t \<and> t < deadline")
    case True
    with steady_then [OF steady_interference(1) steady_atomic(1), of t r] show ?thesis
      by simp (rule triple_conseq, unfold steady_def, assumption, auto simp: in_time_def late_def)
  next
    case False
    then show ?thesis by (auto simp: triple_def protocol_error_def sem_simps)
  qed
  have "triple (late c) (sbind (call (so_now env)) (\<lambda>now.
         if deadline \<le> now then protocol_error ''OAuth callback timed out''
         else sthen (unlocked env) (sret ((deadline - now) div ns_per_ms)))) (in_time c deadline) (\<lambda>e _. e \<noteq> CallbackStuck)"
    by (rule triple_bind [OF timed reading])
  then have "triple (late c) (if b then sthrow CallbackCancelled
       else sbind (call (so_now env)) (\<lambda>now.
         if deadline \<le> now then protocol_error ''OAuth callback timed out''
         else sthen (unlocked env) (sret ((deadline - now) div ns_per_ms)))) (in_time c deadline) (\<lambda>e _. e \<noteq> CallbackStuck)" for b
    by (cases b) (simp_all, simp add: triple_def sem_simps)
  from triple_then [OF triple_then [OF triple_bind [OF this steady_calls(1) [unfolded steady_def]]
        steady_atomic(5) [unfolded steady_def]] steady_interference(1) [unfolded steady_def]]
  show ?thesis unfolding check_wait_def .
qed

lemma then_steady:
  assumes "triple (late c) m (in_time c deadline) (\<lambda>e _. e \<noteq> CallbackStuck)" "\<And>a. steady (c + 1) (k a)"
  shows "triple (late c) (sbind m k) (in_time c deadline) (\<lambda>e _. e \<noteq> CallbackStuck)"
proof (rule triple_bind [OF _ assms(1)])
  show "triple (in_time c deadline a) (k a) (in_time c deadline) (\<lambda>e _. e \<noteq> CallbackStuck)" for a
    by (cases "c < deadline")
      (rule triple_conseq [OF assms(2) [of a, unfolded steady_def]], simp_all add: in_time_def triple_def)
qed

lemma steady_keep_client [steady_intros]: "steady c (keep_client env fd)"
  unfolding keep_client_def
  by (intro steady_intros steady_modify) (simp_all add: CloseSocket_def)

lemma accept_round_in_time:
  "triple (late c) (accept_round env deadline) (in_time c deadline) (\<lambda>e _. e \<noteq> CallbackStuck)"
  unfolding accept_round_def await_client_def
  by (intro then_steady [OF check_wait_in_time] steady_intros steady_modify) (simp add: open_socket_def)

lemma read_round_in_time:
  "triple (late c) (read_round env deadline n request) (in_time c deadline) (\<lambda>e _. e \<noteq> CallbackStuck)"
  unfolding read_round_def by (intro then_steady [OF check_wait_in_time] steady_intros)

text \<open>A loop of such rounds ends.\<close>

lemma loop_ends:
  assumes "triple (late c) m (in_time c deadline) (\<lambda>e _. e \<noteq> CallbackStuck)"
    and "\<And>a. c < deadline \<Longrightarrow> steady (c + 1) (k a)"
  shows "steady c (sbind m k)"
  unfolding steady_def
proof (rule triple_bind [OF _ assms(1)])
  show "triple (in_time c deadline a) (k a) (\<lambda>_. late c) (\<lambda>e _. e \<noteq> CallbackStuck)" for a
    by (cases "c < deadline")
      (rule triple_conseq [OF assms(2) [of a, unfolded steady_def]], simp_all add: in_time_def late_def triple_def)
qed

lemma accept_loop_ends: "nat (deadline - c) < fuel \<Longrightarrow> steady c (accept_loop fuel env deadline)"
proof (induction fuel arbitrary: c)
  case (Suc fuel)
  have "steady (c + 1) (if left then sret () else accept_loop fuel env deadline)" if "c < deadline" for left
    using Suc.prems that by (intro steady_intros Suc.IH) linarith
  then show ?case unfolding accept_loop.simps by (rule loop_ends [OF accept_round_in_time])
qed simp

lemma read_loop_ends: "nat (deadline - c) < fuel \<Longrightarrow> steady c (read_loop fuel env deadline n request)"
proof (induction fuel arbitrary: c request)
  case (Suc fuel)
  have "steady (c + 1) (read_loop fuel env deadline n request')" if "c < deadline" for request'
    using Suc.prems that by (intro Suc.IH) linarith
  then have "steady c (sbind (read_round env deadline n request) (read_loop fuel env deadline n))"
    by (rule loop_ends [OF read_round_in_time])
  then show ?case by (subst read_loop.simps) (auto intro: steady_intros)
qed simp

lemma AcceptOne_ends:
  assumes "unat timeout_ms * 1000000 < fuel"
  shows "steady c (AcceptOne fuel env n timeout_ms)"
proof -
  have loops: "steady t (sthen (accept_loop fuel env (t + uint timeout_ms * ns_per_ms))
      (read_loop fuel env (t + uint timeout_ms * ns_per_ms) n []))" for t
    using assms by (intro steady_intros accept_loop_ends read_loop_ends) (simp_all add: ns_per_ms_def nat_mult_distrib)
  have "triple (\<lambda>s. c < t \<and> late t s) (sthen (accept_loop fuel env (t + uint timeout_ms * ns_per_ms))
      (read_loop fuel env (t + uint timeout_ms * ns_per_ms) n [])) (\<lambda>_. late c) (\<lambda>e _. e \<noteq> CallbackStuck)" for t
    by (cases "c < t") (rule triple_conseq [OF loops [unfolded steady_def]], auto simp: late_def triple_def)
  from triple_bind [OF this reading] have "steady c (if refused then protocol_error m else sbind (call (so_now env)) (\<lambda>now.
      sthen (accept_loop fuel env (now + uint timeout_ms * ns_per_ms))
      (read_loop fuel env (now + uint timeout_ms * ns_per_ms) n [])))" for refused m
    by (intro steady_cases(1) steady_atomic) (simp add: steady_def)
  then show ?thesis
    unfolding AcceptOne_def Let_def by (intro steady_then steady_interference steady_atomic steady_bind [OF steady_atomic(2)])
qed

text \<open>The response: a round that goes on has read the clock before the deadline, and none throws.\<close>

lemma steady_now: "steady c (call (so_now env))"
  using now_reads by (intro steady_call) (meson order_less_imp_le order_trans)

definition going_on :: "int \<Rightarrow> int \<Rightarrow> 'a option \<Rightarrow> 'w Acceptor \<Rightarrow> bool" where
  "going_on c deadline r s \<longleftrightarrow> late c s \<and> (r \<noteq> None \<longrightarrow> in_time c deadline r s)"

lemma send_round_in_time:
  "triple (late c) (send_round env deadline rest) (going_on c deadline) (\<lambda>e _. e \<noteq> CallbackStuck)"
proof -
  have some: "steady t (sthen (unlocked env) (send_some env deadline rest))" for t
    unfolding send_some_def Let_def by (intro steady_intros steady_now)
  have "triple (\<lambda>s. c < t \<and> late t s) (if deadline \<le> t then sret None else sthen (unlocked env) (send_some env deadline rest))
      (going_on c deadline) (\<lambda>e _. e \<noteq> CallbackStuck)" for t
  proof (cases "c < t \<and> t < deadline")
    case True
    then show ?thesis
      by simp (rule triple_conseq [OF some [of t, unfolded steady_def]], auto simp: going_on_def in_time_def late_def)
  next
    case False
    then show ?thesis by (auto simp: triple_def sem_simps going_on_def late_def)
  qed
  from triple_bind [OF this reading]
  have "triple (late c) (if closing then sret None else sbind (call (so_now env)) (\<lambda>now.
         if deadline \<le> now then sret None else sthen (unlocked env) (send_some env deadline rest)))
      (going_on c deadline) (\<lambda>e _. e \<noteq> CallbackStuck)" for closing
    by (cases closing) (simp_all, simp add: triple_def sem_simps going_on_def)
  from triple_then [OF triple_bind [OF this steady_atomic(2) [unfolded steady_def]] steady_interference(1) [unfolded steady_def]]
  show ?thesis unfolding send_round_def .
qed

lemma Respond_ends: "nat (deadline - c) < fuel \<Longrightarrow> steady c (Respond fuel env deadline rest)"
proof (induction fuel arbitrary: c rest)
  case (Suc fuel)
  have later: "steady (c + 1) (Respond fuel env deadline rest')" if "c < deadline" for rest'
    using Suc.prems that by (intro Suc.IH) linarith
  have "triple (going_on c deadline r) (case r of None \<Rightarrow> sret () | Some rest' \<Rightarrow> Respond fuel env deadline rest')
      (\<lambda>_. late c) (\<lambda>e _. e \<noteq> CallbackStuck)" for r
  proof (cases "r \<noteq> None \<and> c < deadline")
    case True
    then obtain rest' where r: "r = Some rest'" by auto
    from True show ?thesis
      by (simp add: r) (rule triple_conseq [OF later [of rest', unfolded steady_def]], auto simp: going_on_def in_time_def late_def)
  next
    case False
    then show ?thesis by (cases r) (auto simp: triple_def sem_simps going_on_def in_time_def)
  qed
  from triple_bind [OF this send_round_in_time]
  have "steady c (sbind (send_round env deadline rest) (\<lambda>r. case r of None \<Rightarrow> sret () | Some rest' \<Rightarrow> Respond fuel env deadline rest'))"
    unfolding steady_def .
  then show ?case by (subst Respond.simps) (auto intro: steady_intros)
qed simp

lemma wait_and_parse_ends:
  assumes "unat timeout_ms * 1000000 < fuel" "250000000 < fuel"
  shows "steady c (wait_and_parse fuel env timeout_ms)"
proof -
  have "triple (\<lambda>s. c < t \<and> late t s) (Respond fuel env (t + RESPONSE_DEADLINE_MS * ns_per_ms) response)
      (\<lambda>_. late c) (\<lambda>e _. e \<noteq> CallbackStuck)" for t response
  proof (cases "c < t")
    case True
    have "steady t (Respond fuel env (t + RESPONSE_DEADLINE_MS * ns_per_ms) response)"
      using assms(2) by (intro Respond_ends) (simp add: RESPONSE_DEADLINE_MS_def ns_per_ms_def)
    with True show ?thesis by (simp add: steady_def) (rule triple_conseq, assumption, auto simp: late_def)
  qed (simp add: triple_def)
  from triple_bind [OF this reading] have "steady c (respond_within fuel env response)" for response
    unfolding steady_def respond_within_def .
  then have "steady c (case r of Inl message \<Rightarrow> protocol_error message
      | Inr result \<Rightarrow> sthen (respond_within fuel env (if cb_status result = CODE_RECEIVED then SuccessResponse else FailureResponse))
             (sret result))" for r
    by (cases r) (simp_all add: steady_intros)
  then show ?thesis
    unfolding wait_and_parse_def by (intro steady_bind [OF AcceptOne_ends [OF assms(1)]])
qed

end

text \<open>
  The operating system of a process with a steady clock: any sockets, with the time in nanoseconds that
  each call takes; reading the clock takes at least one.
\<close>

record 'r ClockedWorld =
  cw_ns :: int
  cw_rest :: 'r

definition clocked :: "('r \<Rightarrow> nat) \<Rightarrow> ('r \<Rightarrow> 'a \<times> 'r) \<Rightarrow> 'r ClockedWorld \<Rightarrow> 'a \<times> 'r ClockedWorld" where
  "clocked taken act w =
     (case act (cw_rest w) of (a, r) \<Rightarrow> (a, w\<lparr>cw_ns := cw_ns w + int (taken (cw_rest w)), cw_rest := r\<rparr>))"

definition steady_now :: "('r \<Rightarrow> nat) \<Rightarrow> 'r ClockedWorld \<Rightarrow> int \<times> 'r ClockedWorld" where
  "steady_now taken w = (let t = cw_ns w + 1 + int (taken (cw_rest w)) in (t, w\<lparr>cw_ns := t\<rparr>))"

definition clocked_sockets :: "('r \<Rightarrow> nat) \<Rightarrow> 'r Sockets \<Rightarrow> 'r ClockedWorld Sockets" where
  "clocked_sockets taken os =
     \<lparr>so_socket = clocked taken (so_socket os), so_SetNonBlocking = (\<lambda>fd. clocked taken (so_SetNonBlocking os fd)),
      so_setsockopt = (\<lambda>fd. clocked taken (so_setsockopt os fd)),
      so_bind_and_listen = (\<lambda>fd. clocked taken (so_bind_and_listen os fd)),
      so_select = (\<lambda>fd ms. clocked taken (so_select os fd ms)), so_accept = (\<lambda>fd. clocked taken (so_accept os fd)),
      so_recv = (\<lambda>fd n. clocked taken (so_recv os fd n)), so_send = (\<lambda>fd bytes. clocked taken (so_send os fd bytes)),
      so_now = steady_now taken, so_cancelled = clocked taken (so_cancelled os), so_others = clocked taken (so_others os)\<rparr>"

interpretation sockets: socket_clock "clocked_sockets taken os" cw_ns
  by unfold_locales (simp_all add: clocked_sockets_def steady_now_def Let_def clocked_def split: prod.split)

section \<open>What is read\<close>

definition returns_only :: "('a \<Rightarrow> bool) \<Rightarrow> ('s, 'e, 'a) sem \<Rightarrow> bool" where
  "returns_only Q m \<longleftrightarrow> (\<forall>s r s'. m s = (Inr r, s') \<longrightarrow> Q r)"

lemma returns_bind: "returns_only R m \<Longrightarrow> (\<And>a. R a \<Longrightarrow> returns_only Q (k a)) \<Longrightarrow> returns_only Q (sbind m k)"
  unfolding returns_only_def sbind_returns by blast

lemma returns_any: "(\<And>a. returns_only Q (k a)) \<Longrightarrow> returns_only Q (sbind m k)"
  by (auto simp: returns_only_def sbind_returns)

lemma returns_then: "returns_only Q n \<Longrightarrow> returns_only Q (sthen m n)"
  unfolding sthen_def by (rule returns_any)

lemma returns_atomic: "Q a \<Longrightarrow> returns_only Q (sret a)" "returns_only Q (sthrow e)" "returns_only Q (protocol_error message)"
  by (simp_all add: returns_only_def atomic_returns protocol_error_def)

lemma returns_cases:
  "(b \<Longrightarrow> returns_only Q m) \<Longrightarrow> (\<not> b \<Longrightarrow> returns_only Q n) \<Longrightarrow> returns_only Q (if b then m else n)"
  "returns_only Q n \<Longrightarrow> (\<And>y. returns_only Q (f y)) \<Longrightarrow> returns_only Q (case x of None \<Rightarrow> n | Some y \<Rightarrow> f y)"
  "returns_only Q n1 \<Longrightarrow> returns_only Q n2 \<Longrightarrow> returns_only Q n3 \<Longrightarrow> returns_only Q n4 \<Longrightarrow>
     returns_only Q (case ready of Ready \<Rightarrow> n1 | TimedOut \<Rightarrow> n2 | WaitInterrupted \<Rightarrow> n3 | WaitFailed \<Rightarrow> n4)"
  "(\<And>bytes. returns_only Q (g bytes)) \<Longrightarrow> returns_only Q m1 \<Longrightarrow> returns_only Q m2 \<Longrightarrow>
     returns_only Q (case received of Received bytes \<Rightarrow> g bytes | RecvAgain \<Rightarrow> m1 | RecvEnded \<Rightarrow> m2)"
  by (simp_all split: option.split wait_result.split recv_result.split)

lemma read_round_bounded:
  "length request \<le> n \<Longrightarrow> returns_only (\<lambda>r. length r \<le> n) (read_round env deadline n request)"
  unfolding read_round_def
  by (intro returns_any returns_cases returns_then returns_atomic) simp_all

lemma read_loop_bounded:
  "length request \<le> n \<Longrightarrow> returns_only (\<lambda>r. length r \<le> n) (read_loop fuel env deadline n request)"
proof (induction fuel arbitrary: request)
  case 0
  then show ?case by (subst read_loop.simps) (simp add: returns_atomic)
next
  case (Suc fuel)
  from returns_bind [OF read_round_bounded [OF Suc.prems] Suc.IH] Suc.prems show ?case
    by (subst read_loop.simps) (simp add: returns_atomic)
qed

lemma AcceptOne_bounded: "returns_only (\<lambda>r. length r \<le> n) (AcceptOne fuel env n timeout_ms)"
  unfolding AcceptOne_def Let_def
  by (intro returns_then returns_any returns_cases returns_atomic read_loop_bounded) simp

lemma wait_and_parse_returns:
  "returns_only (\<lambda>result. \<exists>request. length request \<le> 8192 \<and> ParseOAuthCallbackRequest request = Inr result)
     (wait_and_parse fuel env timeout_ms)"
  unfolding wait_and_parse_def
proof (rule returns_bind [OF AcceptOne_bounded])
  fix request :: byte_string assume "length request \<le> MAX_CALLBACK_REQUEST_BYTES"
  then show "returns_only (\<lambda>result. \<exists>request. length request \<le> 8192 \<and> ParseOAuthCallbackRequest request = Inr result)
      (case ParseOAuthCallbackRequest request of Inl message \<Rightarrow> protocol_error message
       | Inr result \<Rightarrow>
           sthen (respond_within fuel env (if cb_status result = CODE_RECEIVED then SuccessResponse else FailureResponse))
             (sret result))"
    by (cases "ParseOAuthCallbackRequest request")
      (auto simp: MAX_CALLBACK_REQUEST_BYTES_def intro!: returns_then returns_atomic)
qed

end
