(* ===== verification/Listener_Properties.thy ===== *)
theory Listener_Properties
  imports Listener_Correct
begin











end
