(* ===== verification/Arrow_Reader.thy ===== *)
theory Arrow_Reader
  imports Type_Mapping
begin

text \<open>
  \<open>arrow_ipc_chunk_reader.cpp\<close>: the reader of one Arrow stream. nanoarrow, which decodes the stream,
  and DuckDB's conversion of a slice of a record batch are parameters; what they are given and what is
  made of their answers is the program's. The output vector is the list of its rows.
\<close>

section \<open>The body as an input stream\<close>

record BodyInputState =
  bi_body :: byte_string
  bi_offset :: nat

definition InitBodyInput :: "byte_string \<Rightarrow> BodyInputState" where
  "InitBodyInput body = \<lparr>bi_body = body, bi_offset = 0\<rparr>"

text \<open>\<open>None\<close> is \<open>EINVAL\<close>.\<close>

definition ReadBody :: "int \<Rightarrow> BodyInputState \<Rightarrow> (byte_string \<times> BodyInputState) option" where
  "ReadBody requested state =
     (if requested < 0 then None
      else let n = min (nat requested) (length (bi_body state) - bi_offset state)
           in Some (take n (drop (bi_offset state) (bi_body state)), state\<lparr>bi_offset := bi_offset state + n\<rparr>))"

text \<open>Whatever sizes are asked for, the pieces are the body from the start, and nothing is skipped.\<close>

fun read_pieces :: "int list \<Rightarrow> BodyInputState \<Rightarrow> (byte_string list \<times> BodyInputState) option" where
  "read_pieces [] state = Some ([], state)"
| "read_pieces (n # ns) state =
     (case ReadBody n state of
        None \<Rightarrow> None
      | Some (piece, state') \<Rightarrow>
          (case read_pieces ns state' of None \<Rightarrow> None | Some (pieces, final) \<Rightarrow> Some (piece # pieces, final)))"

lemma read_pieces_prefix:
  assumes "read_pieces ns state = Some (pieces, final)" "bi_offset state \<le> length (bi_body state)"
  shows "bi_body final = bi_body state \<and> bi_offset final \<le> length (bi_body state) \<and>
    take (bi_offset state) (bi_body state) @ concat pieces = take (bi_offset final) (bi_body state)"
  using assms
proof (induction ns arbitrary: state pieces)
  case (Cons n ns)
  define m where "m = min (nat n) (length (bi_body state) - bi_offset state)"
  from Cons.prems obtain rest where s: "read_pieces ns (state\<lparr>bi_offset := bi_offset state + m\<rparr>) = Some (rest, final)"
    "pieces = take m (drop (bi_offset state) (bi_body state)) # rest"
    by (auto simp: ReadBody_def Let_def m_def split: if_splits option.splits)
  have "m \<le> length (bi_body state) - bi_offset state" by (simp add: m_def)
  with Cons.prems(2) have "bi_offset state + m \<le> length (bi_body state)" by linarith
  with Cons.IH [OF s(1)] s(2) show ?case by (simp add: take_add)
qed simp

section \<open>The libraries\<close>

text \<open>A call for the next record batch: it fails, ends having read so much of the body, or gives one.\<close>

datatype 'a arrow_next = NextFailed | NextEnded nat | NextBatch 'a

record ('a, 'v) ArrowLib =
  al_schema :: "byte_string \<Rightarrow> ArrowSchema option"
  al_types :: "ArrowSchema \<Rightarrow> LogicalType list option"
  al_next :: "byte_string \<Rightarrow> nat \<Rightarrow> 'a arrow_next"
  al_length :: "'a \<Rightarrow> int"
  al_n_children :: "'a \<Rightarrow> int"
  al_slice :: "'a \<Rightarrow> nat \<Rightarrow> nat \<Rightarrow> 'v list option"

datatype arrow_exn = InvalidArrow | ArrowOutOfFuel

section \<open>The reader\<close>

text \<open>\<open>rd_calls\<close> is the state of the stream: how many batches were asked for.\<close>

record 'a ArrowReader =
  rd_body :: byte_string
  rd_width :: nat
  rd_types :: "LogicalType list"
  rd_calls :: nat
  rd_current :: "'a option"
  rd_offset :: nat
  rd_eos :: bool

definition ArrowIpcChunkReader ::
  "('a, 'v) ArrowLib \<Rightarrow> byte_string \<Rightarrow> byte_string \<Rightarrow> ExpectedArrowField list \<Rightarrow> u64 \<Rightarrow> arrow_exn + 'a ArrowReader" where
  "ArrowIpcChunkReader lib content_type body expected max_body_bytes =
     (if \<not> IsArrowMediaType content_type \<or> body = [] \<or> max_body_bytes < size_u64 body \<or> 0x7FFFFFFFFFFFFFFF < size_u64 body
      then Inl InvalidArrow
      else case al_schema lib body of
             None \<Rightarrow> Inl InvalidArrow
           | Some schema \<Rightarrow>
               if \<not> ValidateSchema schema expected then Inl InvalidArrow
               else case al_types lib schema of
                      None \<Rightarrow> Inl InvalidArrow
                    | Some types \<Rightarrow>
                        Inr \<lparr>rd_body = body, rd_width = length expected, rd_types = types, rd_calls = 0,
                             rd_current = None, rd_offset = 0, rd_eos = False\<rparr>)"

definition batch_ok :: "('a, 'v) ArrowLib \<Rightarrow> nat \<Rightarrow> 'a \<Rightarrow> bool" where
  "batch_ok lib width a \<longleftrightarrow> \<not> (al_length lib a < 0 \<or> al_n_children lib a < 0 \<or> nat (al_n_children lib a) \<noteq> width)"

definition LoadBatch :: "('a, 'v) ArrowLib \<Rightarrow> ('a ArrowReader, arrow_exn, bool) sem" where
  "LoadBatch lib =
     sbind (sgets (\<lambda>s. al_next lib (rd_body s) (rd_calls s))) (\<lambda>next.
     sthen (smodify (\<lambda>s. s\<lparr>rd_current := None, rd_calls := rd_calls s + 1\<rparr>))
     (case next of
        NextFailed \<Rightarrow> sthrow InvalidArrow
      | NextEnded offset \<Rightarrow>
          sthen (sguard (\<lambda>s. offset \<noteq> length (rd_body s)) InvalidArrow)
          (sthen (smodify (\<lambda>s. s\<lparr>rd_eos := True\<rparr>)) (sret False))
      | NextBatch a \<Rightarrow>
          sthen (sguard (\<lambda>s. \<not> batch_ok lib (rd_width s) a) InvalidArrow)
          (sthen (smodify (\<lambda>s. s\<lparr>rd_current := Some a, rd_offset := 0\<rparr>)) (sret True))))"

text \<open>Whether there is a batch to take rows from, loading the next one where the current one is used up.\<close>

definition more_rows :: "('a, 'v) ArrowLib \<Rightarrow> ('a ArrowReader, arrow_exn, bool) sem" where
  "more_rows lib =
     sbind (sgets (\<lambda>s. case rd_current s of None \<Rightarrow> True | Some a \<Rightarrow> nat (al_length lib a) \<le> rd_offset s)) (\<lambda>load.
       if load then LoadBatch lib else sret True)"

text \<open>The next rows of the current batch, as many as there is room for; with their number.\<close>

definition take_rows :: "('a, 'v) ArrowLib \<Rightarrow> nat \<Rightarrow> ('a ArrowReader, arrow_exn, nat \<times> 'v list) sem" where
  "take_rows lib room =
     sbind (sgets (\<lambda>s. (rd_current s, rd_offset s))) (\<lambda>(current, offset).
       case current of
         None \<Rightarrow> sthrow InvalidArrow
       | Some a \<Rightarrow>
           let n = min (nat (al_length lib a) - offset) room
           in (case al_slice lib a offset n of
                 None \<Rightarrow> sthrow InvalidArrow
               | Some rows \<Rightarrow> sthen (smodify (\<lambda>s. s\<lparr>rd_offset := offset + n\<rparr>)) (sret (n, rows))))"

fun fill_vector :: "('a, 'v) ArrowLib \<Rightarrow> nat \<Rightarrow> nat \<Rightarrow> nat \<Rightarrow> 'v list \<Rightarrow> ('a ArrowReader, arrow_exn, nat \<times> 'v list) sem" where
  "fill_vector lib capacity fuel output_count output =
     (if output_count < capacity
      then case fuel of
             0 \<Rightarrow> sthrow ArrowOutOfFuel
           | Suc fuel' \<Rightarrow>
               sbind (more_rows lib) (\<lambda>more.
                 if \<not> more then sret (output_count, output)
                 else sbind (take_rows lib (capacity - output_count)) (\<lambda>(n, rows).
                        fill_vector lib capacity fuel' (output_count + n) (output @ rows)))
      else sret (output_count, output))"

declare fill_vector.simps [simp del]

text \<open>\<open>None\<close> is the result \<open>false\<close>.\<close>

definition ReaderNext :: "('a, 'v) ArrowLib \<Rightarrow> nat \<Rightarrow> nat \<Rightarrow> ('a ArrowReader, arrow_exn, 'v list option) sem" where
  "ReaderNext lib capacity fuel =
     sbind (sgets rd_eos) (\<lambda>eos.
       if eos then sret None
       else sbind (fill_vector lib capacity fuel 0 []) (\<lambda>(output_count, output).
              sret (if output_count \<noteq> 0 then Some output else None)))"

end
