(* ===== verification/Arrow_Scan.thy ===== *)
theory Arrow_Scan
  imports Arrow_Reader Scan_Runtime
begin

text \<open>
  \<open>ArrowScanSource\<close> of \<open>data360_extension.cpp\<close>: each chunk of a numbered query is read once to validate
  it and to count its rows, reported to the cursor, and read again to deliver them.
\<close>

datatype arrow_scan_exn = CursorError exn | ArrowError arrow_exn | ArrowInput byte_string

fun content_types :: "headers \<Rightarrow> byte_string \<Rightarrow> byte_string option" where
  "content_types [] result = Some result"
| "content_types ((k, v) # hs) result =
     (if lower_string k \<noteq> ''content-type'' then content_types hs result
      else if result \<noteq> [] then None
      else content_types hs v)"

definition ArrowContentType :: "HttpResponse \<Rightarrow> byte_string option" where
  "ArrowContentType response =
     (case content_types (rs_headers response) [] of
        None \<Rightarrow> None
      | Some result \<Rightarrow> if result = [] then None else Some result)"

definition MAX_ARROW_BODY :: u64 where
  "MAX_ARROW_BODY = 64 * 1024 * 1024"

text \<open>The first pass: the number of rows.\<close>

fun count_rows :: "('a, 'v) ArrowLib \<Rightarrow> nat \<Rightarrow> nat \<Rightarrow> nat \<Rightarrow> u64 \<Rightarrow> ('a ArrowReader, arrow_scan_exn, u64) sem" where
  "count_rows lib capacity fuel rounds validated_rows =
     (case rounds of
        0 \<Rightarrow> sthrow (ArrowError ArrowOutOfFuel)
      | Suc rounds' \<Rightarrow>
          sbind (scatch (ReaderNext lib capacity fuel) (\<lambda>e. sthrow (ArrowError e))) (\<lambda>r.
            case r of
              None \<Rightarrow> sret validated_rows
            | Some discarded \<Rightarrow>
                if 0xFFFFFFFFFFFFFFFF - size_u64 discarded < validated_rows
                then sthrow (ArrowInput ''Data 360 Arrow response exceeded configured limits'')
                else count_rows lib capacity fuel rounds' (validated_rows + size_u64 discarded)))"

declare count_rows.simps [simp del]

definition open_reader ::
  "('a, 'v) ArrowLib \<Rightarrow> byte_string \<Rightarrow> byte_string \<Rightarrow> ExpectedArrowField list \<Rightarrow> LogicalType list \<Rightarrow>
     arrow_scan_exn + 'a ArrowReader" where
  "open_reader lib content_type body expected types =
     (case ArrowIpcChunkReader lib content_type body expected MAX_ARROW_BODY of
        Inl e \<Rightarrow> Inl (ArrowError e)
      | Inr reader \<Rightarrow>
          if rd_types reader \<noteq> types then Inl (ArrowInput ''Data 360 Arrow result schema changed'') else Inr reader)"

text \<open>What is done with a response: the number of its rows and the reader that will deliver them.\<close>

definition validate_chunk ::
  "('a, 'v) ArrowLib \<Rightarrow> nat \<Rightarrow> nat \<Rightarrow> nat \<Rightarrow> ExpectedArrowField list \<Rightarrow> LogicalType list \<Rightarrow> HttpResponse \<Rightarrow>
     arrow_scan_exn + u64 \<times> 'a ArrowReader" where
  "validate_chunk lib capacity fuel rounds expected types response =
     (case ArrowContentType response of
        None \<Rightarrow> Inl (ArrowInput ''Data 360 Arrow response headers were invalid'')
      | Some content_type \<Rightarrow>
          ebind (open_reader lib content_type (rs_body response) expected types) (\<lambda>validator.
          ebind (fst (count_rows lib capacity fuel rounds 0 validator)) (\<lambda>validated_rows.
          ebind (open_reader lib content_type (rs_body response) expected types) (\<lambda>reader.
            Inr (validated_rows, reader)))))"

record ('w, 'a) ArrowScan =
  sn_machine :: "'w Machine"
  sn_reader :: "'a ArrowReader option"

definition on_cursor :: "('w Machine, exn, 'b) sem \<Rightarrow> (('w, 'a) ArrowScan, arrow_scan_exn, 'b) sem" where
  "on_cursor m s =
     (case m (sn_machine s) of
        (Inl e, s') \<Rightarrow> (Inl (CursorError e), s\<lparr>sn_machine := s'\<rparr>)
      | (Inr b, s') \<Rightarrow> (Inr b, s\<lparr>sn_machine := s'\<rparr>))"

text \<open>The rows of the current reader, if it has any left; a used-up reader is dropped.\<close>

definition next_vector :: "('a, 'v) ArrowLib \<Rightarrow> nat \<Rightarrow> nat \<Rightarrow> (('w, 'a) ArrowScan, arrow_scan_exn, 'v list option) sem" where
  "next_vector lib capacity fuel s =
     (case sn_reader s of
        None \<Rightarrow> (Inr None, s)
      | Some reader \<Rightarrow>
          (case ReaderNext lib capacity fuel reader of
             (Inl e, r') \<Rightarrow> (Inl (ArrowError e), s\<lparr>sn_reader := Some r'\<rparr>)
           | (Inr None, r') \<Rightarrow> (Inr None, s\<lparr>sn_reader := None\<rparr>)
           | (Inr (Some rows), r') \<Rightarrow> (Inr (Some rows), s\<lparr>sn_reader := Some r'\<rparr>)))"

definition accept_chunk ::
  "('a, 'v) ArrowLib \<Rightarrow> 'w QueryEnv \<Rightarrow> nat \<Rightarrow> nat \<Rightarrow> nat \<Rightarrow> ExpectedArrowField list \<Rightarrow> LogicalType list \<Rightarrow> HttpResponse \<Rightarrow>
     (('w, 'a) ArrowScan, arrow_scan_exn, unit) sem" where
  "accept_chunk lib env capacity fuel rounds expected types response =
     (case validate_chunk lib capacity fuel rounds expected types response of
        Inl e \<Rightarrow> sthrow e
      | Inr (validated_rows, reader) \<Rightarrow>
          sthen (on_cursor (ReportArrowChunk env validated_rows)) (smodify (\<lambda>s. s\<lparr>sn_reader := Some reader\<rparr>)))"

text \<open>\<open>None\<close> is the result \<open>false\<close>: the end of the results.\<close>

fun ArrowScanNext ::
  "('a, 'v) ArrowLib \<Rightarrow> 'w QueryEnv \<Rightarrow> nat \<Rightarrow> nat \<Rightarrow> nat \<Rightarrow> ExpectedArrowField list \<Rightarrow> LogicalType list \<Rightarrow>
     (('w, 'a) ArrowScan, arrow_scan_exn, 'v list option) sem" where
  "ArrowScanNext lib env capacity fuel 0 expected types = sthrow (ArrowError ArrowOutOfFuel)"
| "ArrowScanNext lib env capacity fuel (Suc rounds) expected types =
     sbind (next_vector lib capacity fuel) (\<lambda>r.
       case r of
         Some rows \<Rightarrow> sret (Some rows)
       | None \<Rightarrow>
           sbind (on_cursor (NextArrowChunk env)) (\<lambda>fetched.
             case fetched of
               None \<Rightarrow> sret None
             | Some response \<Rightarrow>
                 sthen (accept_chunk lib env capacity fuel rounds expected types response)
                   (ArrowScanNext lib env capacity fuel rounds expected types)))"

section \<open>What a reader delivers\<close>

text \<open>The record batches of a stream, from the \<open>i\<close>-th on, where it ends with the body and all are well formed.\<close>

inductive stream :: "('a, 'v) ArrowLib \<Rightarrow> byte_string \<Rightarrow> nat \<Rightarrow> nat \<Rightarrow> 'a list \<Rightarrow> bool" for lib body width where
  stream_end: "al_next lib body i = NextEnded (length body) \<Longrightarrow> stream lib body width i []"
| stream_batch: "al_next lib body i = NextBatch a \<Longrightarrow> batch_ok lib width a \<Longrightarrow> stream lib body width (Suc i) as \<Longrightarrow>
    stream lib body width i (a # as)"

text \<open>The conversion of a slice gives the rows of that slice.\<close>

definition slices :: "('a, 'v) ArrowLib \<Rightarrow> ('a \<Rightarrow> 'v list) \<Rightarrow> bool" where
  "slices lib rows_of \<longleftrightarrow> (\<forall>a. length (rows_of a) = nat (al_length lib a)) \<and>
     (\<forall>a offset n rows. al_slice lib a offset n = Some rows \<longrightarrow> rows = take n (drop offset (rows_of a)))"

definition coming :: "('a, 'v) ArrowLib \<Rightarrow> ('a \<Rightarrow> 'v list) \<Rightarrow> 'a ArrowReader \<Rightarrow> 'v list \<Rightarrow> bool" where
  "coming lib rows_of s rows \<longleftrightarrow>
     (if rd_eos s then rows = []
      else \<exists>as. stream lib (rd_body s) (rd_width s) (rd_calls s) as \<and>
           rows = (case rd_current s of None \<Rightarrow> [] | Some a \<Rightarrow> drop (rd_offset s) (rows_of a)) @ concat (map rows_of as))"

lemma more_rows_coming:
  assumes "more_rows lib s = (Inr found, s')" "\<not> rd_eos s" "slices lib rows_of"
  shows "rd_eos s' = (\<not> found)" "found \<Longrightarrow> rd_current s' \<noteq> None"
    "coming lib rows_of s' rows \<Longrightarrow> coming lib rows_of s rows"
proof -
  have used: "rd_current s = Some a \<Longrightarrow> nat (al_length lib a) \<le> rd_offset s \<Longrightarrow> drop (rd_offset s) (rows_of a) = []" for a
    using assms(3) by (simp add: slices_def)
  show "rd_eos s' = (\<not> found)" "found \<Longrightarrow> rd_current s' \<noteq> None"
    using assms(1,2)
    by (auto simp: more_rows_def LoadBatch_def run_returns split: option.splits if_splits arrow_next.splits)
  show "coming lib rows_of s rows" if "coming lib rows_of s' rows"
  proof (cases "case rd_current s of None \<Rightarrow> True | Some a \<Rightarrow> nat (al_length lib a) \<le> rd_offset s")
    case False
    with assms(1) have "s' = s" by (simp add: more_rows_def atomic_returns split: option.splits)
    with that show ?thesis by simp
  next
    case True
    then have none: "(case rd_current s of None \<Rightarrow> [] | Some a \<Rightarrow> drop (rd_offset s) (rows_of a)) = []"
      using used by (auto split: option.splits)
    from True assms(1) have load: "LoadBatch lib s = (Inr found, s')" by (simp add: more_rows_def)
    show ?thesis
    proof (cases "al_next lib (rd_body s) (rd_calls s)")
      case NextFailed
      with load show ?thesis by (simp add: LoadBatch_def run_returns)
    next
      case (NextEnded offset)
      with load have "offset = length (rd_body s)" "rd_eos s'" by (auto simp: LoadBatch_def run_returns)
      with that NextEnded none assms(2) show ?thesis by (auto simp: coming_def intro: stream_end)
    next
      case (NextBatch a)
      with load have s': "s' = s\<lparr>rd_current := Some a, rd_calls := rd_calls s + 1, rd_offset := 0\<rparr>"
        and ok: "batch_ok lib (rd_width s) a" by (auto simp: LoadBatch_def run_returns)
      from that assms(2) obtain as where "stream lib (rd_body s) (rd_width s) (Suc (rd_calls s)) as"
        "rows = rows_of a @ concat (map rows_of as)" by (auto simp: s' coming_def)
      with stream_batch [OF NextBatch ok] none assms(2) show ?thesis
        unfolding coming_def by (intro if_not_P [THEN iffD2] exI [of _ "a # as"]) auto
    qed
  qed
qed

lemma take_rows_coming:
  assumes "take_rows lib room s = (Inr (n, out), s')" "\<not> rd_eos s" "slices lib rows_of"
  shows "\<not> rd_eos s'" "length out = n" "n \<le> room" "coming lib rows_of s' rows \<Longrightarrow> coming lib rows_of s (out @ rows)"
proof -
  from assms(1) obtain a where a: "rd_current s = Some a" and n: "n = min (nat (al_length lib a) - rd_offset s) room"
    and slice: "al_slice lib a (rd_offset s) n = Some out" and s': "s' = s\<lparr>rd_offset := rd_offset s + n\<rparr>"
    by (auto simp: take_rows_def Let_def run_returns split: option.splits)
  have out: "out = take n (drop (rd_offset s) (rows_of a))" "length (rows_of a) = nat (al_length lib a)"
    using slice assms(3) by (auto simp: slices_def)
  show "\<not> rd_eos s'" using assms(2) by (simp add: s')
  show "length out = n" using out by (simp add: n)
  show "n \<le> room" by (simp add: n)
  have "out @ drop (rd_offset s + n) (rows_of a) = drop (rd_offset s) (rows_of a)"
    using append_take_drop_id [of n "drop (rd_offset s) (rows_of a)"] by (simp add: out(1) add.commute)
  then show "coming lib rows_of s (out @ rows)" if "coming lib rows_of s' rows"
    using that a assms(2) by (force simp: coming_def s')
qed

lemma fill_vector_coming:
  assumes "fill_vector lib capacity fuel (length out) out s = (Inr (n, out'), s')" "\<not> rd_eos s" "slices lib rows_of"
    "length out \<le> capacity"
  shows "\<exists>new. out' = out @ new \<and> n = length out' \<and> n \<le> capacity \<and> (n < capacity \<longrightarrow> rd_eos s') \<and>
     (\<forall>rows. coming lib rows_of s' rows \<longrightarrow> coming lib rows_of s (new @ rows))"
  using assms
proof (induction fuel arbitrary: out s)
  case 0
  then have "\<not> length out < capacity" by (subst (asm) fill_vector.simps) (auto simp: atomic_returns split: if_splits)
  with 0 show ?case by (subst (asm) fill_vector.simps) (simp add: atomic_returns)
next
  case (Suc fuel)
  show ?case
  proof (cases "length out < capacity")
    case False
    with Suc.prems show ?thesis by (subst (asm) fill_vector.simps) (simp add: atomic_returns)
  next
    case True
    with Suc.prems(1) obtain found s1 where more: "more_rows lib s = (Inr found, s1)"
      and rest: "(if \<not> found then sret (length out, out)
         else sbind (take_rows lib (capacity - length out)) (\<lambda>(n, rows).
                fill_vector lib capacity fuel (length out + n) (out @ rows))) s1 = (Inr (n, out'), s')"
      by (subst (asm) fill_vector.simps) (auto simp: sbind_returns)
    note m = more_rows_coming [OF more Suc.prems(2,3)]
    show ?thesis
    proof (cases found)
      case False
      with rest m True show ?thesis by (auto simp: atomic_returns)
    next
      case t: True
      with rest obtain k rows s2 where take: "take_rows lib (capacity - length out) s1 = (Inr (k, rows), s2)"
        and more: "fill_vector lib capacity fuel (length out + k) (out @ rows) s2 = (Inr (n, out'), s')"
        by (auto simp: sbind_returns)
      have "\<not> rd_eos s1" using m(1) t by simp
      note tk = take_rows_coming [OF take this Suc.prems(3)]
      have "length (out @ rows) \<le> capacity" using tk(2,3) True by simp
      from Suc.IH [OF _ tk(1) Suc.prems(3) this] more tk(2) obtain new where
        new: "out' = (out @ rows) @ new" "n = length out'" "n \<le> capacity" "n < capacity \<longrightarrow> rd_eos s'"
        "\<forall>r. coming lib rows_of s' r \<longrightarrow> coming lib rows_of s2 (new @ r)" by auto
      have "\<forall>r. coming lib rows_of s' r \<longrightarrow> coming lib rows_of s ((rows @ new) @ r)"
        using new(5) tk(4) m(3) by simp
      with new show ?thesis by (intro exI [of _ "rows @ new"]) simp
    qed
  qed
qed

section \<open>What a chunk delivers\<close>

text \<open>The results of calling the reader until it has no more rows.\<close>

inductive vectors :: "('a, 'v) ArrowLib \<Rightarrow> nat \<Rightarrow> nat \<Rightarrow> 'a ArrowReader \<Rightarrow> 'v list list \<Rightarrow> bool" for lib capacity fuel where
  vectors_end: "ReaderNext lib capacity fuel s = (Inr None, s') \<Longrightarrow> vectors lib capacity fuel s []"
| vectors_more: "ReaderNext lib capacity fuel s = (Inr (Some v), s') \<Longrightarrow> vectors lib capacity fuel s' vs \<Longrightarrow>
    vectors lib capacity fuel s (v # vs)"

inductive_cases vectors_ConsE: "vectors lib capacity fuel s (v # vs)"

lemma ReaderNext_coming:
  assumes "ReaderNext lib capacity fuel s = (Inr r, s')" "slices lib rows_of" "0 < capacity"
  shows "r = None \<Longrightarrow> coming lib rows_of s []"
    and "r = Some v \<Longrightarrow> v \<noteq> [] \<and> length v \<le> capacity \<and> (length v < capacity \<longrightarrow> rd_eos s')"
    and "r = Some v \<Longrightarrow> coming lib rows_of s' rows \<Longrightarrow> coming lib rows_of s (v @ rows)"
proof -
  have "(r = None \<longrightarrow> coming lib rows_of s []) \<and>
      (\<forall>v. r = Some v \<longrightarrow> (v \<noteq> [] \<and> length v \<le> capacity \<and> (length v < capacity \<longrightarrow> rd_eos s')) \<and>
         (\<forall>rows. coming lib rows_of s' rows \<longrightarrow> coming lib rows_of s (v @ rows)))"
  proof (cases "rd_eos s")
    case True
    with assms(1) show ?thesis by (auto simp: ReaderNext_def atomic_returns coming_def)
  next
    case False
    with assms(1) obtain n out where fill: "fill_vector lib capacity fuel 0 [] s = (Inr (n, out), s')"
      and r: "r = (if n \<noteq> 0 then Some out else None)" by (auto simp: ReaderNext_def run_returns)
    from fill_vector_coming [of lib capacity fuel "[]" s n out s' rows_of] fill False assms(2)
    have f: "n = length out" "n \<le> capacity" "n < capacity \<longrightarrow> rd_eos s'"
      "\<forall>rows. coming lib rows_of s' rows \<longrightarrow> coming lib rows_of s (out @ rows)" by auto
    have "coming lib rows_of s []" if "n = 0"
      using f that assms(3) by (metis append_Nil coming_def length_0_conv)
    with f r show ?thesis by auto
  qed
  then show "r = None \<Longrightarrow> coming lib rows_of s []"
    and "r = Some v \<Longrightarrow> v \<noteq> [] \<and> length v \<le> capacity \<and> (length v < capacity \<longrightarrow> rd_eos s')"
    and "r = Some v \<Longrightarrow> coming lib rows_of s' rows \<Longrightarrow> coming lib rows_of s (v @ rows)" by auto
qed

lemma vectors_coming:
  assumes "vectors lib capacity fuel s vs" "slices lib rows_of" "0 < capacity"
  shows "coming lib rows_of s (concat vs)" "list_all (\<lambda>v. v \<noteq> [] \<and> length v \<le> capacity) vs"
    "list_all (\<lambda>v. length v = capacity) (butlast vs)"
  using assms(1)
proof (induction rule: vectors.induct)
  case (vectors_end s s')
  { case 1 show ?case using ReaderNext_coming(1) [OF vectors_end assms(2,3)] by simp
  next case 2 show ?case by simp
  next case 3 show ?case by simp }
next
  case (vectors_more s v s' vs)
  note nxt = ReaderNext_coming [OF vectors_more(1) assms(2,3)]
  { case 1 show ?case using nxt(3) vectors_more by simp
  next case 2 show ?case using nxt(2) vectors_more by simp
  next
    case 3
    have "length v = capacity" if "vs \<noteq> []"
    proof (rule ccontr)
      assume "length v \<noteq> capacity"
      with nxt(2) have "rd_eos s'" by auto
      with vectors_more(2) that show False by (cases vs) (auto elim!: vectors_ConsE simp: ReaderNext_def atomic_returns)
    qed
    with vectors_more(5) show ?case by simp }
qed

lemma count_rows_vectors:
  assumes "count_rows lib capacity fuel rounds n s = (Inr m, s')" "slices lib rows_of" "0 < capacity" "capacity < 2 ^ 64"
  shows "\<exists>vs. vectors lib capacity fuel s vs \<and> unat m = unat n + length (concat vs)"
  using assms(1)
proof (induction rounds arbitrary: n s)
  case 0
  then show ?case by (subst (asm) count_rows.simps) (simp add: atomic_returns)
next
  case (Suc rounds)
  from Suc.prems obtain r s1 where nxt: "ReaderNext lib capacity fuel s = (Inr r, s1)"
    and rest: "(case r of
              None \<Rightarrow> sret n
            | Some discarded \<Rightarrow>
                if 0xFFFFFFFFFFFFFFFF - size_u64 discarded < n
                then sthrow (ArrowInput ''Data 360 Arrow response exceeded configured limits'')
                else count_rows lib capacity fuel rounds (n + size_u64 discarded)) s1 = (Inr m, s')"
    by (subst (asm) count_rows.simps) (auto simp: sbind_returns scatch_def sthrow_def split: prod.splits sum.splits)
  show ?case
  proof (cases r)
    case None
    with nxt rest show ?thesis by (auto simp: atomic_returns intro!: exI [of _ "[]"] vectors_end)
  next
    case (Some v)
    then have room: "\<not> 0xFFFFFFFFFFFFFFFF - size_u64 v < n"
      and go: "count_rows lib capacity fuel rounds (n + size_u64 v) s1 = (Inr m, s')"
      using rest by (auto simp: atomic_returns split: if_splits)
    have "length v < 2 ^ 64" using ReaderNext_coming(2) [OF nxt assms(2,3) Some] assms(4) by simp
    then have size: "unat (size_u64 v) = length v" by (rule unat_size_u64)
    have "unat n \<le> unat (0xFFFFFFFFFFFFFFFF - size_u64 v :: u64)" using room by (simp add: not_less word_le_nat_alt)
    also have "\<dots> = 2 ^ 64 - 1 - unat (size_u64 v)"
      using size \<open>length v < 2 ^ 64\<close> by (subst unat_sub) (simp_all add: word_le_nat_alt)
    finally have "unat n + unat (size_u64 v) < 2 ^ 64" using size \<open>length v < 2 ^ 64\<close> by simp
    then have sum: "unat (n + size_u64 v) = unat n + length v"
      using unat_add_lem [THEN iffD1, of n "size_u64 v"] size by simp
    from Suc.IH [OF go] obtain vs where "vectors lib capacity fuel s1 vs" "unat m = unat n + length v + length (concat vs)"
      by (auto simp: sum)
    with nxt Some show ?thesis by (intro exI [of _ "v # vs"]) (auto intro: vectors_more)
  qed
qed

text \<open>Both passes start from the same reader.\<close>

lemma validate_chunk_vectors:
  assumes "validate_chunk lib capacity fuel rounds expected types response = Inr (n, reader)"
    "slices lib rows_of" "0 < capacity" "capacity < 2 ^ 64"
  shows "\<exists>batches vs. stream lib (rs_body response) (length expected) 0 batches \<and> vectors lib capacity fuel reader vs \<and>
    concat vs = concat (map rows_of batches) \<and> unat n = length (concat vs) \<and>
    list_all (\<lambda>v. v \<noteq> [] \<and> length v \<le> capacity) vs \<and> list_all (\<lambda>v. length v = capacity) (butlast vs)"
proof -
  from assms(1) obtain content_type where opened: "open_reader lib content_type (rs_body response) expected types = Inr reader"
    and count: "fst (count_rows lib capacity fuel rounds 0 reader) = Inr n"
    by (auto simp: validate_chunk_def ebind_Inr split: option.splits)
  from opened have reader: "rd_body reader = rs_body response" "rd_width reader = length expected" "rd_calls reader = 0"
    "rd_current reader = None" "\<not> rd_eos reader"
    by (auto simp: open_reader_def ArrowIpcChunkReader_def split: sum.splits if_splits option.splits)
  from count obtain last_reader where "count_rows lib capacity fuel rounds 0 reader = (Inr n, last_reader)" by (metis prod.collapse)
  from count_rows_vectors [OF this assms(2-4)] obtain vs where vs: "vectors lib capacity fuel reader vs" "unat n = length (concat vs)"
    by auto
  from vectors_coming(1) [OF vs(1) assms(2,3)] reader obtain batches where
    "stream lib (rs_body response) (length expected) 0 batches" "concat vs = concat (map rows_of batches)"
    by (auto simp: coming_def)
  with vs vectors_coming(2,3) [OF vs(1) assms(2,3)] show ?thesis by blast
qed

section \<open>A well-formed chunk is accepted\<close>

text \<open>The conversion of every slice within a batch succeeds.\<close>

definition converts :: "('a, 'v) ArrowLib \<Rightarrow> bool" where
  "converts lib \<longleftrightarrow> (\<forall>a offset n. offset + n \<le> nat (al_length lib a) \<longrightarrow> al_slice lib a offset n \<noteq> None)"

definition reader_at :: "('a, 'v) ArrowLib \<Rightarrow> 'a ArrowReader \<Rightarrow> 'a list \<Rightarrow> bool" where
  "reader_at lib s as \<longleftrightarrow> \<not> rd_eos s \<and> stream lib (rd_body s) (rd_width s) (rd_calls s) as \<and>
     (\<forall>a. rd_current s = Some a \<longrightarrow> rd_offset s \<le> nat (al_length lib a))"

inductive_cases stream_NilE: "stream lib body width i []"
inductive_cases stream_ConsE: "stream lib body width i (a # as)"

definition has_rows :: "('a, 'v) ArrowLib \<Rightarrow> 'a ArrowReader \<Rightarrow> bool" where
  "has_rows lib s \<longleftrightarrow> (\<exists>a. rd_current s = Some a \<and> rd_offset s < nat (al_length lib a))"

lemma more_rows_total:
  assumes "reader_at lib s as"
  shows "if has_rows lib s then more_rows lib s = (Inr True, s)
    else case as of
           [] \<Rightarrow> \<exists>s'. more_rows lib s = (Inr False, s') \<and> rd_eos s'
         | a # as' \<Rightarrow> \<exists>s'. more_rows lib s = (Inr True, s') \<and> reader_at lib s' as' \<and> rd_current s' = Some a"
proof (cases "has_rows lib s")
  case True
  then show ?thesis by (auto simp: has_rows_def more_rows_def sret_def)
next
  case False
  then have load: "more_rows lib s = LoadBatch lib s"
    by (auto simp: has_rows_def more_rows_def not_less split: option.splits)
  show ?thesis
  proof (cases as)
    case Nil
    with assms have "al_next lib (rd_body s) (rd_calls s) = NextEnded (length (rd_body s))"
      by (auto simp: reader_at_def elim: stream_NilE)
    with Nil False load show ?thesis by (simp add: LoadBatch_def sem_defs)
  next
    case (Cons a as')
    with assms have "al_next lib (rd_body s) (rd_calls s) = NextBatch a" "batch_ok lib (rd_width s) a"
      "stream lib (rd_body s) (rd_width s) (Suc (rd_calls s)) as'"
      by (auto simp: reader_at_def elim: stream_ConsE)
    with Cons False load assms show ?thesis by (simp add: LoadBatch_def sem_defs reader_at_def)
  qed
qed

lemma take_rows_total:
  assumes "reader_at lib s as" "rd_current s = Some a" "converts lib"
  shows "\<exists>n rows s'. take_rows lib room s = (Inr (n, rows), s') \<and> reader_at lib s' as \<and>
     n = min (nat (al_length lib a) - rd_offset s) room"
proof -
  let ?n = "min (nat (al_length lib a) - rd_offset s) room"
  have "rd_offset s + ?n \<le> nat (al_length lib a)" using assms(1,2) by (auto simp: reader_at_def)
  with assms(3) obtain rows where "al_slice lib a (rd_offset s) ?n = Some rows" unfolding converts_def by blast
  with assms(1,2) show ?thesis by (auto simp: take_rows_def Let_def sem_defs reader_at_def)
qed

lemma fill_vector_total:
  assumes "reader_at lib s as" "converts lib" "length as + (capacity - n) < fuel"
  shows "\<exists>r s' as'. fill_vector lib capacity fuel n out s = (Inr r, s') \<and> (rd_eos s' \<or> reader_at lib s' as' \<and> length as' \<le> length as)"
  using assms(1,3)
proof (induction fuel arbitrary: n out s as)
  case (Suc fuel)
  show ?case
  proof (cases "n < capacity")
    case False
    with Suc.prems(1) show ?thesis by (subst fill_vector.simps) (auto simp: sret_def)
  next
    case room: True
    have step: ?thesis if more: "more_rows lib s = (Inr True, s1)" and at: "reader_at lib s1 as1" "rd_current s1 = Some a"
      and less: "length as1 < length as \<or> length as1 = length as \<and> rd_offset s1 < nat (al_length lib a)" for s1 as1 a
    proof -
      from take_rows_total [OF at assms(2), of "capacity - n"] obtain k rows s2 where
        t: "take_rows lib (capacity - n) s1 = (Inr (k, rows), s2)" "reader_at lib s2 as1"
        "k = min (nat (al_length lib a) - rd_offset s1) (capacity - n)" by blast
      have "length as1 + (capacity - (n + k)) < fuel" using less t(3) Suc.prems(2) room by (auto simp: min_def)
      from Suc.IH [OF t(2) this, of "out @ rows"] obtain r s' as' where
        "fill_vector lib capacity fuel (n + k) (out @ rows) s2 = (Inr r, s')"
        "rd_eos s' \<or> reader_at lib s' as' \<and> length as' \<le> length as1" by blast
      with more t room less show ?thesis
        by (subst fill_vector.simps) (force simp: sbind_def)
    qed
    show ?thesis
    proof (cases "has_rows lib s")
      case True
      with more_rows_total [OF Suc.prems(1)] step [OF _ Suc.prems(1)] show ?thesis by (auto simp: has_rows_def)
    next
      case False
      show ?thesis
      proof (cases as)
        case Nil
        with more_rows_total [OF Suc.prems(1)] False room show ?thesis
          by (subst fill_vector.simps) (auto simp: sbind_def sret_def)
      next
        case (Cons a as')
        with more_rows_total [OF Suc.prems(1)] False step [of _ as' a] show ?thesis by auto
      qed
    qed
  qed
qed simp

lemma stream_functional: "stream lib body width i as \<Longrightarrow> stream lib body width i bs \<Longrightarrow> as = bs"
proof (induction arbitrary: bs rule: stream.induct)
  case (stream_end i)
  from stream_end(2,1) show ?case by (cases bs) (auto elim: stream_ConsE)
next
  case (stream_batch i a as)
  from stream_batch(5,1) stream_batch.IH show ?case by (cases bs) (auto elim: stream_NilE stream_ConsE)
qed

lemma coming_functional: "coming lib rows_of s xs \<Longrightarrow> coming lib rows_of s ys \<Longrightarrow> xs = ys"
  by (auto simp: coming_def split: if_splits dest: stream_functional)

lemma coming_exists: "rd_eos s \<or> reader_at lib s as \<Longrightarrow> \<exists>rows. coming lib rows_of s rows"
  by (auto simp: coming_def reader_at_def)

lemma ReaderNext_total:
  assumes "rd_eos s \<or> reader_at lib s as" "converts lib" "length as + capacity < fuel"
  shows "\<exists>r s' as'. ReaderNext lib capacity fuel s = (Inr r, s') \<and> (rd_eos s' \<or> reader_at lib s' as' \<and> length as' \<le> length as)"
proof (cases "rd_eos s")
  case True
  then show ?thesis by (auto simp: ReaderNext_def sret_def)
next
  case False
  with assms fill_vector_total [of lib s as capacity 0 fuel "[]"] show ?thesis
    by (fastforce simp: ReaderNext_def sbind_def sgets_def sret_def split: prod.split)
qed

lemma count_rows_total:
  assumes "rd_eos s \<or> reader_at lib s as" "coming lib rows_of s rows" "unat n + length rows < 2 ^ 64" "length rows < rounds"
    "length as + capacity < fuel" and lib: "slices lib rows_of" "converts lib" "0 < capacity"
  shows "\<exists>s'. count_rows lib capacity fuel rounds n s = (Inr (n + of_nat (length rows)), s')"
  using assms(1-5)
proof (induction rounds arbitrary: s as rows n)
  case (Suc rounds)
  from ReaderNext_total [OF Suc.prems(1) lib(2) Suc.prems(5)] obtain r s1 as1 where
    nxt: "ReaderNext lib capacity fuel s = (Inr r, s1)" and at: "rd_eos s1 \<or> reader_at lib s1 as1 \<and> length as1 \<le> length as"
    by blast
  note del = ReaderNext_coming [OF nxt lib(1,3)]
  have run: "count_rows lib capacity fuel (Suc rounds) n s = (case r of
              None \<Rightarrow> sret n
            | Some discarded \<Rightarrow>
                if 0xFFFFFFFFFFFFFFFF - size_u64 discarded < n
                then sthrow (ArrowInput ''Data 360 Arrow response exceeded configured limits'')
                else count_rows lib capacity fuel rounds (n + size_u64 discarded)) s1"
    by (subst count_rows.simps) (simp add: sbind_def scatch_def nxt)
  show ?case
  proof (cases r)
    case None
    with del(1) coming_functional [OF Suc.prems(2)] have "rows = []" by blast
    with run None show ?thesis by (simp add: sret_def)
  next
    case (Some v)
    obtain rest where rest: "coming lib rows_of s1 rest" using coming_exists [of s1 lib as1] at by blast
    with del(3) [OF Some] coming_functional [OF Suc.prems(2)] have rows: "rows = v @ rest" by blast
    have v: "0 < length v" using del(2) [OF Some] by simp
    have "length v < 2 ^ 64" using Suc.prems(3) rows by simp
    then have size: "unat (size_u64 v) = length v" by (rule unat_size_u64)
    have "unat (0xFFFFFFFFFFFFFFFF - size_u64 v :: u64) = 2 ^ 64 - 1 - length v"
      using size \<open>length v < 2 ^ 64\<close> by (subst unat_sub) (simp_all add: word_le_nat_alt)
    then have room: "\<not> 0xFFFFFFFFFFFFFFFF - size_u64 v < n"
      using Suc.prems(3) rows by (simp add: word_less_nat_alt)
    have sum: "unat (n + size_u64 v) = unat n + length v"
      using unat_add_lem [THEN iffD1, of n "size_u64 v"] size Suc.prems(3) rows by simp
    have "\<exists>s'. count_rows lib capacity fuel rounds (n + size_u64 v) s1 = (Inr (n + size_u64 v + of_nat (length rest)), s')"
    proof (rule Suc.IH)
      show "rd_eos s1 \<or> reader_at lib s1 (if rd_eos s1 then [] else as1)" using at by auto
      show "length rest < rounds" using v rows Suc.prems(4) by (cases v) simp_all
    qed (use rest rows sum at Suc.prems in auto)
    with run Some room rows show ?thesis by (simp add: size_u64_def add.assoc)
  qed
qed simp

lemma validate_chunk_total:
  assumes "ArrowContentType response = Some content_type"
    "open_reader lib content_type (rs_body response) expected types = Inr reader"
    "stream lib (rs_body response) (length expected) 0 batches" "length (concat (map rows_of batches)) < 2 ^ 64"
    "length (concat (map rows_of batches)) < rounds" "length batches + capacity < fuel"
    and lib: "slices lib rows_of" "converts lib" "0 < capacity"
  shows "validate_chunk lib capacity fuel rounds expected types response =
     Inr (of_nat (length (concat (map rows_of batches))), reader)"
proof -
  from assms(2) have reader: "rd_body reader = rs_body response" "rd_width reader = length expected" "rd_calls reader = 0"
    "rd_current reader = None" "\<not> rd_eos reader"
    by (auto simp: open_reader_def ArrowIpcChunkReader_def split: sum.splits if_splits option.splits)
  with assms(3) have "reader_at lib reader batches" "coming lib rows_of reader (concat (map rows_of batches))"
    by (auto simp: reader_at_def coming_def)
  with count_rows_total [of reader lib batches rows_of "concat (map rows_of batches)" 0 rounds capacity fuel] assms lib
  obtain s' where "count_rows lib capacity fuel rounds 0 reader = (Inr (of_nat (length (concat (map rows_of batches)))), s')"
    by auto
  with assms(1,2) show ?thesis by (simp add: validate_chunk_def)
qed

lemma ReportArrowChunk_rows:
  assumes "ReportArrowChunk env n s = (Inr u, s')"
  shows "s_rows (m_session s') = s_rows (m_session s) + n"
proof -
  from assms obtain s1 where check: "CheckActive env s = (Inr (), s1)" and s': "s_rows (m_session s') = s_rows (m_session s1) + n"
    by (auto simp: ReportArrowChunk_def cancel_on_error_def run_returns scatch_def sthen_def sbind_returns sthrow_def
        split: prod.splits sum.splits)
  have "world_free (\<lambda>x :: 'a Machine. s_rows (m_session x) = s_rows (m_session s))" by (simp add: world_free_def)
  from keepsD [OF world_only_checks(1) [OF this] refl check] s' show ?thesis by simp
qed

end
