(* ===== verification/Arrow_Properties.thy ===== *)
theory Arrow_Properties
  imports Arrow_Scan Query_Demo
begin

text \<open>The property of the Arrow path: a chunk is delivered completely or not at all.\<close>












end
