(* ===== verification/Query_Function.thy ===== *)
theory Query_Function
  imports Auth_Functions Json_Codec Arrow_Scan
begin

text \<open>
  The table function \<open>data360_query\<close> of \<open>data360_extension.cpp\<close>: binding looks up the credential and
  asks for the metadata of the query, initialisation prepares the query and opens its cursor, and the
  scan delivers rows from the cursor or from its Arrow chunks.
\<close>

section \<open>The runtime\<close>

text \<open>The steady clock in nanoseconds and \<open>std::this_thread::sleep_for\<close> in milliseconds.\<close>

record 'w QueryHost =
  qh_auth :: "'w AuthHost"
  qh_SteadyNs :: "'w \<Rightarrow> int \<times> 'w"
  qh_SleepFor :: "nat \<Rightarrow> 'w \<Rightarrow> 'w"

definition runtime_IsCancelled :: "'w QueryHost \<Rightarrow> 'w \<Rightarrow> bool \<times> 'w" where
  "runtime_IsCancelled host = ah_IsInterrupted (qh_auth host)"

definition runtime_NowMs :: "'w QueryHost \<Rightarrow> 'w \<Rightarrow> u64 \<times> 'w" where
  "runtime_NowMs host w = (case qh_SteadyNs host w of (ns, w') \<Rightarrow> (of_int (ns div 1000000), w'))"

text \<open>The loop of \<open>SleepMs\<close>; \<open>None\<close> where the fuel did not last.\<close>

fun sleep_until :: "'w QueryHost \<Rightarrow> nat \<Rightarrow> int \<Rightarrow> 'w \<Rightarrow> 'w option" where
  "sleep_until host fuel deadline w =
     (case runtime_IsCancelled host w of
        (True, w1) \<Rightarrow> Some w1
      | (False, w1) \<Rightarrow>
          (case qh_SteadyNs host w1 of
             (now, w2) \<Rightarrow>
               if now < deadline
               then (case fuel of 0 \<Rightarrow> None | Suc fuel' \<Rightarrow> sleep_until host fuel' deadline (qh_SleepFor host 10 w2))
               else Some w2))"

declare sleep_until.simps [simp del]

definition runtime_SleepMs :: "'w QueryHost \<Rightarrow> u64 \<Rightarrow> 'w \<Rightarrow> 'w" where
  "runtime_SleepMs host milliseconds w =
     (case qh_SteadyNs host w of
        (now, w') \<Rightarrow>
          (case sleep_until host (unat milliseconds div 10 + 1) (now + uint milliseconds * 1000000) w' of
             None \<Rightarrow> w'
           | Some w'' \<Rightarrow> w''))"

text \<open>The runtime, the transport and the codec of a client.\<close>

definition query_env :: "'v Yyjson \<Rightarrow> 'w QueryHost \<Rightarrow> 'w QueryEnv" where
  "query_env js host =
     \<lparr>env_IsCancelled = runtime_IsCancelled host, env_NowMs = runtime_NowMs host, env_SleepMs = runtime_SleepMs host,
      env_Send = (\<lambda>request w. case ah_Send (qh_auth host) request w of
                     (Inl e, w') \<Rightarrow> (None, w') | (Inr response, w') \<Rightarrow> (Some response, w')),
      env_Decode = json_codec js\<rparr>"

section \<open>Exceptions\<close>

text \<open>
  What leaves a function of the extension. \<open>NotReturned\<close> and \<open>UndefinedRead\<close> are no exceptions: the fuel
  was used up, or a row was read past its end.
\<close>

datatype query_exn = Thrown host_exn | NotReturned | UndefinedRead

text \<open>What the handlers of the three functions distinguish.\<close>

datatype failure = ReauthFailure | Rethrown host_exn | OtherFailure | Stopped query_exn

fun client_failure :: "exn \<Rightarrow> failure" where
  "client_failure ReauthRequiredException = ReauthFailure"
| "client_failure OutOfFuel = Stopped NotReturned"
| "client_failure e = OtherFailure"

fun scan_failure :: "exn scan_exn \<Rightarrow> failure" where
  "scan_failure (SourceError e) = client_failure e"
| "scan_failure (ConversionFailed column) =
     Rethrown (InvalidInputException (''Data 360 value conversion failed for column '' @ [CHR 0x27] @ column @ [CHR 0x27]))"
| "scan_failure RowTooShort = Stopped UndefinedRead"
| "scan_failure ScanOutOfFuel = Stopped NotReturned"

definition INVALID_ARROW_ERROR :: byte_string where
  "INVALID_ARROW_ERROR = ''Data 360 Arrow IPC response is invalid''"

fun arrow_failure :: "arrow_scan_exn \<Rightarrow> failure" where
  "arrow_failure (CursorError e) = client_failure e"
| "arrow_failure (ArrowError InvalidArrow) = Rethrown (InvalidInputException INVALID_ARROW_ERROR)"
| "arrow_failure (ArrowError ArrowOutOfFuel) = Stopped NotReturned"
| "arrow_failure (ArrowInput text) = Rethrown (InvalidInputException text)"

text \<open>The handlers: \<open>wrap\<close> is the exception type of the function.\<close>

definition handle_failure ::
  "('s, query_exn, bool) sem \<Rightarrow> (byte_string \<Rightarrow> host_exn) \<Rightarrow> failure \<Rightarrow> ('s, query_exn, 'a) sem" where
  "handle_failure is_interrupted wrap failure =
     (case failure of
        ReauthFailure \<Rightarrow> sthrow (Thrown (wrap (FormatSafeFault REAUTH_REQUIRED)))
      | Rethrown e \<Rightarrow> sthrow (Thrown e)
      | OtherFailure \<Rightarrow>
          sbind is_interrupted (\<lambda>b.
            sthrow (Thrown (if b then InterruptException else wrap ''Data 360 query execution failed'')))
      | Stopped e \<Rightarrow> sthrow e)"

section \<open>Calls of the registry and of the client\<close>

definition on_host :: "('w AuthState, host_exn, 'a) sem \<Rightarrow> ('w AuthState, query_exn, 'a) sem" where
  "on_host m = scatch m (\<lambda>e. sthrow (Thrown e))"

definition is_interrupted :: "'w QueryHost \<Rightarrow> ('w AuthState, query_exn, bool) sem" where
  "is_interrupted host = on_host (ask (ah_IsInterrupted (qh_auth host)))"

definition resolve ::
  "'w QueryHost \<Rightarrow> (byte_string \<Rightarrow> host_exn) \<Rightarrow> byte_string \<Rightarrow> ('w AuthState, query_exn, QueryCredentials) sem" where
  "resolve host wrap credential_id =
     sattempt (on_registry (qh_auth host) (ResolveCredential (ah_auth (qh_auth host)) credential_id))
       (\<lambda>e. sbind (is_interrupted host) (\<lambda>b.
          sthrow (Thrown (if b then InterruptException else wrap (FormatSafeFault REAUTH_REQUIRED)))))
       (\<lambda>(url, token). sret \<lparr>qc_instance_url = url, qc_access_token = token\<rparr>)"

text \<open>A new client, on the same world; its machine is returned with the result.\<close>

definition new_client :: "QueryCredentials \<Rightarrow> 'w AuthState \<Rightarrow> 'w Machine" where
  "new_client credentials s =
     \<lparr>m_world = rg_world (au_registry s), m_sent = [], m_owner = NoOwner,
      m_session = new_session default_QueryOptions credentials 0 default_HttpRequest\<rparr>"

definition on_client ::
  "QueryCredentials \<Rightarrow> ('w Machine, failure, 'a) sem \<Rightarrow> ('w AuthState, failure, 'a \<times> 'w Machine) sem" where
  "on_client credentials m s =
     (case m (new_client credentials s) of
        (r, k) \<Rightarrow>
          (case r of Inl e \<Rightarrow> Inl e | Inr a \<Rightarrow> Inr (a, k),
           s\<lparr>au_registry := (au_registry s)\<lparr>rg_world := m_world k\<rparr>, au_sent := m_sent k @ au_sent s\<rparr>))"

definition client_call :: "('w Machine, exn, 'a) sem \<Rightarrow> ('w Machine, failure, 'a) sem" where
  "client_call m = scatch m (\<lambda>e. sthrow (client_failure e))"

section \<open>Binding\<close>

record Data360BindData =
  qb_types :: "LogicalType list"
  qb_names :: "byte_string list"
  qb_metadata :: "ColumnMetadata list"
  qb_sql :: byte_string
  qb_credential_id :: byte_string

abbreviation quoted :: "byte_string \<Rightarrow> byte_string" where
  "quoted name \<equiv> [CHR 0x27] @ name @ [CHR 0x27]"

text \<open>The credential a secret names.\<close>

definition secret_credential :: "byte_string \<Rightarrow> CatalogSecret option \<Rightarrow> host_exn + byte_string" where
  "secret_credential secret_name found =
     (case found of
        None \<Rightarrow> Inl (BinderException (''Data 360 secret '' @ quoted secret_name @ '' was not found''))
      | Some secret \<Rightarrow>
          if ks_type secret \<noteq> ''data360''
          then Inl (BinderException (''Secret '' @ quoted secret_name @ '' is not a Data 360 secret''))
          else if ks_provider secret \<noteq> ''oauth_pkce''
          then Inl (BinderException (''Data 360 secret '' @ quoted secret_name @ '' uses an unsupported provider''))
          else case ks_session_id secret of
                 None \<Rightarrow> Inl (BinderException ''Data 360 OAuth secret is invalid'')
               | Some credential_id \<Rightarrow> Inr credential_id)"

definition look_up_secret :: "'w QueryHost \<Rightarrow> byte_string \<Rightarrow> ('w AuthState, query_exn, byte_string) sem" where
  "look_up_secret host secret_name =
     on_host (sbind (ask (ah_GetSecretByName (qh_auth host) secret_name)) (\<lambda>r.
       case r of
         None \<Rightarrow> sthrow OtherException
       | Some found \<Rightarrow> throwing (\<lambda>e. e) (secret_credential secret_name found)))"

definition bind_columns :: "ColumnMetadata list \<Rightarrow> byte_string + LogicalType list" where
  "bind_columns metadata =
     (if metadata = [] then Inl ''Data 360 query returned no metadata'' else etraverse bind_column metadata)"

definition query_metadata ::
  "'v Yyjson \<Rightarrow> 'w QueryHost \<Rightarrow> nat \<Rightarrow> byte_string \<Rightarrow> byte_string \<Rightarrow> QueryCredentials \<Rightarrow>
     ('w Machine, failure, Data360BindData) sem" where
  "query_metadata js host fuel sql credential_id credentials =
     sbind (client_call (ExecuteMetadata (query_env js host) default_QueryOptions fuel sql credentials)) (\<lambda>metadata.
       case bind_columns metadata of
         Inl text \<Rightarrow> sthrow (Rethrown (BinderException text))
       | Inr types \<Rightarrow>
           sret \<lparr>qb_types = types, qb_names = map cm_name metadata, qb_metadata = metadata, qb_sql = sql,
                 qb_credential_id = credential_id\<rparr>)"

definition Data360QueryBind ::
  "'v Yyjson \<Rightarrow> 'w QueryHost \<Rightarrow> nat \<Rightarrow> byte_string \<Rightarrow> byte_string \<Rightarrow> ('w AuthState, query_exn, Data360BindData) sem" where
  "Data360QueryBind js host fuel sql secret_name =
     sbind (look_up_secret host secret_name) (\<lambda>credential_id.
     sbind (resolve host BinderException credential_id) (\<lambda>credentials.
       sattempt (on_client credentials (query_metadata js host fuel sql credential_id credentials))
         (handle_failure (is_interrupted host) BinderException) (\<lambda>(bind, _). sret bind)))"

section \<open>Initialisation\<close>

datatype ('w, 'a) Data360GlobalState =
    ArrowSource "ExpectedArrowField list" "('w, 'a) ArrowScan"
  | RowSource "'w Machine ScanState"

text \<open>On an exception the prepared query or the cursor is destroyed before the handler runs.\<close>

definition destroyed_on_error ::
  "'w QueryEnv \<Rightarrow> ('w Machine, failure, 'a) sem \<Rightarrow> ('w Machine, failure, 'a) sem" where
  "destroyed_on_error env m = scatch m (\<lambda>f. sthen (client_call (destroy_owner env)) (sthrow f))"

text \<open>\<open>Some expected\<close> for an Arrow source, \<open>None\<close> for a chunk source.\<close>

definition open_source :: "'w QueryEnv \<Rightarrow> Data360BindData \<Rightarrow> ('w Machine, failure, ExpectedArrowField list option) sem" where
  "open_source env bind =
     sbind (client_call PreparedMetadata) (\<lambda>metadata.
       if \<not> MetadataCompatible (qb_metadata bind) metadata
       then sthrow (Rethrown (InvalidInputException ''Data 360 result schema changed after binding''))
       else sthen (client_call OpenCursor)
            (sbind (client_call IsNumberedV3) (\<lambda>numbered.
               if numbered
               then (case ExpectedArrowSchema metadata of
                       Inl text \<Rightarrow> sthrow (Rethrown (InvalidInputException text))
                     | Inr expected \<Rightarrow> sret (Some expected))
               else sret None)))"

definition prepare_scan ::
  "'v Yyjson \<Rightarrow> 'w QueryHost \<Rightarrow> nat \<Rightarrow> Data360BindData \<Rightarrow> QueryCredentials \<Rightarrow>
     ('w Machine, failure, ExpectedArrowField list option) sem" where
  "prepare_scan js host fuel bind credentials =
     sthen (client_call (Prepare (query_env js host) default_QueryOptions fuel (qb_sql bind) credentials))
       (destroyed_on_error (query_env js host) (open_source (query_env js host) bind))"

definition global_state :: "ExpectedArrowField list option \<Rightarrow> 'w Machine \<Rightarrow> ('w, 'a) Data360GlobalState" where
  "global_state source machine =
     (case source of
        Some expected \<Rightarrow> ArrowSource expected \<lparr>sn_machine = machine, sn_reader = None\<rparr>
      | None \<Rightarrow> RowSource (new_scan machine))"

definition Data360QueryInit ::
  "'v Yyjson \<Rightarrow> 'w QueryHost \<Rightarrow> nat \<Rightarrow> Data360BindData \<Rightarrow> ('w AuthState, query_exn, ('w, 'a) Data360GlobalState) sem" where
  "Data360QueryInit js host fuel bind =
     sbind (resolve host InvalidInputException (qb_credential_id bind)) (\<lambda>credentials.
       sattempt (on_client credentials (prepare_scan js host fuel bind credentials))
         (handle_failure (is_interrupted host) InvalidInputException)
         (\<lambda>(source, machine). sret (global_state source machine)))"

section \<open>The scan\<close>

text \<open>The machine of the cursor behind a source.\<close>

fun state_machine :: "('w, 'a) Data360GlobalState \<Rightarrow> 'w Machine" where
  "state_machine (ArrowSource expected scan) = sn_machine scan"
| "state_machine (RowSource scan) = sc_source scan"

fun set_world :: "'w \<Rightarrow> ('w, 'a) Data360GlobalState \<Rightarrow> ('w, 'a) Data360GlobalState" where
  "set_world w (ArrowSource expected scan) = ArrowSource expected (scan\<lparr>sn_machine := (sn_machine scan)\<lparr>m_world := w\<rparr>\<rparr>)"
| "set_world w (RowSource scan) = RowSource (scan\<lparr>sc_source := (sc_source scan)\<lparr>m_world := w\<rparr>\<rparr>)"

definition scan_interrupted :: "'w QueryEnv \<Rightarrow> (('w, 'a) Data360GlobalState, query_exn, bool) sem" where
  "scan_interrupted env g =
     (case env_IsCancelled env (m_world (state_machine g)) of (b, w) \<Rightarrow> (Inr b, set_world w g))"

text \<open>The libraries of the scan: DuckDB's conversions and vector size, and the bounds on the loops.\<close>

record ('a, 'v) ScanLib =
  sl_arrow :: "('a, 'v list) ArrowLib"
  sl_null :: "LogicalType \<Rightarrow> 'v"
  sl_cast :: "LogicalType \<Rightarrow> byte_string \<Rightarrow> 'v option"
  sl_capacity :: nat

fun next_rows ::
  "('a, 'v) ScanLib \<Rightarrow> 'w QueryEnv \<Rightarrow> nat \<Rightarrow> Data360BindData \<Rightarrow> (('w, 'a) Data360GlobalState, failure, 'v list list) sem" where
  "next_rows lib env fuel bind (ArrowSource expected scan) =
     (case ArrowScanNext (sl_arrow lib) env (sl_capacity lib) fuel fuel expected (qb_types bind) scan of
        (Inl e, scan') \<Rightarrow> (Inl (arrow_failure e), ArrowSource expected scan')
      | (Inr r, scan') \<Rightarrow> (Inr (case r of None \<Rightarrow> [] | Some rows \<Rightarrow> rows), ArrowSource expected scan'))"
| "next_rows lib env fuel bind (RowSource scan) =
     (case FillDataChunk (CursorChunkSource_NextChunk env) (sl_null lib) (sl_cast lib) fuel (qb_types bind) (qb_names bind)
             (sl_capacity lib) scan of
        (Inl e, scan') \<Rightarrow> (Inl (scan_failure e), RowSource scan')
      | (Inr rows, scan') \<Rightarrow> (Inr rows, RowSource scan'))"

definition Data360QueryFunction ::
  "('a, 'v) ScanLib \<Rightarrow> 'w QueryEnv \<Rightarrow> nat \<Rightarrow> Data360BindData \<Rightarrow> (('w, 'a) Data360GlobalState, query_exn, 'v list list) sem" where
  "Data360QueryFunction lib env fuel bind =
     scatch (next_rows lib env fuel bind) (handle_failure (scan_interrupted env) InvalidInputException)"

end
