(* ===== verification/Query_Outcome.thy ===== *)
theory Query_Outcome
  imports Query_Function Query_Errors
begin

text \<open>
  What can come out of \<open>data360_query\<close>: the exceptions of its three functions, and the states and rows
  of a scan.
\<close>

section \<open>The exceptions of a scan\<close>

definition arrow_texts :: "byte_string list" where
  "arrow_texts =
     [''Data 360 Arrow response headers were invalid'', ''Data 360 Arrow result schema changed'',
      ''Data 360 Arrow response exceeded configured limits'']"

definition arrow_errors :: "arrow_scan_exn set" where
  "arrow_errors = range CursorError \<union> range ArrowError \<union> ArrowInput ` set arrow_texts"

lemma arrow_errors_intros:
  "CursorError e \<in> arrow_errors" "ArrowError a \<in> arrow_errors"
  "ArrowInput ''Data 360 Arrow response headers were invalid'' \<in> arrow_errors"
  "ArrowInput ''Data 360 Arrow result schema changed'' \<in> arrow_errors"
  "ArrowInput ''Data 360 Arrow response exceeded configured limits'' \<in> arrow_errors"
  by (simp_all add: arrow_errors_def arrow_texts_def)

lemma raises_count_rows: "raises arrow_errors (count_rows lib capacity fuel rounds n)"
proof (induction rounds arbitrary: n)
  case 0
  show ?case by (subst count_rows.simps) (simp add: raises_atomic arrow_errors_intros)
next
  case (Suc rounds)
  have "raises arrow_errors (scatch (ReaderNext lib capacity fuel) (\<lambda>e. sthrow (ArrowError e)))"
    by (auto simp: raises_def scatch_def sthrow_def arrow_errors_intros split: prod.splits sum.splits)
  with Suc show ?case
    by (subst count_rows.simps) (auto intro!: raises_bind raises_cases raises_atomic simp: arrow_errors_intros)
qed

lemma open_reader_errors: "open_reader lib content_type body expected types = Inl e \<Longrightarrow> e \<in> arrow_errors"
  by (auto simp: open_reader_def arrow_errors_intros split: sum.splits if_splits)

lemma validate_chunk_errors:
  "validate_chunk lib capacity fuel rounds expected types response = Inl e \<Longrightarrow> e \<in> arrow_errors"
proof (cases "ArrowContentType response")
  case (Some content_type)
  assume "validate_chunk lib capacity fuel rounds expected types response = Inl e"
  with Some consider "open_reader lib content_type (rs_body response) expected types = Inl e"
    | validator where "fst (count_rows lib capacity fuel rounds 0 validator) = Inl e"
    by (auto simp: validate_chunk_def ebind_def split: sum.splits)
  then show ?thesis
  proof cases
    case 1
    then show ?thesis by (rule open_reader_errors)
  next
    case 2
    then show ?thesis by (metis raisesD [OF raises_count_rows] prod.collapse)
  qed
qed (auto simp: validate_chunk_def arrow_errors_intros)

lemma raises_on_cursor: "raises arrow_errors (on_cursor m)"
  by (auto simp: raises_def on_cursor_def arrow_errors_intros split: prod.splits sum.splits)

lemma raises_next_vector: "raises arrow_errors (next_vector lib capacity fuel)"
  by (auto simp: raises_def next_vector_def arrow_errors_intros split: prod.splits sum.splits option.splits)

lemma raises_accept_chunk: "raises arrow_errors (accept_chunk lib env capacity fuel rounds expected types response)"
  unfolding accept_chunk_def
  by (auto split: sum.split intro!: raises_then raises_atomic raises_on_cursor dest: validate_chunk_errors)

lemma raises_ArrowScanNext: "raises arrow_errors (ArrowScanNext lib env capacity fuel rounds expected types)"
  by (induction rounds)
    (auto intro!: raises_bind raises_then raises_cases(3) raises_atomic raises_next_vector raises_on_cursor raises_accept_chunk
      simp: arrow_errors_intros)

text \<open>A conversion error names a bound column.\<close>

lemma convert_cells_names:
  "convert_cells null_value cast_value types names cells = Inl (ConversionFailed column) \<Longrightarrow>
     length names = length types \<Longrightarrow> column \<in> set names"
proof (induction types arbitrary: names cells)
  case (Cons t types)
  then obtain n ns c cs where "names = n # ns" "cells = c # cs" by (cases names; cases cells) auto
  with Cons show ?case by (auto simp: ebind_def split: option.splits sum.splits)
qed simp

lemma convert_cells_length:
  "convert_cells null_value cast_value types names cells = Inr vs \<Longrightarrow> length vs = length types"
  by (induction types arbitrary: names cells vs) (auto simp: ebind_Inr split: list.splits)

lemma convert_cells_source: "convert_cells null_value cast_value types names cells \<noteq> Inl (SourceError e)"
  by (induction types arbitrary: names cells) (auto simp: ebind_def split: list.split option.split sum.split)

lemma fill_rows_conversion:
  "fst (fill_rows source convert capacity fuel rows st) = Inl (ConversionFailed column) \<Longrightarrow>
     \<exists>cells. convert cells = Inl (ConversionFailed column)"
proof (induction fuel arbitrary: rows st)
  case 0
  then show ?case by (subst (asm) fill_rows.simps) (auto split: if_splits)
next
  case (Suc fuel)
  from Suc.prems show ?case
    by (subst (asm) fill_rows.simps) (auto split: if_splits prod.splits sum.splits option.splits dest: Suc.IH)
qed

lemma fill_rows_source:
  "fst (fill_rows source convert capacity fuel rows st) = Inl (SourceError e) \<Longrightarrow> (\<And>cells. convert cells \<noteq> Inl (SourceError e)) \<Longrightarrow>
     \<exists>s s'. source s = (Inl e, s')"
proof (induction fuel arbitrary: rows st)
  case 0
  then show ?case by (subst (asm) fill_rows.simps) (auto split: if_splits)
next
  case (Suc fuel)
  from Suc.prems(1) show ?case
    by (subst (asm) fill_rows.simps)
      (auto simp: Suc.prems(2) split: if_splits prod.splits sum.splits option.splits dest: Suc.IH [OF _ Suc.prems(2)])
qed

section \<open>What the handlers let through\<close>

text \<open>The failures of the client, and those with their own text.\<close>

definition failures :: "host_exn set \<Rightarrow> failure set" where
  "failures own = {ReauthFailure, OtherFailure, Stopped NotReturned} \<union> Rethrown ` own"

definition outcomes :: "(byte_string \<Rightarrow> host_exn) \<Rightarrow> host_exn set \<Rightarrow> query_exn set" where
  "outcomes wrap own =
     insert NotReturned (Thrown ` ({InterruptException, wrap (FormatSafeFault REAUTH_REQUIRED),
        wrap ''Data 360 query execution failed''} \<union> own))"

lemma client_failure_failures: "client_failure e \<in> failures own"
  by (cases e) (simp_all add: failures_def)

lemma raises_client_call: "raises (failures own) (client_call m)"
  by (auto simp: raises_def client_call_def scatch_def sthrow_def client_failure_failures split: prod.splits sum.splits)

lemma raises_on_client: "raises E m \<Longrightarrow> raises E (on_client credentials m)"
  by (fastforce simp: raises_def on_client_def split: prod.splits sum.splits)

lemma raises_is_interrupted: "raises E (is_interrupted host)" "raises E (scan_interrupted env)"
  by (auto simp: raises_def is_interrupted_def on_host_def scatch_def ask_def scan_interrupted_def split: prod.splits)

lemma raises_handle_failure:
  assumes "f \<in> failures own" "raises (outcomes wrap own) interrupted"
  shows "raises (outcomes wrap own) (handle_failure interrupted wrap f)"
  using assms unfolding handle_failure_def
  by (cases f) (auto intro!: raises_bind raises_atomic simp: failures_def outcomes_def)

lemma raises_sattempt:
  assumes "raises F m" "\<And>f. f \<in> F \<Longrightarrow> raises E (h f)" "\<And>a. raises E (k a)"
  shows "raises E (sattempt m h k)"
  using assms by (fastforce simp: raises_def sattempt_def split: prod.splits sum.splits)

lemma raises_resolve: "raises (outcomes wrap own) (resolve host wrap credential_id)"
  unfolding resolve_def
  by (rule raises_sattempt [where F = UNIV])
    (auto simp: raises_def outcomes_def sbind_def sthrow_def sret_def is_interrupted_def on_host_def scatch_def ask_def
      split: prod.splits sum.splits)

section \<open>The exceptions of binding and initialisation\<close>

definition secret_texts :: "byte_string \<Rightarrow> byte_string list" where
  "secret_texts name =
     [''Data 360 secret '' @ quoted name @ '' was not found'', ''Secret '' @ quoted name @ '' is not a Data 360 secret'',
      ''Data 360 secret '' @ quoted name @ '' uses an unsupported provider'', ''Data 360 OAuth secret is invalid'']"

definition column_texts :: "byte_string list" where
  "column_texts =
     [''Data 360 query returned no metadata'', ''Data 360 query returned an unnamed column'',
      ''Data 360 metadata contained an unsupported type'']"

definition schema_texts :: "byte_string list" where
  "schema_texts =
     [''Data 360 result schema changed after binding'', ''Data 360 numeric metadata was incomplete'',
      ''Data 360 Arrow metadata contained an unsupported type'']"

text \<open>\<open>OtherException\<close> is an exception of DuckDB's own look-up of the secret.\<close>

definition bind_own :: "byte_string \<Rightarrow> host_exn set" where
  "bind_own name = insert OtherException (BinderException ` set (secret_texts name @ column_texts))"

definition init_own :: "host_exn set" where
  "init_own = InvalidInputException ` set schema_texts"

lemma raises_look_up_secret: "raises (outcomes wrap (bind_own name)) (look_up_secret host name)"
  by (auto simp: raises_def look_up_secret_def on_host_def scatch_def sbind_def ask_def sthrow_def throwing_def sret_def
      secret_credential_def outcomes_def bind_own_def secret_texts_def
      split: prod.splits sum.splits option.splits if_splits)

lemma bind_columns_errors: "bind_columns metadata = Inl text \<Longrightarrow> text \<in> set column_texts"
proof (cases "metadata = []")
  case False
  assume "bind_columns metadata = Inl text"
  with False obtain column where "bind_column column = Inl text"
    by (auto simp: bind_columns_def dest: etraverse_Inl)
  then show ?thesis
    by (auto simp: bind_column_def BindLogicalType_def Let_def column_texts_def split: if_splits option.splits)
qed (simp add: bind_columns_def column_texts_def)

lemma raises_query_metadata: "raises (failures (bind_own name)) (query_metadata js host fuel sql credential_id credentials)"
  unfolding query_metadata_def
  by (intro raises_bind raises_client_call)
    (auto split: sum.split intro!: raises_atomic simp: failures_def bind_own_def dest: bind_columns_errors)

lemma raises_bind_function: "raises (outcomes BinderException (bind_own name)) (Data360QueryBind js host fuel sql name)"
  unfolding Data360QueryBind_def
  by (intro raises_bind raises_look_up_secret raises_resolve
      raises_sattempt [OF raises_on_client [OF raises_query_metadata]] raises_handle_failure raises_is_interrupted)
    (auto split: prod.split intro: raises_atomic)

lemma expected_errors: "ExpectedArrowSchema metadata = Inl text \<Longrightarrow> text \<in> set schema_texts"
proof -
  assume "ExpectedArrowSchema metadata = Inl text"
  then obtain column where "expected_field column = Inl text" by (auto simp: ExpectedArrowSchema_def dest: etraverse_Inl)
  then show ?thesis by (auto simp: expected_field_def Let_def schema_texts_def split: if_splits)
qed

lemma raises_prepare_scan: "raises (failures init_own) (prepare_scan js host fuel bind credentials)"
proof -
  have "raises (failures init_own) (open_source env bind)" for env :: "'w QueryEnv"
    unfolding open_source_def
    by (intro raises_bind raises_then raises_client_call raises_cases(1))
      (auto split: sum.split intro!: raises_atomic simp: failures_def init_own_def schema_texts_def [symmetric]
        dest: expected_errors, simp add: schema_texts_def)
  then have "raises (failures init_own) (destroyed_on_error env (open_source env bind))" for env :: "'w QueryEnv"
    unfolding destroyed_on_error_def
    by (rule raises_catch [rotated]) (intro raises_then raises_client_call raises_atomic)
  then show ?thesis unfolding prepare_scan_def by (intro raises_then raises_client_call)
qed

lemma raises_init_function: "raises (outcomes InvalidInputException init_own) (Data360QueryInit js host fuel bind)"
  unfolding Data360QueryInit_def
  by (intro raises_bind raises_resolve raises_sattempt [OF raises_on_client [OF raises_prepare_scan]]
      raises_handle_failure raises_is_interrupted)
    (auto split: prod.split intro: raises_atomic)

section \<open>The states of a scan\<close>

text \<open>
  A scan: a bound query is initialised, some time later and with the same bind data, and the table
  function is called until it throws. The list is what was delivered so far.
\<close>

inductive scan_run ::
  "('a, 'v) ScanLib \<Rightarrow> 'j Yyjson \<Rightarrow> 'w QueryHost \<Rightarrow> nat \<Rightarrow> Data360BindData \<Rightarrow> 'v list list \<Rightarrow>
     ('w, 'a) Data360GlobalState \<Rightarrow> bool"
  for lib js host fuel bind where
  opened: "Data360QueryBind js host fuel' sql secret_name s = (Inr bind, s1) \<Longrightarrow>
     Data360QueryInit js host fuel'' bind s2 = (Inr g, s3) \<Longrightarrow> scan_run lib js host fuel bind [] g"
| scanned: "scan_run lib js host fuel bind delivered g \<Longrightarrow>
     Data360QueryFunction lib (query_env js host) fuel bind g = (Inr rows, g') \<Longrightarrow>
     scan_run lib js host fuel bind (delivered @ rows) g'"

definition bound :: "Data360BindData \<Rightarrow> bool" where
  "bound bind \<longleftrightarrow> qb_metadata bind \<noteq> [] \<and> qb_names bind = map cm_name (qb_metadata bind) \<and>
     list_all2 (\<lambda>column t. bind_column column = Inr t) (qb_metadata bind) (qb_types bind)"

lemma handle_failure_throws: "handle_failure interrupted wrap f s \<noteq> (Inr a, s')"
  by (cases f) (auto simp: handle_failure_def sthrow_def sbind_def split: prod.splits sum.splits)

lemma Data360QueryBind_bound: "Data360QueryBind js host fuel sql secret_name s = (Inr bind, s1) \<Longrightarrow> bound bind"
  by (auto simp: Data360QueryBind_def run_returns sattempt_def on_client_def query_metadata_def client_call_def scatch_def
      bind_columns_def etraverse_Inr bound_def handle_failure_throws sthrow_def
      split: prod.splits sum.splits if_splits)

lemma open_source_returns:
  assumes "open_source env bind m = (Inr source, m')" "client_run env op cr True m"
  shows "client_run env op cr True m' \<and> s_metadata (m_session m') = qb_metadata bind \<and>
    s_rows (m_session m') = s_rows (m_session m) \<and>
    (case source of None \<Rightarrow> True | Some expected \<Rightarrow> ExpectedArrowSchema (qb_metadata bind) = Inr expected)"
proof -
  from assms(1) have m': "m' = snd (OpenCursor m)" "s_metadata (m_session m) = qb_metadata bind"
    and source: "case source of None \<Rightarrow> True | Some expected \<Rightarrow> ExpectedArrowSchema (qb_metadata bind) = Inr expected"
    by (auto simp: open_source_def run_returns client_call_def scatch_def PreparedMetadata_def OpenCursor_def IsNumberedV3_def
        MetadataCompatible_iff sem_defs split: if_splits sum.splits)
  from m'(1) called [OF assms(2), of CallOpenCursor] have "client_run env op cr True m'" by simp
  moreover from m' assms(1) have "s_metadata (m_session m') = qb_metadata bind" "s_rows (m_session m') = s_rows (m_session m)"
    by (auto simp: OpenCursor_def sem_defs)
  ultimately show ?thesis using source by blast
qed

lemma Data360QueryInit_opened:
  assumes "Data360QueryInit js host fuel bind s = (Inr g, s')"
  shows "\<exists>cr source m. g = global_state source m \<and> client_run (query_env js host) default_QueryOptions cr True m \<and>
    s_metadata (m_session m) = qb_metadata bind \<and> s_rows (m_session m) = 0 \<and>
    (case source of None \<Rightarrow> True | Some expected \<Rightarrow> ExpectedArrowSchema (qb_metadata bind) = Inr expected)"
proof -
  from assms obtain cr source m s1 where g: "g = global_state source m"
    and scan: "prepare_scan js host fuel bind cr (new_client cr s1) = (Inr source, m)"
    by (auto simp: Data360QueryInit_def run_returns sattempt_def on_client_def handle_failure_throws
        split: prod.splits sum.splits)
  then obtain m1 where p: "Prepare (query_env js host) default_QueryOptions fuel (qb_sql bind) cr (new_client cr s1) = (Inr (), m1)"
    and o: "open_source (query_env js host) bind m1 = (Inr source, m)"
    by (auto simp: prepare_scan_def run_returns client_call_def destroyed_on_error_def scatch_def sthrow_def sthen_def sbind_def
        split: prod.splits sum.splits)
  from p have run: "client_run (query_env js host) default_QueryOptions cr True m1"
    unfolding Prepare_def by (rule prepared [rotated]) (simp add: new_client_def)
  from p have "s_rows (m_session m1) = 0"
    using PrepareInternal_nothing_yet [of "query_env js host" default_QueryOptions fuel "qb_sql bind" cr False "new_client cr s1" m1]
    by (simp add: Prepare_def collected_def total_rows_def unat_eq_zero)
  with open_source_returns [OF o run] g show ?thesis
    by (intro exI [of _ cr] exI [of _ source] exI [of _ m]) simp
qed

section \<open>The rows of a scan\<close>

text \<open>The four ways a round of the loop goes on when the loop returns.\<close>

lemma fill_rows_round:
  assumes "fill_rows source convert capacity fuel rows st = (Inr rows', st')"
  obtains (full) "\<not> (length rows < capacity \<and> \<not> sc_exhausted st)" "rows' = rows" "st' = st"
  | (finished) s1 where "length rows < capacity" "rows' = rows" "\<not> sc_exhausted st"
      "length (ch_rows (sc_current_chunk st)) \<le> sc_current_row st" "source (sc_source st) = (Inr None, s1)"
      "st' = st\<lparr>sc_source := s1, sc_current_chunk := empty_ResultChunk, sc_current_row := 0, sc_exhausted := True\<rparr>"
  | (fetched) fuel' c s1 where "fuel = Suc fuel'" "\<not> sc_exhausted st" "source (sc_source st) = (Inr (Some c), s1)"
      "length (ch_rows (sc_current_chunk st)) \<le> sc_current_row st"
      "fill_rows source convert capacity fuel' rows (st\<lparr>sc_source := s1, sc_current_chunk := c, sc_current_row := 0\<rparr>) = (Inr rows', st')"
  | (converted) fuel' v where "fuel = Suc fuel'" "length rows < capacity" "sc_current_row st < length (ch_rows (sc_current_chunk st))"
      "convert (ch_rows (sc_current_chunk st) ! sc_current_row st) = Inr v"
      "fill_rows source convert capacity fuel' (rows @ [v]) (st\<lparr>sc_current_row := sc_current_row st + 1\<rparr>) = (Inr rows', st')"
proof (cases "length rows < capacity \<and> \<not> sc_exhausted st")
  case False
  with assms have "rows' = rows" "st' = st" by (subst (asm) fill_rows.simps, auto)+
  with False show thesis by (rule full)
next
  case True
  with assms obtain fuel' where fuel: "fuel = Suc fuel'" by (subst (asm) fill_rows.simps) (cases fuel, auto)
  show thesis
  proof (cases "length (ch_rows (sc_current_chunk st)) \<le> sc_current_row st")
    case fetch: True
    obtain out s1 where out: "source (sc_source st) = (out, s1)" by force
    show thesis
    proof (cases "\<exists>c. out = Inr (Some c)")
      case more: True
      with fetched [OF fuel] True out fetch assms fuel show thesis by (subst (asm) fill_rows.simps) auto
    next
      case False
      with finished True out fetch assms fuel show thesis
        by (subst (asm) fill_rows.simps) (auto split: sum.splits option.splits)
    qed
  next
    case False
    with converted [OF fuel] True assms fuel show thesis
      by (subst (asm) fill_rows.simps) (auto split: sum.splits)
  qed
qed

lemma fill_rows_result:
  "fill_rows source convert capacity fuel rows st = (Inr rows', st') \<Longrightarrow> length rows \<le> capacity \<Longrightarrow>
     length rows' \<le> capacity \<and> (length rows' < capacity \<longrightarrow> sc_exhausted st') \<and>
     (\<forall>row \<in> set rows'. row \<in> set rows \<or> (\<exists>cells. convert cells = Inr row))"
proof (induction fuel arbitrary: rows st rule: less_induct)
  case (less fuel)
  from less.prems(1) show ?case
  proof (cases rule: fill_rows_round)
    case (fetched fuel' c s1)
    with less.IH [of fuel'] less.prems(2) show ?thesis by blast
  next
    case (converted fuel' v)
    with less.IH [of fuel' "rows @ [v]"] show ?thesis by fastforce
  qed (use less.prems(2) in auto)
qed

context chunk_source begin

lemma fill_rows_keeps:
  "scan_ok k st \<Longrightarrow> fill_rows source convert capacity fuel rows st = (Inr rows', st') \<Longrightarrow> \<exists>k' \<le> k. scan_ok k' st'"
proof (induction fuel arbitrary: k rows st rule: less_induct)
  case (less fuel)
  from less.prems(2) show ?case
  proof (cases rule: fill_rows_round)
    case (fetched fuel' c s1)
    with less.prems(1) have i: "inv k (sc_source st)" by (simp add: scan_ok_def)
    from progress [OF i fetched(3)] row_width [OF i fetched(3)] obtain k' where "k' < k"
      "scan_ok k' (st\<lparr>sc_source := s1, sc_current_chunk := c, sc_current_row := 0\<rparr>)" by (auto simp: scan_ok_def)
    with less.IH [OF _ _ fetched(5), of k'] fetched(1) show ?thesis by (auto intro: order_trans less_imp_le)
  next
    case (converted fuel' v)
    have "scan_ok k (st\<lparr>sc_current_row := sc_current_row st + 1\<rparr>)" using less.prems(1) by (simp add: scan_ok_def)
    with less.IH [OF _ _ converted(5), of k] converted(1) show ?thesis by simp
  qed (use less.prems(1) in \<open>auto simp: scan_ok_def empty_ResultChunk_def\<close>)
qed

end

text \<open>What every state of a scan satisfies.\<close>

definition state_ok :: "Data360BindData \<Rightarrow> ('w, 'a) Data360GlobalState \<Rightarrow> bool" where
  "state_ok bind g \<longleftrightarrow>
     (case g of
        ArrowSource expected scan \<Rightarrow> ExpectedArrowSchema (qb_metadata bind) = Inr expected
      | RowSource scan \<Rightarrow>
          (\<exists>k \<le> unat (op_max_chunks default_QueryOptions). cursor.scan_ok default_QueryOptions (qb_metadata bind) k scan))"

lemma Data360QueryInit_ok: "Data360QueryInit js host fuel bind s = (Inr g, s') \<Longrightarrow> state_ok bind g"
proof -
  assume "Data360QueryInit js host fuel bind s = (Inr g, s')"
  from Data360QueryInit_opened [OF this] obtain cr source m where g: "g = global_state source m"
    and run: "client_run (query_env js host) default_QueryOptions cr True m" and md: "s_metadata (m_session m) = qb_metadata bind"
    and source: "case source of None \<Rightarrow> True | Some expected \<Rightarrow> ExpectedArrowSchema (qb_metadata bind) = Inr expected" by blast
  have "cursor.scan_ok default_QueryOptions (qb_metadata bind)
      (unat (op_max_chunks default_QueryOptions) - unat (s_fetched_chunks (m_session m))) (new_scan m)"
    using run_live [OF run] md by (simp add: cursor.scan_ok_def cursor_inv_def new_scan_def empty_ResultChunk_def)
  then have "\<exists>k \<le> unat (op_max_chunks default_QueryOptions).
      cursor.scan_ok default_QueryOptions (qb_metadata bind) k (new_scan m)" by (meson diff_le_self)
  with g source show ?thesis by (auto simp: state_ok_def global_state_def split: option.splits)
qed

lemma Data360QueryFunction_returns:
  "Data360QueryFunction lib env fuel bind g = (Inr rows, g') \<longleftrightarrow> next_rows lib env fuel bind g = (Inr rows, g')"
  by (auto simp: Data360QueryFunction_def scatch_def handle_failure_throws split: prod.splits sum.splits)

lemma Data360QueryFunction_ok:
  assumes "state_ok bind g" "Data360QueryFunction lib env fuel bind g = (Inr rows, g')"
  shows "state_ok bind g'"
proof (cases g)
  case (ArrowSource expected scan)
  with assms show ?thesis by (auto simp: Data360QueryFunction_returns state_ok_def split: prod.splits sum.splits)
next
  case (RowSource scan)
  with assms obtain k scan' where "cursor.scan_ok default_QueryOptions (qb_metadata bind) k scan" and g': "g' = RowSource scan'"
    and k: "k \<le> unat (op_max_chunks default_QueryOptions)"
    and fill: "fill_rows (CursorChunkSource_NextChunk env) (convert_cells (sl_null lib) (sl_cast lib) (qb_types bind) (qb_names bind))
      (sl_capacity lib) fuel [] scan = (Inr rows, scan')"
    by (auto simp: Data360QueryFunction_returns state_ok_def FillDataChunk_def split: prod.splits sum.splits)
  from cursor.fill_rows_keeps [OF this(1) fill] k g' show ?thesis by (auto simp: state_ok_def intro: order_trans)
qed

lemma scan_run_ok: "scan_run lib js host fuel bind delivered g \<Longrightarrow> bound bind \<and> state_ok bind g"
  by (induction rule: scan_run.induct) (auto intro: Data360QueryBind_bound Data360QueryInit_ok Data360QueryFunction_ok)

section \<open>The exceptions of the table function\<close>

definition conversion_text :: "byte_string \<Rightarrow> byte_string" where
  "conversion_text column = ''Data 360 value conversion failed for column '' @ quoted column"

definition scan_own :: "Data360BindData \<Rightarrow> host_exn set" where
  "scan_own bind =
     InvalidInputException ` ({INVALID_ARROW_ERROR} \<union> set arrow_texts \<union> conversion_text ` set (qb_names bind))"

lemma arrow_failure_failures: "e \<in> arrow_errors \<Longrightarrow> arrow_failure e \<in> failures (scan_own bind)"
proof (cases e)
  case (ArrowError a)
  then show ?thesis by (cases a) (auto simp: failures_def scan_own_def)
qed (auto simp: arrow_errors_def client_failure_failures, auto simp: failures_def scan_own_def)

lemma row_source_safe:
  assumes "bound bind" "state_ok bind (RowSource scan :: ('w, 'a) Data360GlobalState)"
    "sl_capacity lib + unat (op_max_chunks default_QueryOptions) < fuel"
  shows "\<not> scan_fault (fst (fill_rows (CursorChunkSource_NextChunk env)
     (convert_cells (sl_null lib) (sl_cast lib) (qb_types bind) (qb_names bind)) (sl_capacity lib) fuel [] scan))"
proof -
  have lengths: "length (qb_names bind) = length (qb_types bind)" "length (qb_metadata bind) = length (qb_types bind)"
    using assms(1) by (auto simp: bound_def dest: list_all2_lengthD)
  from assms(2) obtain k where "cursor.scan_ok default_QueryOptions (qb_metadata bind) k scan"
    "k \<le> unat (op_max_chunks default_QueryOptions)" by (auto simp: state_ok_def)
  then show ?thesis
    by (intro cursor.fill_rows_safe [where op = default_QueryOptions and md = "qb_metadata bind" and k = k])
      (use assms(3) lengths in \<open>auto simp: convert_cells_width\<close>)
qed

lemma next_rows_failures:
  assumes "bound bind" "state_ok bind g" "sl_capacity lib + unat (op_max_chunks default_QueryOptions) < fuel"
    "next_rows lib env fuel bind g = (Inl f, g')"
  shows "f \<in> failures (scan_own bind)"
proof (cases g)
  case (ArrowSource expected scan)
  with assms(4) obtain e scan' where "ArrowScanNext (sl_arrow lib) env (sl_capacity lib) fuel fuel expected (qb_types bind) scan = (Inl e, scan')"
    and f: "f = arrow_failure e" by (auto split: prod.splits sum.splits)
  from raisesD [OF raises_ArrowScanNext this(1)] f show ?thesis by (simp add: arrow_failure_failures)
next
  case (RowSource scan)
  let ?convert = "convert_cells (sl_null lib) (sl_cast lib) (qb_types bind) (qb_names bind)"
  let ?fill = "fill_rows (CursorChunkSource_NextChunk env) ?convert (sl_capacity lib) fuel [] scan"
  have lengths: "length (qb_names bind) = length (qb_types bind)" "length (qb_metadata bind) = length (qb_types bind)"
    using assms(1) by (auto simp: bound_def dest: list_all2_lengthD)
  from RowSource assms(4) obtain e where e: "fst ?fill = Inl e" "f = scan_failure e"
    by (auto simp: FillDataChunk_def split: prod.splits sum.splits)
  have "\<not> scan_fault (fst ?fill)" using assms(1-3) RowSource by (intro row_source_safe) simp_all
  with e have e': "e \<noteq> ScanOutOfFuel" "e \<noteq> RowTooShort" by (auto simp: scan_fault_def)
  show ?thesis
  proof (cases e)
    case (ConversionFailed column)
    with e(1) fill_rows_conversion have "\<exists>cells. ?convert cells = Inl (ConversionFailed column :: exn scan_exn)" by blast
    with lengths convert_cells_names have "column \<in> set (qb_names bind)" by blast
    with ConversionFailed e(2) show ?thesis by (auto simp: failures_def scan_own_def conversion_text_def)
  qed (use e(2) e' client_failure_failures in auto)
qed

text \<open>A row source never stops short: its cursor has no loop of its own.\<close>

lemma row_source_returns:
  fixes lib :: "('a, 'v) ScanLib"
  assumes "bound bind" "state_ok bind (RowSource scan :: ('w, 'a) Data360GlobalState)"
    "sl_capacity lib + unat (op_max_chunks default_QueryOptions) < fuel"
  shows "fst (next_rows lib env fuel bind (RowSource scan :: ('w, 'a) Data360GlobalState)) \<noteq> Inl (Stopped e)"
proof
  let ?convert = "convert_cells (sl_null lib) (sl_cast lib) (qb_types bind) (qb_names bind)"
  let ?fill = "fill_rows (CursorChunkSource_NextChunk env) ?convert (sl_capacity lib) fuel [] scan"
  assume "fst (next_rows lib env fuel bind (RowSource scan :: ('w, 'a) Data360GlobalState)) = Inl (Stopped e)"
  then obtain x where x: "fst ?fill = Inl x" "scan_failure x = Stopped e"
    by (auto simp: FillDataChunk_def split: prod.splits sum.splits)
  have "\<not> scan_fault (fst ?fill)" by (rule row_source_safe [OF assms])
  with x obtain y where y: "x = SourceError y" by (cases x) (auto simp: scan_fault_def)
  from fill_rows_source [of "CursorChunkSource_NextChunk env" ?convert, OF x(1) [unfolded y] convert_cells_source]
  obtain s s' where "NextChunk env s = (Inl y, s')" by (auto simp: CursorChunkSource_NextChunk_def)
  from raisesD [OF raises_NextChunk this] no_fuel_error have "y \<noteq> OutOfFuel" by blast
  with x(2) y show False by (cases y) simp_all
qed

lemma row_scan_returns:
  fixes lib :: "('a, 'v) ScanLib"
  assumes "scan_run lib js host fuel bind delivered (RowSource scan)"
    "sl_capacity lib + unat (op_max_chunks default_QueryOptions) < fuel"
  shows "fst (Data360QueryFunction lib env fuel bind (RowSource scan)) \<noteq> Inl NotReturned"
proof -
  obtain r g where run: "next_rows lib env fuel bind (RowSource scan) = (r, g)" by force
  with row_source_returns [where e = NotReturned] scan_run_ok [OF assms(1)] assms(2) have "r \<noteq> Inl (Stopped NotReturned)"
    by (metis fst_conv)
  with run show ?thesis
    by (cases r; cases "projl r")
      (auto simp: Data360QueryFunction_def scatch_def handle_failure_def sthrow_def sbind_def scan_interrupted_def split: prod.split)
qed

lemma scan_exceptions:
  fixes lib :: "('a, 'v) ScanLib"
  assumes "scan_run lib js host fuel bind delivered g" "sl_capacity lib + unat (op_max_chunks default_QueryOptions) < fuel"
    "Data360QueryFunction lib env fuel bind g = (Inl e, g')"
  shows "e \<in> outcomes InvalidInputException (scan_own bind)"
proof -
  from assms(3) obtain f g1 where "next_rows lib env fuel bind g = (Inl f, g1)"
    and h: "handle_failure (scan_interrupted env) InvalidInputException f g1 = (Inl e :: query_exn + 'v list list, g')"
    unfolding Data360QueryFunction_def scatch_def
    by (cases "next_rows lib env fuel bind g"; cases "fst (next_rows lib env fuel bind g)") auto
  with next_rows_failures scan_run_ok [OF assms(1)] assms(2) have "f \<in> failures (scan_own bind)" by blast
  from raisesD [OF raises_handle_failure [OF this raises_is_interrupted(2)] h] show ?thesis .
qed

end
