(* ===== verification/Query_Account.thy ===== *)
theory Query_Account
  imports Query_Outcome
begin

text \<open>
  The account of a scan: the rows handed to DuckDB and the rows still at hand are together the rows the
  cursor has counted, so that at the end of a scan the rows delivered are the rows announced.
\<close>

section \<open>The cursor\<close>

lemma NextArrowChunk_rows:
  assumes "NextArrowChunk env s = (Inr r, s')"
  shows "s_rows (m_session s') = s_rows (m_session s)"
proof -
  have "keeps (tally_is md n k) (NextArrowChunk env)" for md n k
    unfolding NextArrowChunk_def fetch_arrow_def Finish_def cancel_on_error_def
    by (intro keeps_bind keeps_then keeps_cases keeps_atomic keeps_modify keeps_catch keeps_tally_of_counters
        keeps_intros)
      (simp_all add: tally_is_def arrow_request_def)
  from keepsD [OF this _ assms] show ?thesis by (auto simp: tally_is_def)
qed

lemma NextArrowChunk_finished:
  assumes "client_run env op cr True s" "NextArrowChunk env s = (Inr None, s')"
  shows "reconciled s'"
proof -
  have life: "lifecycle s'" using keepsD [OF keeps_lifecycle_NextArrowChunk run_lifecycle [OF assms(1)] assms(2)] .
  have "s_reconciled (m_session s')"
    using assms(2)
    by (auto simp: NextArrowChunk_def fetch_arrow_def Finish_def cancel_on_error_def run_returns scatch_def sthen_def sbind_def sthrow_def
        sem_defs split: if_splits sum.splits prod.splits)
  with life show ?thesis by (auto simp: lifecycle_def active_def cancelled_def)
qed

lemma NextChunk_finished:
  assumes "client_run env op cr True s" "NextChunk env s = (Inr None, s')"
  shows "reconciled s'"
proof (cases "active s")
  case True
  with NextChunk_ends [OF _ assms(2)] show ?thesis by (simp add: ended_or_active_def)
next
  case False
  with run_lifecycle [OF assms(1)] assms(2) show ?thesis
    by (auto simp: lifecycle_def cancelled_def reconciled_def NextChunk_def run_returns split: if_splits)
qed

lemma NextChunk_rows:
  assumes "client_run env op cr True s" "NextChunk env s = (Inr r, s')"
  shows "s_rows (m_session s') = s_rows (m_session s) + (case r of None \<Rightarrow> 0 | Some c \<Rightarrow> size_u64 (ch_rows c))"
proof -
  have "tally_is (s_metadata (m_session s)) (s_rows (m_session s)) (s_fetched_chunks (m_session s)) s" by (simp add: tally_is_def)
  moreover have "budgeted op s" using run_live [OF assms(1)] by simp
  ultimately have "one_more (s_metadata (m_session s)) (s_rows (m_session s)) (s_fetched_chunks (m_session s)) r s'"
    using triple_ret [OF NextChunk_tally _ assms(2)] by blast
  then have "unat (s_rows (m_session s')) =
      unat (s_rows (m_session s)) + unat (case r of None \<Rightarrow> 0 | Some c \<Rightarrow> size_u64 (ch_rows c))"
    by (auto simp: one_more_def tally_is_def split: option.splits)
  from arg_cong [where f = "of_nat :: nat \<Rightarrow> u64", OF this] show ?thesis by simp
qed

section \<open>A row source\<close>

text \<open>The rows are counted in 64 bits; \<open>n\<close> of them have been delivered.\<close>

definition row_account :: "'w QueryEnv \<Rightarrow> QueryCredentials \<Rightarrow> nat \<Rightarrow> 'w Machine ScanState \<Rightarrow> bool" where
  "row_account env cr n st \<longleftrightarrow> client_run env default_QueryOptions cr True (sc_source st) \<and>
     (sc_exhausted st \<longrightarrow> reconciled (sc_source st) \<and> ch_rows (sc_current_chunk st) = []) \<and>
     s_rows (m_session (sc_source st)) = of_nat (n + length (drop (sc_current_row st) (ch_rows (sc_current_chunk st))))"

lemma fill_rows_account:
  assumes "fill_rows (CursorChunkSource_NextChunk env) convert capacity fuel rows st = (Inr rows', st')"
    "row_account env cr (n + length rows) st"
  shows "row_account env cr (n + length rows') st'"
  using assms
proof (induction fuel arbitrary: rows st rule: less_induct)
  case (less fuel)
  note account = less.prems(2) [unfolded row_account_def]
  from less.prems(1) show ?case
  proof (cases rule: fill_rows_round)
    case full
    with less.prems(2) show ?thesis by simp
  next
    case (finished s1)
    from finished(5) have step: "NextChunk env (sc_source st) = (Inr None, s1)" by (simp add: CursorChunkSource_NextChunk_def)
    have "client_run env default_QueryOptions cr True s1"
      using called [of env default_QueryOptions cr "sc_source st" CallNextChunk] account step by simp
    moreover have "s_rows (m_session s1) = s_rows (m_session (sc_source st))" "reconciled s1"
      using NextChunk_rows [OF _ step] NextChunk_finished [OF _ step] account by auto
    ultimately show ?thesis
      using account finished by (simp add: row_account_def empty_ResultChunk_def)
  next
    case (fetched fuel' c s1)
    from fetched(3) have step: "NextChunk env (sc_source st) = (Inr (Some c), s1)" by (simp add: CursorChunkSource_NextChunk_def)
    have "client_run env default_QueryOptions cr True s1"
      using called [of env default_QueryOptions cr "sc_source st" CallNextChunk] account step by simp
    moreover have "s_rows (m_session s1) = s_rows (m_session (sc_source st)) + size_u64 (ch_rows c)"
      using NextChunk_rows [OF _ step] account by auto
    ultimately have "row_account env cr (n + length rows) (st\<lparr>sc_source := s1, sc_current_chunk := c, sc_current_row := 0\<rparr>)"
      using account fetched(2,4) by (simp add: row_account_def size_u64_def)
    with less.IH [OF _ fetched(5)] fetched(1) show ?thesis by simp
  next
    case (converted fuel' v)
    have "row_account env cr (n + length (rows @ [v])) (st\<lparr>sc_current_row := sc_current_row st + 1\<rparr>)"
      using account converted(3) by (auto simp: row_account_def)
    with less.IH [OF _ converted(5)] converted(1) show ?thesis by simp
  qed
qed

section \<open>An Arrow source\<close>

text \<open>The rows of the current reader that are still to come are those of the vectors it will deliver.\<close>

definition arrow_account ::
  "('a, 'v) ArrowLib \<Rightarrow> 'w QueryEnv \<Rightarrow> nat \<Rightarrow> nat \<Rightarrow> QueryCredentials \<Rightarrow> nat \<Rightarrow> ('w, 'a) ArrowScan \<Rightarrow> bool" where
  "arrow_account lib env capacity fuel cr n scan \<longleftrightarrow> client_run env default_QueryOptions cr True (sn_machine scan) \<and>
     (\<exists>vs. (case sn_reader scan of None \<Rightarrow> vs = [] | Some reader \<Rightarrow> vectors lib capacity fuel reader vs) \<and>
        list_all (\<lambda>v. v \<noteq> [] \<and> length v \<le> capacity) vs \<and>
        s_rows (m_session (sn_machine scan)) = of_nat (n + length (concat vs)))"

inductive_cases vectors_NilE: "vectors lib capacity fuel s []"

lemma next_vector_account:
  assumes "next_vector lib capacity fuel scan = (Inr r, scan')" "arrow_account lib env capacity fuel cr n scan"
  shows "case r of
      None \<Rightarrow> arrow_account lib env capacity fuel cr n scan' \<and> sn_reader scan' = None
    | Some v \<Rightarrow> arrow_account lib env capacity fuel cr (n + length v) scan' \<and> v \<noteq> [] \<and> length v \<le> capacity"
proof (cases "sn_reader scan")
  case None
  with assms show ?thesis by (auto simp: next_vector_def)
next
  case (Some reader)
  from assms(2) Some obtain vs where run: "client_run env default_QueryOptions cr True (sn_machine scan)"
    and vs: "vectors lib capacity fuel reader vs" "list_all (\<lambda>v. v \<noteq> [] \<and> length v \<le> capacity) vs"
    and rows: "s_rows (m_session (sn_machine scan)) = of_nat (n + length (concat vs))" by (auto simp: arrow_account_def)
  show ?thesis
  proof (cases vs)
    case Nil
    with vs(1) obtain s' where "ReaderNext lib capacity fuel reader = (Inr None, s')" by (auto elim: vectors_NilE)
    with assms(1) Some run rows Nil show ?thesis by (auto simp: next_vector_def arrow_account_def)
  next
    case (Cons v vs')
    with vs(1) obtain s' where "ReaderNext lib capacity fuel reader = (Inr (Some v), s')" "vectors lib capacity fuel s' vs'"
      by (auto elim: vectors_ConsE)
    with assms(1) Some run rows vs(2) Cons show ?thesis
      by (auto simp: next_vector_def arrow_account_def add.assoc intro!: exI [of _ vs'])
  qed
qed

lemma accept_chunk_account:
  assumes "accept_chunk lib env capacity fuel rounds expected types response scan = (Inr (), scan')"
    "arrow_account lib env capacity fuel cr n scan" "sn_reader scan = None"
    and lib: "slices lib rows_of" "0 < capacity" "capacity < 2 ^ 64"
  shows "arrow_account lib env capacity fuel cr n scan'"
proof -
  from assms(1) obtain k reader m where v: "validate_chunk lib capacity fuel rounds expected types response = Inr (k, reader)"
    and report: "ReportArrowChunk env k (sn_machine scan) = (Inr (), m)" and scan': "scan' = scan\<lparr>sn_machine := m, sn_reader := Some reader\<rparr>"
    by (auto simp: accept_chunk_def run_returns sthen_def on_cursor_def split: sum.splits prod.splits)
  from validate_chunk_vectors [OF v lib] obtain vs where vs: "vectors lib capacity fuel reader vs" "unat k = length (concat vs)"
    "list_all (\<lambda>v. v \<noteq> [] \<and> length v \<le> capacity) vs" by blast
  have "k = of_nat (unat k)" by simp
  then have k: "k = of_nat (length (concat vs))" by (simp only: vs(2))
  have run: "client_run env default_QueryOptions cr True m"
    using called [of env default_QueryOptions cr "sn_machine scan" "CallReportArrowChunk k"] assms(2) report
    by (simp add: arrow_account_def)
  have "s_rows (m_session m) = of_nat (n + length (concat vs))"
    using ReportArrowChunk_rows [OF report] assms(2,3) k by (simp add: arrow_account_def)
  with run vs scan' show ?thesis by (auto simp: arrow_account_def)
qed

lemma ArrowScanNext_account:
  assumes "ArrowScanNext lib env capacity fuel rounds expected types scan = (Inr r, scan')"
    "arrow_account lib env capacity fuel cr n scan"
    and lib: "slices lib rows_of" "0 < capacity" "capacity < 2 ^ 64"
  shows "case r of
      None \<Rightarrow> arrow_account lib env capacity fuel cr n scan' \<and> sn_reader scan' = None \<and> reconciled (sn_machine scan')
    | Some v \<Rightarrow> arrow_account lib env capacity fuel cr (n + length v) scan' \<and> v \<noteq> [] \<and> length v \<le> capacity"
  using assms(1,2)
proof (induction rounds arbitrary: scan)
  case (Suc rounds)
  from Suc.prems(1) obtain q s1 where nxt: "next_vector lib capacity fuel scan = (Inr q, s1)"
    and rest: "(case q of Some rows \<Rightarrow> sret (Some rows) | None \<Rightarrow>
           sbind (on_cursor (NextArrowChunk env)) (\<lambda>fetched.
             case fetched of
               None \<Rightarrow> sret None
             | Some response \<Rightarrow>
                 sthen (accept_chunk lib env capacity fuel rounds expected types response)
                   (ArrowScanNext lib env capacity fuel rounds expected types))) s1 = (Inr r, scan')"
    by (auto simp: sbind_returns)
  note step = next_vector_account [OF nxt Suc.prems(2)]
  show ?case
  proof (cases q)
    case (Some v)
    with step rest show ?thesis by (auto simp: atomic_returns)
  next
    case None
    with step have a1: "arrow_account lib env capacity fuel cr n s1" "sn_reader s1 = None" by auto
    from None rest obtain f s2 where f: "on_cursor (NextArrowChunk env) s1 = (Inr f, s2)"
      and go: "(case f of None \<Rightarrow> sret None | Some response \<Rightarrow>
                 sthen (accept_chunk lib env capacity fuel rounds expected types response)
                   (ArrowScanNext lib env capacity fuel rounds expected types)) s2 = (Inr r, scan')"
      by (auto simp: sbind_returns)
    from f obtain m where m: "NextArrowChunk env (sn_machine s1) = (Inr f, m)" "s2 = s1\<lparr>sn_machine := m\<rparr>"
      by (auto simp: on_cursor_def split: prod.splits sum.splits)
    have run: "client_run env default_QueryOptions cr True (sn_machine s1)" using a1 by (simp add: arrow_account_def)
    have "client_run env default_QueryOptions cr True m"
      using called [OF run, of CallNextArrowChunk] m(1) by simp
    with a1 m NextArrowChunk_rows [OF m(1)] have a2: "arrow_account lib env capacity fuel cr n s2" "sn_reader s2 = None"
      by (auto simp: arrow_account_def)
    show ?thesis
    proof (cases f)
      case None
      with go a2 NextArrowChunk_finished [OF run] m show ?thesis by (auto simp: atomic_returns)
    next
      case (Some response)
      with go obtain s3 where "accept_chunk lib env capacity fuel rounds expected types response s2 = (Inr (), s3)"
        "ArrowScanNext lib env capacity fuel rounds expected types s3 = (Inr r, scan')" by (auto simp: run_returns)
      with Suc.IH [of s3] accept_chunk_account [OF _ a2 lib] show ?thesis by simp
    qed
  qed
qed (simp add: sthrow_def)

section \<open>The whole scan\<close>

fun scan_account ::
  "('a, 'v) ScanLib \<Rightarrow> 'w QueryEnv \<Rightarrow> nat \<Rightarrow> QueryCredentials \<Rightarrow> nat \<Rightarrow> ('w, 'a) Data360GlobalState \<Rightarrow> bool" where
  "scan_account lib env fuel cr n (ArrowSource expected scan) = arrow_account (sl_arrow lib) env (sl_capacity lib) fuel cr n scan"
| "scan_account lib env fuel cr n (RowSource st) = row_account env cr n st"

lemma scan_account_run: "scan_account lib env fuel cr n g \<Longrightarrow> client_run env default_QueryOptions cr True (state_machine g)"
  by (cases g) (simp_all add: arrow_account_def row_account_def)

lemma Data360QueryInit_account:
  assumes "Data360QueryInit js host fuel' bind s = (Inr g, s')"
  shows "\<exists>cr. scan_account lib (query_env js host) fuel cr 0 g"
proof -
  from Data360QueryInit_opened [OF assms] obtain cr source m where "g = global_state source m"
    "client_run (query_env js host) default_QueryOptions cr True m" "s_rows (m_session m) = 0" by blast
  then have "scan_account lib (query_env js host) fuel cr 0 g"
    by (cases source) (simp_all add: global_state_def arrow_account_def row_account_def new_scan_def empty_ResultChunk_def)
  then show ?thesis ..
qed

lemma Data360QueryFunction_account:
  assumes "Data360QueryFunction lib env fuel bind g = (Inr rows, g')" "scan_account lib env fuel cr n g"
    and lib: "slices (sl_arrow lib) rows_of" "0 < sl_capacity lib" "sl_capacity lib < 2 ^ 64"
  shows "scan_account lib env fuel cr (n + length rows) g' \<and> length rows \<le> sl_capacity lib \<and>
    (rows = [] \<longrightarrow> reconciled (state_machine g') \<and> s_rows (m_session (state_machine g')) = of_nat n)"
proof (cases g)
  case (ArrowSource expected scan)
  with assms(1) obtain r scan' where run: "ArrowScanNext (sl_arrow lib) env (sl_capacity lib) fuel fuel expected (qb_types bind) scan = (Inr r, scan')"
    and rows: "rows = (case r of None \<Rightarrow> [] | Some v \<Rightarrow> v)" and g': "g' = ArrowSource expected scan'"
    by (auto simp: Data360QueryFunction_returns split: prod.splits sum.splits)
  from ArrowScanNext_account [OF run _ lib, of cr n] assms(2) ArrowSource rows g' show ?thesis
    by (cases r) (auto simp: arrow_account_def)
next
  case (RowSource st)
  with assms(1) obtain st' where run: "fill_rows (CursorChunkSource_NextChunk env)
      (convert_cells (sl_null lib) (sl_cast lib) (qb_types bind) (qb_names bind)) (sl_capacity lib) fuel [] st = (Inr rows, st')"
    and g': "g' = RowSource st'"
    by (auto simp: Data360QueryFunction_returns FillDataChunk_def split: prod.splits sum.splits)
  from fill_rows_account [OF run, of cr n] assms(2) RowSource have "row_account env cr (n + length rows) st'" by simp
  with fill_rows_result [OF run] g' lib(2) show ?thesis by (auto simp: row_account_def)
qed

lemma scan_run_account:
  assumes "scan_run lib js host fuel bind delivered g"
    and lib: "slices (sl_arrow lib) rows_of" "0 < sl_capacity lib" "sl_capacity lib < 2 ^ 64"
  shows "\<exists>cr. scan_account lib (query_env js host) fuel cr (length delivered) g"
  using assms(1)
proof (induction rule: scan_run.induct)
  case (opened fuel' sql secret_name s s1 fuel'' s2 g s3)
  from Data360QueryInit_account [OF opened(2)] show ?case by simp
next
  case (scanned delivered g rows g')
  then obtain cr where "scan_account lib (query_env js host) fuel cr (length delivered) g" by blast
  from Data360QueryFunction_account [OF scanned(2) this lib] show ?case by auto
qed

end
