(* ===== verification/Query_Return.thy ===== *)
theory Query_Return
  imports Query_Outcome Query_Polling
begin

text \<open>
  The waiting of \<open>data360_query\<close>: the sleep of the runtime of \<open>data360_extension.cpp\<close> lasts as long as
  it is asked to, unless the connection is interrupted, and so the binding and the initialisation of a
  query come to an end.
\<close>

section \<open>The contract of the clock\<close>

text \<open>
  What the runtime relies on: the steady clock, in nanoseconds, does not run backwards, and
  \<open>sleep_for\<close> blocks for at least the given time.
\<close>

locale host_clock =
  fixes host :: "'w QueryHost" and ns :: "'w \<Rightarrow> nat"
  assumes steady_reads: "fst (qh_SteadyNs host w) = int (ns w)"
    and steady_forward: "ns w \<le> ns (snd (qh_SteadyNs host w))"
    and interrupt_forward: "ns w \<le> ns (snd (ah_IsInterrupted (qh_auth host) w))"
    and send_forward: "ns w \<le> ns (snd (ah_Send (qh_auth host) r w))"
    and sleeps: "ns w + n * 1000000 \<le> ns (qh_SleepFor host n w)"
begin

text \<open>A round of the loop takes ten milliseconds, so a round per ten milliseconds is enough.\<close>

lemma sleep_until_ends:
  assumes "deadline \<le> int (ns w + fuel * 10000000)"
  shows "\<exists>w'. sleep_until host fuel deadline w = Some w' \<and> ns w \<le> ns w' \<and>
    (deadline \<le> int (ns w') \<or> (\<exists>w1. runtime_IsCancelled host w1 = (True, w')))"
  using assms
proof (induction fuel arbitrary: w)
  case (0 w)
  obtain b w1 now w2 where step: "runtime_IsCancelled host w = (b, w1)" "qh_SteadyNs host w1 = (now, w2)" by (metis surj_pair)
  with interrupt_forward [of w] steady_reads [of w1] steady_forward [of w1]
  have "ns w \<le> ns w1" "now = int (ns w1)" "ns w1 \<le> ns w2" by (simp_all add: runtime_IsCancelled_def)
  with step 0 show ?case by (subst sleep_until.simps) (cases b, auto)
next
  case (Suc fuel)
  obtain b w1 now w2 where step: "runtime_IsCancelled host w = (b, w1)" "qh_SteadyNs host w1 = (now, w2)" by (metis surj_pair)
  with interrupt_forward [of w] steady_reads [of w1] steady_forward [of w1]
  have t: "ns w \<le> ns w1" "now = int (ns w1)" "ns w1 \<le> ns w2" by (simp_all add: runtime_IsCancelled_def)
  show ?case
  proof (cases "\<not> b \<and> now < deadline")
    case True
    have later: "ns w2 + 10000000 \<le> ns (qh_SleepFor host 10 w2)" using sleeps [of w2 10] by simp
    with Suc.prems t have "deadline \<le> int (ns (qh_SleepFor host 10 w2) + fuel * 10000000)" by simp
    from Suc.IH [OF this] obtain w' where w': "sleep_until host fuel deadline (qh_SleepFor host 10 w2) = Some w'"
      "ns (qh_SleepFor host 10 w2) \<le> ns w'" "deadline \<le> int (ns w') \<or> (\<exists>w1. runtime_IsCancelled host w1 = (True, w'))"
      by blast
    from w'(2) later t have "ns w \<le> ns w'" by linarith
    moreover have "sleep_until host (Suc fuel) deadline w = Some w'"
      using True step w'(1) by (subst sleep_until.simps) simp
    ultimately show ?thesis using w'(3) by blast
  next
    case False
    with step t show ?thesis by (subst sleep_until.simps) (cases b, auto)
  qed
qed

end

locale uninterrupted_clock = host_clock +
  assumes uninterrupted: "\<not> fst (ah_IsInterrupted (qh_auth host) w)"
begin

lemma SleepMs_lasts: "ns w + unat d * 1000000 \<le> ns (runtime_SleepMs host d w)"
proof -
  obtain now w' where now: "qh_SteadyNs host w = (now, w')" by force
  with steady_reads [of w] steady_forward [of w] have t: "now = int (ns w)" "ns w \<le> ns w'" by simp_all
  define deadline where "deadline = now + uint d * 1000000"
  have d: "uint d = int (unat d)" by simp
  define q where "q = unat d div 10"
  have "unat d < (q + 1) * 10" by (simp add: q_def)
  then have "unat d * 1000000 \<le> (q + 1) * 10000000" by simp
  then have "int (ns w + unat d * 1000000) \<le> int (ns w' + (q + 1) * 10000000)" using t(2) by linarith
  then have "deadline \<le> int (ns w' + (q + 1) * 10000000)" by (simp only: deadline_def t(1) d of_nat_add of_nat_mult of_nat_numeral)
  from sleep_until_ends [OF this] obtain w'' where w'': "sleep_until host (q + 1) deadline w' = Some w''"
    and e: "deadline \<le> int (ns w'') \<or> (\<exists>w1. runtime_IsCancelled host w1 = (True, w''))" by blast
  from e uninterrupted have "deadline \<le> int (ns w'')" by (metis fst_conv runtime_IsCancelled_def)
  then have "ns w + unat d * 1000000 \<le> ns w''" by (simp only: deadline_def t(1) d)
  with now w'' show ?thesis by (simp add: runtime_SleepMs_def deadline_def q_def)
qed

end

text \<open>Such a host gives the client the clock it relies on.\<close>

sublocale uninterrupted_clock \<subseteq> client: runtime_clock "query_env js host" "\<lambda>w. ns w div 1000000" for js
proof
  fix w r q d
  show "fst (env_NowMs (query_env js host) w) = of_nat (ns w div 1000000)"
  proof -
    obtain now w' where "qh_SteadyNs host w = (now, w')" by force
    moreover from this steady_reads [of w] have "now div 1000000 = int (ns w div 1000000)" by (simp add: zdiv_int)
    ultimately show ?thesis by (simp only: query_env_def runtime_NowMs_def QueryEnv.simps prod.case fst_conv of_int_of_nat_eq)
  qed
  show "ns w div 1000000 \<le> ns (snd (env_NowMs (query_env js host) w)) div 1000000"
    using steady_forward [of w] by (auto simp: query_env_def runtime_NowMs_def split: prod.split intro: div_le_mono)
  show "ns w div 1000000 \<le> ns (snd (env_IsCancelled (query_env js host) w)) div 1000000"
    using interrupt_forward [of w] by (simp add: query_env_def runtime_IsCancelled_def div_le_mono)
  show "ns w div 1000000 \<le> ns (snd (env_Send (query_env js host) r w)) div 1000000"
    using send_forward [of w r] by (auto simp: query_env_def split: prod.split sum.split intro: div_le_mono)
  show "ns w div 1000000 \<le> ns (snd (env_Decode (query_env js host) q w)) div 1000000"
    by (simp add: query_env_def json_codec_def split: sum.split codec_exn.split)
  have "(ns w + unat d * 1000000) div 1000000 \<le> ns (runtime_SleepMs host d w) div 1000000"
    by (intro div_le_mono SleepMs_lasts)
  then show "ns w div 1000000 + unat d \<le> ns (env_SleepMs (query_env js host) d w) div 1000000"
    by (simp add: query_env_def)
qed

section \<open>The operating system\<close>

text \<open>
  A host whose world holds the steady clock: a sleep takes as long as it is asked to and \<open>latency\<close>
  more, a request takes the time the transport says, and nobody interrupts the connection. Everything
  else of the host is arbitrary.
\<close>

record 'r ClockWorld =
  cw_ns :: nat
  cw_rest :: 'r

definition clocked_host ::
  "('r ClockWorld \<Rightarrow> nat) \<Rightarrow> (HttpRequest \<Rightarrow> 'r \<Rightarrow> (transport_exn + HttpResponse) \<times> nat \<times> 'r) \<Rightarrow> 'r ClockWorld AuthHost \<Rightarrow>
     'r ClockWorld QueryHost" where
  "clocked_host latency send auth =
     \<lparr>qh_auth = auth\<lparr>ah_IsInterrupted := (\<lambda>w. (False, w)),
        ah_Send := (\<lambda>request w. case send request (cw_rest w) of
          (answer, time, rest) \<Rightarrow> (answer, w\<lparr>cw_ns := cw_ns w + time, cw_rest := rest\<rparr>))\<rparr>,
      qh_SteadyNs = (\<lambda>w. (int (cw_ns w), w)),
      qh_SleepFor = (\<lambda>n w. w\<lparr>cw_ns := cw_ns w + n * 1000000 + latency w\<rparr>)\<rparr>"

interpretation clocked: uninterrupted_clock "clocked_host latency send auth" cw_ns
  by unfold_locales (auto simp: clocked_host_def split: prod.split)

section \<open>Binding and initialisation end\<close>

lemma client_failure_stopped: "client_failure e = Stopped x \<longleftrightarrow> e = OutOfFuel \<and> x = NotReturned"
  by (cases e) auto

text \<open>A run cut off was cut off in the polling loop.\<close>

lemma query_metadata_cut:
  assumes "query_metadata js host fuel sql credential_id cr m = (Inl (Stopped e), m')"
  shows "PrepareInternal (query_env js host) default_QueryOptions fuel sql cr True m = (Inl OutOfFuel, m')"
proof -
  let ?env = "query_env js host"
  from assms have "ExecuteMetadata ?env default_QueryOptions fuel sql cr m = (Inl OutOfFuel, m')"
    by (auto simp: query_metadata_def sbind_def client_call_def scatch_def sthrow_def sret_def client_failure_stopped
        split: prod.splits sum.splits)
  then show ?thesis
    using raisesD [OF raises_with_cleanup [OF raises_views(1)]] no_fuel_error
    by (fastforce simp: ExecuteMetadata_def sthen_def sbind_def split: prod.splits sum.splits)
qed

lemma raises_unstopped: "raises Errs m \<Longrightarrow> raises (- range Stopped) (client_call m)"
  using no_fuel_error
  by (fastforce simp: raises_def client_call_def scatch_def sthrow_def client_failure_stopped split: prod.splits sum.splits)

lemma open_source_unstopped:
  "raises (- range Stopped) (destroyed_on_error env (open_source env bind))"
proof -
  have "raises (- range Stopped) (open_source env bind)"
    unfolding open_source_def
    by (intro raises_bind raises_then raises_unstopped raises_views raises_cases(1))
      (auto split: sum.split intro!: raises_atomic)
  then show ?thesis
    unfolding destroyed_on_error_def
    by (rule raises_catch [rotated]) (intro raises_then raises_unstopped raises_views raises_atomic)
qed

lemma prepare_scan_cut:
  assumes "prepare_scan js host fuel bind cr m = (Inl (Stopped e), m')"
  shows "PrepareInternal (query_env js host) default_QueryOptions fuel (qb_sql bind) cr False m = (Inl OutOfFuel, m')"
proof -
  let ?env = "query_env js host"
  have "destroyed_on_error ?env (open_source ?env bind) s \<noteq> (Inl (Stopped e), s')" for s s'
    using raisesD [OF open_source_unstopped, of ?env bind s "Stopped e" s'] by blast
  with assms show ?thesis
    by (auto simp: prepare_scan_def Prepare_def sthen_def sbind_def client_call_def scatch_def sthrow_def client_failure_stopped
        split: prod.splits sum.splits)
qed

lemma handle_failure_cut:
  assumes "handle_failure (is_interrupted host) wrap f s = (Inl NotReturned, s')"
  shows "f = Stopped NotReturned \<and> s' = s"
  using assms
  by (cases f) (auto simp: handle_failure_def sthrow_def sbind_def is_interrupted_def on_host_def ask_def scatch_def
      split: prod.splits sum.splits)

text \<open>The two functions up to the run of the client, which is where they may be cut off.\<close>

lemma sattempt_cut:
  fixes k :: "'a \<times> 'w Machine \<Rightarrow> ('w AuthState, query_exn, 'b) sem"
  assumes "sattempt (on_client cr m) (handle_failure (is_interrupted host) wrap) k s = (Inl NotReturned, s')"
    "\<And>a t t'. k a t \<noteq> (Inl NotReturned, t')"
  shows "\<exists>n. m (new_client cr s) = (Inl (Stopped NotReturned), n) \<and> m_world n = rg_world (au_registry s')"
proof -
  obtain r n where run: "m (new_client cr s) = (r, n)" by force
  show ?thesis
  proof (cases r)
    case (Inl f)
    with run assms(1) have "handle_failure (is_interrupted host) wrap f
        (s\<lparr>au_registry := (au_registry s)\<lparr>rg_world := m_world n\<rparr>, au_sent := m_sent n @ au_sent s\<rparr>) =
        (Inl NotReturned :: query_exn + 'b, s')" by (simp add: sattempt_def on_client_def)
    from handle_failure_cut [OF this] run Inl show ?thesis by auto
  qed (use run assms in \<open>simp add: sattempt_def on_client_def\<close>)
qed

lemma raises_thrown:
  "raises (range Thrown) (look_up_secret host secret_name)" "raises (range Thrown) (resolve host wrap c)"
  by (auto simp: raises_def look_up_secret_def resolve_def sattempt_def is_interrupted_def on_host_def scatch_def sthrow_def
      sbind_def sret_def ask_def split: prod.splits sum.splits)

lemma thrown_not_cut:
  "look_up_secret host secret_name t \<noteq> (Inl NotReturned, t')" "resolve host wrap c t \<noteq> (Inl NotReturned, t')"
  using raisesD [OF raises_thrown(1), of host secret_name t NotReturned t'] raisesD [OF raises_thrown(2), of host wrap c t NotReturned t']
  by blast+

lemma Data360QueryBind_cut:
  assumes "Data360QueryBind js host fuel sql secret_name s = (Inl NotReturned, s')"
  shows "\<exists>cr m n. PrepareInternal (query_env js host) default_QueryOptions fuel sql cr True m = (Inl OutOfFuel, n) \<and>
    m_world n = rg_world (au_registry s')"
proof -
  from assms obtain c cr t where
    "sattempt (on_client cr (query_metadata js host fuel sql c cr)) (handle_failure (is_interrupted host) BinderException)
       (\<lambda>(bind, _). sret bind) t = (Inl NotReturned, s')"
    by (auto simp: Data360QueryBind_def sbind_def thrown_not_cut split: prod.splits sum.splits)
  from sattempt_cut [OF this] obtain n where
    n: "query_metadata js host fuel sql c cr (new_client cr t) = (Inl (Stopped NotReturned), n)" "m_world n = rg_world (au_registry s')"
    by (auto simp: sret_def)
  from query_metadata_cut [OF n(1)] n(2) show ?thesis by blast
qed

lemma Data360QueryInit_cut:
  fixes host :: "'w QueryHost"
  assumes "Data360QueryInit js host fuel bind s = (Inl NotReturned :: query_exn + ('w, 'a) Data360GlobalState, s')"
  shows "\<exists>cr m n. PrepareInternal (query_env js host) default_QueryOptions fuel (qb_sql bind) cr False m = (Inl OutOfFuel, n) \<and>
    m_world n = rg_world (au_registry s')"
proof -
  from assms obtain cr t where
    "sattempt (on_client cr (prepare_scan js host fuel bind cr)) (handle_failure (is_interrupted host) InvalidInputException)
       (\<lambda>(source, machine). sret (global_state source machine :: ('w, 'a) Data360GlobalState)) t = (Inl NotReturned, s')"
    by (auto simp: Data360QueryInit_def sbind_def thrown_not_cut split: prod.splits sum.splits)
  from sattempt_cut [OF this] obtain n where
    n: "prepare_scan js host fuel bind cr (new_client cr t) = (Inl (Stopped NotReturned), n)" "m_world n = rg_world (au_registry s')"
    by (auto simp: sret_def)
  from prepare_scan_cut [OF n(1)] n(2) show ?thesis by blast
qed

context uninterrupted_clock begin

lemma not_cut:
  assumes "480 \<le> fuel" "ns (m_world n) div 1000000 < 2 ^ 64"
  shows "PrepareInternal (query_env js host) default_QueryOptions fuel sql cr b m \<noteq> (Inl OutOfFuel, n)"
proof
  assume cut: "PrepareInternal (query_env js host) default_QueryOptions fuel sql cr b m = (Inl OutOfFuel, n)"
  have "unat (op_overall_timeout_ms default_QueryOptions) \<le> fuel * unat (op_poll_interval_ms default_QueryOptions)"
    using assms(1) by (simp add: default_QueryOptions_def)
  from client.PrepareInternal_ends [OF _ this, where s = m and sql = sql and cr = cr and b = b and js = js] cut assms
  show False by simp
qed

lemma binding_ends:
  assumes "Data360QueryBind js host fuel sql secret_name s = (r, s')" "480 \<le> fuel"
    "ns (rg_world (au_registry s')) div 1000000 < 2 ^ 64"
  shows "r \<noteq> Inl NotReturned"
proof
  assume "r = Inl NotReturned"
  with assms(1) have "Data360QueryBind js host fuel sql secret_name s = (Inl NotReturned, s')" by simp
  from Data360QueryBind_cut [OF this] assms(2,3) not_cut show False by metis
qed

lemma initialisation_ends:
  assumes "Data360QueryInit js host fuel bind s = (r, s')" "480 \<le> fuel"
    "ns (rg_world (au_registry s')) div 1000000 < 2 ^ 64"
  shows "r \<noteq> Inl NotReturned"
proof
  assume "r = Inl NotReturned"
  with assms(1) Data360QueryInit_cut obtain cr m n where
    "PrepareInternal (query_env js host) default_QueryOptions fuel (qb_sql bind) cr False m = (Inl OutOfFuel, n)"
    "m_world n = rg_world (au_registry s')" by blast
  with assms(2,3) not_cut show False by metis
qed

end

end
