(* ===== verification/Function_Properties.thy ===== *)
theory Function_Properties
  imports Query_Account Query_Return Json_Correct Query_Demo
begin

text \<open>The properties of the table function \<open>data360_query\<close> from its binding to its last row.\<close>

section \<open>The exceptions\<close>

text \<open>
  C13. Whatever the service answers, the exceptions of the table function are an interrupt or have one of
  a fixed list of texts, in which nothing varies but the name of the secret and of a bound column: no
  text of a response, no token and no SQL text is shown. In a scan no row is read past its end, and
  rows that are not Arrow are delivered without running out of rounds.
\<close>
theorem query_exceptions:
  assumes "scan_run lib js host fuel bind delivered g" "sl_capacity lib + 1024 < fuel"
  shows "(case fst (Data360QueryBind js host fuel' sql secret_name s) of
            Inl e \<Rightarrow> e \<in> outcomes BinderException (bind_own secret_name) | Inr _ \<Rightarrow> True) \<and>
         (case fst (Data360QueryInit js host fuel' bind' s) of
            Inl e \<Rightarrow> e \<in> outcomes InvalidInputException init_own | Inr (_ :: ('w, 'a) Data360GlobalState) \<Rightarrow> True) \<and>
         (case fst (Data360QueryFunction lib (query_env js host) fuel bind g) of
            Inl e \<Rightarrow> e \<in> outcomes InvalidInputException (scan_own bind) \<and> (\<forall>st. g = RowSource st \<longrightarrow> e \<noteq> NotReturned)
          | Inr _ \<Rightarrow> True)"
proof (intro conjI)
  show "case fst (Data360QueryBind js host fuel' sql secret_name s) of
      Inl e \<Rightarrow> e \<in> outcomes BinderException (bind_own secret_name) | Inr _ \<Rightarrow> True"
    using raisesD [OF raises_bind_function, of js host fuel' sql secret_name s]
    by (cases "Data360QueryBind js host fuel' sql secret_name s") (auto split: sum.split)
  show "case fst (Data360QueryInit js host fuel' bind' s) of
      Inl e \<Rightarrow> e \<in> outcomes InvalidInputException init_own | Inr (_ :: ('w, 'a) Data360GlobalState) \<Rightarrow> True"
    using raisesD [OF raises_init_function, of js host fuel' bind' s]
    by (cases "Data360QueryInit js host fuel' bind' s :: (query_exn + ('w, 'a) Data360GlobalState) \<times> _") (auto split: sum.split)
  have fuel: "sl_capacity lib + unat (op_max_chunks default_QueryOptions) < fuel"
    using assms(2) by (simp add: default_QueryOptions_def)
  have "fst (Data360QueryFunction lib (query_env js host) fuel bind g) \<noteq> Inl NotReturned" if "g = RowSource st" for st
    using row_scan_returns [where lib = lib and env = "query_env js host"] assms(1) fuel that by blast
  with scan_exceptions [OF assms(1) fuel, where env = "query_env js host"]
  show "case fst (Data360QueryFunction lib (query_env js host) fuel bind g) of
      Inl e \<Rightarrow> e \<in> outcomes InvalidInputException (scan_own bind) \<and> (\<forall>st. g = RowSource st \<longrightarrow> e \<noteq> NotReturned)
    | Inr _ \<Rightarrow> True"
    by (cases "Data360QueryFunction lib (query_env js host) fuel bind g") (auto split: sum.split)
qed

section \<open>The rows\<close>

text \<open>
  C12. A scan from the binding of the query to its last row: the columns have the types the metadata was
  bound to, every vector fits and every row that is not Arrow has one value per column. An empty vector,
  at which DuckDB stops, comes only when the results are reconciled, and then the number of rows
  delivered is the number of rows the cursor has counted and, where the service announced one, the
  number it announced.
\<close>
theorem query_scan_exact:
  assumes "scan_run lib js host fuel bind delivered g"
    "Data360QueryFunction lib (query_env js host) fuel bind g = (Inr rows, g')"
    "slices (sl_arrow lib) rows_of" "0 < sl_capacity lib" "sl_capacity lib < 2 ^ 64"
  shows "list_all2 (\<lambda>column t. bind_column column = Inr t) (qb_metadata bind) (qb_types bind) \<and>
    length rows \<le> sl_capacity lib \<and>
    (\<forall>st. g = RowSource st \<longrightarrow> list_all (\<lambda>row. length row = length (qb_types bind)) rows) \<and>
    (rows = [] \<longrightarrow> s_reconciled (m_session (state_machine g')) \<and>
       s_rows (m_session (state_machine g')) = of_nat (length delivered) \<and>
       (s_has_expected_rows (m_session (state_machine g')) \<longrightarrow>
          s_expected_rows (m_session (state_machine g')) = of_nat (length delivered)))"
proof -
  from scan_run_ok [OF assms(1)] have types: "list_all2 (\<lambda>column t. bind_column column = Inr t) (qb_metadata bind) (qb_types bind)"
    by (simp add: bound_def)
  from scan_run_account [OF assms(1,3-5)] obtain cr where
    "scan_account lib (query_env js host) fuel cr (length delivered) g" by blast
  note account = Data360QueryFunction_account [OF assms(2) this assms(3-5)]
  have "list_all (\<lambda>row. length row = length (qb_types bind)) rows" if "g = RowSource st" for st
  proof -
    from assms(2) that obtain st' where "fill_rows (CursorChunkSource_NextChunk (query_env js host))
        (convert_cells (sl_null lib) (sl_cast lib) (qb_types bind) (qb_names bind)) (sl_capacity lib) fuel [] st = (Inr rows, st')"
      by (auto simp: Data360QueryFunction_returns FillDataChunk_def split: prod.splits sum.splits)
    from fill_rows_result [OF this] show ?thesis by (auto simp: list_all_iff dest: convert_cells_length)
  qed
  with types account show ?thesis by (auto simp: reconciled_def announced_counts_def)
qed

section \<open>The end of the waiting\<close>

text \<open>
  C14. In a connection that is not interrupted, binding and initialising a query come to an end before
  the 64-bit clock wraps, whatever the service answers, however long it takes to and however much longer
  than asked a sleep takes: 480 rounds of polling are enough.
\<close>
theorem query_functions_return:
  assumes "480 \<le> fuel"
    and "Data360QueryBind js (clocked_host latency send auth) fuel sql secret_name s = (r, s1)"
    and "Data360QueryInit js (clocked_host latency send auth) fuel bind s = (g, s2)"
    and "cw_ns (rg_world (au_registry s1)) div 1000000 < 2 ^ 64" "cw_ns (rg_world (au_registry s2)) div 1000000 < 2 ^ 64"
  shows "r \<noteq> Inl NotReturned \<and> g \<noteq> Inl NotReturned"
  using clocked.binding_ends [OF assms(2,1,4)] clocked.initialisation_ends [OF assms(3,1,5)] by blast

section \<open>A query from end to end\<close>

definition demo_direct :: "json Yyjson" where
  "demo_direct = json_tree [(''{...}'', chunk_json [demo_column] [[Some ''a''], [None], [Some ''b'']] [] (Some 3))]"

definition demo_page :: HttpResponse where
  "demo_page = \<lparr>rs_status = 200, rs_body = ''{...}'', rs_headers = []\<rparr>"

type_synonym answers = "(transport_exn + HttpResponse) list"

definition demo_reply :: "HttpRequest \<Rightarrow> answers \<Rightarrow> (transport_exn + HttpResponse) \<times> nat \<times> answers" where
  "demo_reply request answers =
     (case answers of [] \<Rightarrow> (Inl TransportOther, 0, []) | a # as \<Rightarrow> (a, 2, as))"

definition demo_duckdb :: "answers ClockWorld AuthHost" where
  "demo_duckdb =
     \<lparr>ah_auth = \<lparr>ae_random = (\<lambda>n w. (Inr (replicate n 7), w)), ae_NowMs = (\<lambda>w. (of_nat (cw_ns w div 1000000), w))\<rparr>,
      ah_others = (\<lambda>w. ([], w)), ah_IsInterrupted = (\<lambda>w. (False, w)), ah_UtcMicros = (\<lambda>w. (7, w)),
      ah_Send = (\<lambda>rq w. (Inl TransportOther, w)), ah_Connect = (\<lambda>w. (True, w)), ah_BeginTransaction = (\<lambda>w. (True, w)),
      ah_GetSecretByName = (\<lambda>name w. (Some (if name = ''s''
         then Some \<lparr>ks_type = ''data360'', ks_provider = ''oauth_pkce'', ks_session_id = Some ''c''\<rparr> else None), w)),
      ah_RegisterSecret = (\<lambda>secret w. (True, w)),
      ah_Commit = (\<lambda>w. (True, w)), ah_Rollback = (\<lambda>w. (True, w)), ah_OpenListener = (\<lambda>w. (Some 2, w)),
      ah_StartWorker = (\<lambda>ow auth_id w. (True, w))\<rparr>"

definition demo_query_host :: "answers ClockWorld QueryHost" where
  "demo_query_host = clocked_host (\<lambda>w. 3) demo_reply demo_duckdb"

definition demo_stored_credential :: Credential where
  "demo_stored_credential = \<lparr>cd_instance_url = ''https://a.c360a.salesforce.com'', cd_access_token = ''t'', cd_expires_at_ms = 900\<rparr>"

definition demo_page_decoded :: QueryResponse where
  "demo_page_decoded = default_QueryResponse\<lparr>qr_state := COMPLETE, qr_metadata := [demo_column],
     qr_chunk := \<lparr>ch_rows = [[Some ''a''], [None], [Some ''b'']], ch_next_url = []\<rparr>, qr_has_returned_rows := True, qr_returned_rows := 3\<rparr>"

abbreviation demo_query_env :: "answers ClockWorld QueryEnv" where
  "demo_query_env \<equiv> query_env demo_direct demo_query_host"

lemma demo_page_decodes: "JsonDecode demo_direct demo_page = Inr demo_page_decoded"
  by code_simp

text \<open>The hooks of the client in this world.\<close>

lemma demo_query_hooks:
  "env_IsCancelled demo_query_env w = (False, w)" "env_NowMs demo_query_env w = (of_nat (cw_ns w div 1000000), w)"
  "env_Send demo_query_env rq \<lparr>cw_ns = n, cw_rest = Inr a # as\<rparr> = (Some a, \<lparr>cw_ns = n + 2, cw_rest = as\<rparr>)"
  "env_Decode demo_query_env demo_page w = (Inr demo_page_decoded, w)"
proof -
  show "env_NowMs demo_query_env w = (of_nat (cw_ns w div 1000000), w)"
    using clocked.client.now_reads [where js = demo_direct and w = w and latency = "\<lambda>w. 3" and send = demo_reply and auth = demo_duckdb]
    by (auto simp: demo_query_host_def query_env_def runtime_NowMs_def clocked_host_def)
qed (simp_all add: query_env_def runtime_IsCancelled_def demo_query_host_def clocked_host_def demo_reply_def json_codec_def
    demo_page_decodes)

lemma demo_check:
  assumes "cw_ns (m_world m) < 1000000" "s_started_at_ms (m_session m) = 0" "s_options (m_session m) = default_QueryOptions"
  shows "CheckActive demo_query_env m = (Inr (), m)"
  using assms by (simp add: CheckActive_def sem_defs is_cancelled_def now_ms_def demo_query_hooks default_QueryOptions_def)

lemma demo_send:
  assumes "m_world m = \<lparr>cw_ns = n, cw_rest = Inr demo_page # as\<rparr>" "n < 1000" "s_started_at_ms (m_session m) = 0"
    "s_options (m_session m) = default_QueryOptions" "s_total_response_bytes (m_session m) = 0"
  shows "Send demo_query_env m = (Inr demo_page, m\<lparr>m_world := \<lparr>cw_ns = n + 2, cw_rest = as\<rparr>,
      m_sent := s_request (limit_request 0 (m_session m)) # m_sent m,
      m_session := (limit_request 0 (m_session m))\<lparr>s_total_response_bytes := 5\<rparr>\<rparr>)"
proof -
  have "\<not> response_budget (limit_request 0 (m_session m)) < size_u64 (rs_body demo_page)" "size_u64 (rs_body demo_page) = 5"
    using assms(4,5) by (simp_all add: response_budget_def budget_def limit_request_def default_QueryOptions_def size_u64_def demo_page_def)
  moreover have "s_total_response_bytes (limit_request 0 (m_session m)) = 0" using assms(5) by (simp add: limit_request_def)
  ultimately show ?thesis
    using assms(1,2) demo_check [of m, OF _ assms(3,4)]
    by (simp add: Send_def sem_defs now_ms_def transport_send_def demo_query_hooks)
qed

lemma demo_page_exchange:
  assumes "m_world m = \<lparr>cw_ns = n, cw_rest = Inr demo_page # as\<rparr>" "n < 1000" "s_started_at_ms (m_session m) = 0"
    "s_options (m_session m) = default_QueryOptions" "s_total_response_bytes (m_session m) = 0"
  shows "exchange demo_query_env m = (Inr demo_page_decoded, m\<lparr>m_world := \<lparr>cw_ns = n + 2, cw_rest = as\<rparr>,
      m_sent := s_request (limit_request 0 (m_session m)) # m_sent m,
      m_session := (limit_request 0 (m_session m))\<lparr>s_total_response_bytes := 5\<rparr>\<rparr>)"
proof -
  have p: "\<not> IsSafeChunkPath []" by code_simp
  have q: "RememberQueryId demo_page_decoded k = (Inr (), k)" for k :: "answers ClockWorld Machine"
    by (simp add: RememberQueryId_def sem_defs demo_page_decoded_def default_QueryResponse_def p)
  show ?thesis
    using assms(2-4)
    by (simp add: exchange_def send_and_decode_def sbind_def demo_send [OF assms] Decode_def codec_decode_def demo_query_hooks
        sret_def sthen_def q demo_check limit_request_def)
qed

definition demo_opened :: "nat \<Rightarrow> answers \<Rightarrow> QueryCredentials \<Rightarrow> byte_string \<Rightarrow> bool \<Rightarrow> answers ClockWorld Machine" where
  "demo_opened n as cr sql only =
     (let ses = limit_request 0 (new_session default_QueryOptions cr 0 (submit_request default_QueryOptions cr sql only))
      in \<lparr>m_world = \<lparr>cw_ns = n + 2, cw_rest = as\<rparr>, m_sent = [s_request ses], m_owner = PreparedOwner,
          m_session = ses\<lparr>s_total_response_bytes := 5, s_mode := DIRECT_LEGACY, s_metadata := [demo_column],
            s_has_expected_rows := False, s_expected_rows := 0, s_buffered_direct := Some demo_page_decoded\<rparr>\<rparr>)"

lemma demo_prepares:
  assumes "n < 1000" "IsTrustedTenantUrl (qc_instance_url cr)" "qc_instance_url cr \<noteq> []" "qc_access_token cr \<noteq> []" "sql \<noteq> []"
    "rg_world (au_registry s) = \<lparr>cw_ns = n, cw_rest = Inr demo_page # as\<rparr>"
  shows "PrepareInternal demo_query_env default_QueryOptions fuel sql cr only (new_client cr s) = (Inr (), demo_opened n as cr sql only)"
proof -
  let ?m = "new_client cr s\<lparr>m_session := new_session default_QueryOptions cr 0 (submit_request default_QueryOptions cr sql only)\<rparr>"
  have e: "exchange demo_query_env ?m = (Inr demo_page_decoded, ?m\<lparr>m_world := \<lparr>cw_ns = n + 2, cw_rest = as\<rparr>,
      m_sent := s_request (limit_request 0 (m_session ?m)) # m_sent ?m,
      m_session := (limit_request 0 (m_session ?m))\<lparr>s_total_response_bytes := 5\<rparr>\<rparr>)"
    by (rule demo_page_exchange) (use assms in \<open>simp_all add: new_client_def new_session_def\<close>)
  note b = sbind_run(1) [where m = "exchange demo_query_env" and s = ?m, OF e]
  have "prepare_session demo_query_env fuel ?m = (Inr (), demo_opened n as cr sql only)"
    unfolding prepare_session_def
    by (simp only: b) (simp add: sbind_def sthen_def poll_loop.simps sret_def open_direct_def sem_defs demo_opened_def Let_def new_client_def
        demo_page_decoded_def default_QueryResponse_def size_u64_def limit_request_def new_session_def default_QueryOptions_def)
  then show ?thesis
    using assms by (simp add: PrepareInternal_def sbind_def sthen_def is_cancelled_def now_ms_def demo_query_hooks smodify_def
        scatch_def new_client_def)
qed

definition demo_query_credentials :: QueryCredentials where
  "demo_query_credentials = \<lparr>qc_instance_url = ''https://a.c360a.salesforce.com'', qc_access_token = ''t''\<rparr>"

lemma demo_trusted: "IsTrustedTenantUrl (qc_instance_url demo_query_credentials)"
  by code_simp

definition demo_bound :: Data360BindData where
  "demo_bound = \<lparr>qb_types = [VARCHAR], qb_names = [''x''], qb_metadata = [demo_column], qb_sql = ''SELECT 1'', qb_credential_id = ''c''\<rparr>"

text \<open>The database at two moments: before the query is bound, and with one more answer to come.\<close>

definition demo_database :: "nat \<Rightarrow> answers \<Rightarrow> HttpRequest list \<Rightarrow> answers ClockWorld AuthState" where
  "demo_database n as sent =
     \<lparr>au_registry = \<lparr>rg_world = \<lparr>cw_ns = n, cw_rest = as\<rparr>, rg_sessions = [],
                     rg_credentials = [(''c'', demo_stored_credential)], rg_stopped = []\<rparr>, au_sent = sent, au_catalog = []\<rparr>"

lemma demo_secret_resolves:
  "n < 1000 \<Longrightarrow> resolve demo_query_host wrap ''c'' (demo_database n as sent) = (Inr demo_query_credentials, demo_database n as sent)"
  by (simp add: resolve_def on_registry_def meanwhile_def ask_def lift_registry_def ResolveCredential_def auth_now_def sem_defs
      demo_query_host_def clocked_host_def demo_duckdb_def demo_database_def demo_stored_credential_def demo_query_credentials_def)

lemma demo_looks_up: "look_up_secret demo_query_host ''s'' (demo_database n as sent) = (Inr ''c'', demo_database n as sent)"
  by (simp add: look_up_secret_def on_host_def ask_def sem_defs throwing_def secret_credential_def
      demo_query_host_def clocked_host_def demo_duckdb_def demo_database_def)

lemma demo_on_client:
  "m (new_client cr (demo_database n as sent)) = (Inr a, k) \<Longrightarrow> on_client cr m (demo_database n as sent) =
     (Inr (a, k), demo_database (cw_ns (m_world k)) (cw_rest (m_world k)) (m_sent k @ sent))"
  by (simp add: on_client_def demo_database_def)

lemma demo_column_name: "cm_name demo_column = ''x''"
  by (simp add: demo_column_def)

lemma demo_bind_columns: "bind_columns [demo_column] = Inr [VARCHAR]"
  by code_simp

lemma demo_binds:
  assumes "n < 1000"
  shows "\<exists>sent'. Data360QueryBind demo_direct demo_query_host fuel ''SELECT 1'' ''s'' (demo_database n (Inr demo_page # as) sent) =
    (Inr demo_bound, demo_database (n + 2) as sent')"
proof -
  let ?s = "demo_database n (Inr demo_page # as) sent"
  let ?m = "demo_opened n as demo_query_credentials ''SELECT 1'' True"
  have p: "PrepareInternal demo_query_env default_QueryOptions fuel ''SELECT 1'' demo_query_credentials True
      (new_client demo_query_credentials ?s) = (Inr (), ?m)"
    by (rule demo_prepares) (use assms demo_trusted in \<open>simp_all add: demo_query_credentials_def demo_database_def\<close>)
  have i: "\<not> IsSafeQueryId []" by code_simp
  have c: "with_cleanup demo_query_env PreparedMetadata ?m = (Inr [demo_column], ?m\<lparr>m_owner := NoOwner\<rparr>)"
    by (simp add: with_cleanup_def PreparedMetadata_def destroy_owner_def Cancel_def sem_defs demo_opened_def Let_def i
        limit_request_def new_session_def)
  have "ExecuteMetadata demo_query_env default_QueryOptions fuel ''SELECT 1'' demo_query_credentials
      (new_client demo_query_credentials ?s) = (Inr [demo_column], ?m\<lparr>m_owner := NoOwner\<rparr>)"
    by (simp add: ExecuteMetadata_def sthen_def sbind_def p c)
  then have "query_metadata demo_direct demo_query_host fuel ''SELECT 1'' ''c'' demo_query_credentials
      (new_client demo_query_credentials ?s) = (Inr demo_bound, ?m\<lparr>m_owner := NoOwner\<rparr>)"
    by (simp add: query_metadata_def client_call_def sem_defs demo_bind_columns demo_bound_def demo_column_name)
  moreover have "m_world ?m = \<lparr>cw_ns = n + 2, cw_rest = as\<rparr>" by (simp add: demo_opened_def Let_def)
  ultimately show ?thesis
    using assms
    by (simp add: Data360QueryBind_def sbind_def demo_looks_up demo_secret_resolves sattempt_def demo_on_client sret_def) blast
qed

abbreviation demo_cursor :: "nat \<Rightarrow> answers \<Rightarrow> answers ClockWorld Machine" where
  "demo_cursor n as \<equiv> (demo_opened n as demo_query_credentials ''SELECT 1'' False)\<lparr>m_owner := CursorOwner\<rparr>"

lemma demo_inits:
  assumes "n < 1000"
  shows "\<exists>sent'. Data360QueryInit demo_direct demo_query_host fuel demo_bound (demo_database n (Inr demo_page # as) sent) =
    (Inr (RowSource (new_scan (demo_cursor n as))), demo_database (n + 2) as sent')"
proof -
  let ?s = "demo_database n (Inr demo_page # as) sent"
  let ?m = "demo_opened n as demo_query_credentials ''SELECT 1'' False"
  have p: "PrepareInternal demo_query_env default_QueryOptions fuel ''SELECT 1'' demo_query_credentials False
      (new_client demo_query_credentials ?s) = (Inr (), ?m)"
    by (rule demo_prepares) (use assms demo_trusted in \<open>simp_all add: demo_query_credentials_def demo_database_def\<close>)
  have c: "open_source demo_query_env demo_bound ?m = (Inr None, demo_cursor n as)"
    by (simp add: open_source_def client_call_def PreparedMetadata_def OpenCursor_def IsNumberedV3_def sem_defs demo_opened_def Let_def
        MetadataCompatible_iff demo_bound_def limit_request_def new_session_def)
  have "prepare_scan demo_direct demo_query_host fuel demo_bound demo_query_credentials (new_client demo_query_credentials ?s) =
      (Inr None, demo_cursor n as)"
    by (simp add: prepare_scan_def Prepare_def sthen_def sbind_def client_call_def scatch_def p destroyed_on_error_def c demo_bound_def
        [THEN arg_cong [where f = qb_sql]])
  moreover have "m_world ?m = \<lparr>cw_ns = n + 2, cw_rest = as\<rparr>" by (simp add: demo_opened_def Let_def)
  moreover have "qb_credential_id demo_bound = ''c''" by (simp add: demo_bound_def)
  ultimately show ?thesis
    using assms
    by (simp add: Data360QueryInit_def sbind_def demo_secret_resolves sattempt_def demo_on_client sret_def global_state_def) blast
qed

definition demo_lib :: "(nat list, byte_string) ScanLib" where
  "demo_lib =
     \<lparr>sl_arrow = \<lparr>al_schema = (\<lambda>body. None), al_types = (\<lambda>schema. None), al_next = (\<lambda>body i. NextFailed),
        al_length = (\<lambda>a. int (length a)), al_n_children = (\<lambda>a. 1),
        al_slice = (\<lambda>a offset n. Some (take n (drop offset (map (\<lambda>i. []) a))))\<rparr>,
      sl_null = (\<lambda>t. ''-''), sl_cast = (\<lambda>t text. Some text), sl_capacity = 2\<rparr>"

lemma demo_lib_slices: "slices (sl_arrow demo_lib) (map (\<lambda>i. []))"
  by (simp add: slices_def demo_lib_def)

text \<open>The cursor after its only chunk, and at the end.\<close>

definition demo_taken :: "answers ClockWorld Machine" where
  "demo_taken = (demo_cursor 7 [])\<lparr>m_session := (m_session (demo_cursor 7 []))
     \<lparr>s_buffered_direct := None, s_cells := 3, s_rows := 3, s_fetched_chunks := 1, s_next_url := []\<rparr>\<rparr>"

definition demo_finished :: "answers ClockWorld Machine" where
  "demo_finished = demo_taken\<lparr>m_session := (m_session demo_taken)\<lparr>s_reconciled := True, s_terminal := True\<rparr>\<rparr>"

lemma demo_takes: "NextChunk demo_query_env (demo_cursor 7 []) = (Inr (Some (qr_chunk demo_page_decoded)), demo_taken)"
proof -
  have p: "\<not> IsSafeChunkPath []" by code_simp
  have r: "RememberQueryId demo_page_decoded k = (Inr (), k)" for k :: "answers ClockWorld Machine"
    by (simp add: RememberQueryId_def sem_defs demo_page_decoded_def default_QueryResponse_def p)
  define m where "m = m_session_update (s_buffered_direct_update (\<lambda>_. None)) (demo_cursor 7 [])"
  have s: "s_options (m_session m) = default_QueryOptions" "s_started_at_ms (m_session m) = 0" "cw_ns (m_world m) = 9"
    "s_metadata (m_session m) = [demo_column]" "s_fetched_chunks (m_session m) = 0" "s_rows (m_session m) = 0"
    "s_cells (m_session m) = 0" "\<not> s_has_expected_rows (m_session m)" "s_mode (m_session m) = DIRECT_LEGACY" "s_next_url (m_session m) = []"
    by (simp_all add: m_def demo_opened_def Let_def limit_request_def new_session_def)
  have c: "CheckActive demo_query_env m = (Inr (), m)" by (rule demo_check) (simp_all add: s)
  have o: "op_max_chunks default_QueryOptions = 1024" "op_max_rows default_QueryOptions = 100000" "op_max_cells default_QueryOptions = 10000000"
    by (simp_all add: default_QueryOptions_def)
  let ?m = "m_session_update (\<lambda>ses. ses\<lparr>s_cells := 3, s_rows := 3, s_fetched_chunks := 1\<rparr>) m"
  have t: "demo_taken = m_session_update (s_next_url_update (\<lambda>_. [])) ?m" by (simp add: demo_taken_def m_def)
  have q: "ch_next_url (qr_chunk demo_page_decoded) = []" by (simp add: demo_page_decoded_def)
  have "Accept demo_page_decoded m = (Inr (qr_chunk demo_page_decoded), ?m)"
    by (simp add: Accept_def Let_def sem_defs demo_page_decoded_def default_QueryResponse_def size_u64_def s o budget_def SameMetadata_iff)
  then have a: "accept_response demo_query_env demo_page_decoded m = (Inr (Some (qr_chunk demo_page_decoded)), demo_taken)"
    by (simp add: accept_response_def sthen_def sbind_def r c smodify_def sret_def t s q)
  have "next_response demo_query_env (demo_cursor 7 []) = (Inr (Some demo_page_decoded), m)"
    by (simp add: next_response_def buffered_response_def sem_defs m_def demo_opened_def Let_def limit_request_def new_session_def)
  with a show ?thesis
    by (simp add: NextChunk_def sem_defs cancel_on_error_def demo_opened_def Let_def limit_request_def new_session_def)
qed

lemma demo_finishes: "NextChunk demo_query_env demo_taken = (Inr None, demo_finished)"
  by (simp add: NextChunk_def next_response_def finish_response_def Finish_def cancel_on_error_def sem_defs demo_finished_def demo_taken_def
      demo_opened_def Let_def limit_request_def new_session_def)

section \<open>The scan of this query\<close>

abbreviation demo_scanning :: "byte_string list list \<Rightarrow> (answers ClockWorld, nat list) Data360GlobalState \<Rightarrow> bool" where
  "demo_scanning \<equiv> scan_run demo_lib demo_direct demo_query_host 1500 demo_bound"

lemma demo_scan_opened: "demo_scanning [] (RowSource (new_scan (demo_cursor 7 [])))"
proof -
  from demo_binds [of 5 480 "[Inr demo_page]" "[]"] obtain sent where
    b: "Data360QueryBind demo_direct demo_query_host 480 ''SELECT 1'' ''s'' (demo_database 5 [Inr demo_page, Inr demo_page] []) =
      (Inr demo_bound, demo_database (5 + 2) [Inr demo_page] sent)" by auto
  from demo_inits [of 7 480 "[]" sent] obtain sent' where
    "Data360QueryInit demo_direct demo_query_host 480 demo_bound (demo_database 7 [Inr demo_page] sent) =
      (Inr (RowSource (new_scan (demo_cursor 7 []))) :: query_exn + (answers ClockWorld, nat list) Data360GlobalState,
       demo_database (7 + 2) [] sent')" by auto
  from scan_run.opened [OF b this] show ?thesis .
qed

definition demo_position :: "answers ClockWorld Machine \<Rightarrow> nat \<Rightarrow> bool \<Rightarrow> answers ClockWorld Machine ScanState" where
  "demo_position m i fin = \<lparr>sc_source = m, sc_current_chunk = (if fin then empty_ResultChunk else qr_chunk demo_page_decoded),
     sc_current_row = i, sc_exhausted = fin\<rparr>"

lemma demo_rounds:
  "Data360QueryFunction demo_lib demo_query_env (Suc (Suc (Suc k))) demo_bound (RowSource (new_scan (demo_cursor 7 []))) =
     (Inr [[''a''], [''-'']], RowSource (demo_position demo_taken 2 False) :: (answers ClockWorld, nat list) Data360GlobalState)"
  "Data360QueryFunction demo_lib demo_query_env (Suc (Suc k)) demo_bound (RowSource (demo_position demo_taken 2 False)) =
     (Inr [[''b'']], RowSource (demo_position demo_finished 0 True) :: (answers ClockWorld, nat list) Data360GlobalState)"
  "Data360QueryFunction demo_lib demo_query_env k demo_bound (RowSource (demo_position demo_finished 0 True)) =
     (Inr [], RowSource (demo_position demo_finished 0 True) :: (answers ClockWorld, nat list) Data360GlobalState)"
  by (simp_all add: Data360QueryFunction_returns FillDataChunk_def fill_rows.simps CursorChunkSource_NextChunk_def demo_takes demo_finishes
      demo_position_def new_scan_def empty_ResultChunk_def demo_lib_def demo_bound_def demo_page_decoded_def ebind_def)

lemmas demo_scan_calls = demo_rounds(1) [of 1497, simplified] demo_rounds(2) [of 1498, simplified] demo_rounds(3) [of 1500]

lemma demo_scanned: "demo_scanning [[''a''], [''-''], [''b'']] (RowSource (demo_position demo_finished 0 True))"
  using scanned [OF scanned [OF demo_scan_opened demo_scan_calls(1)] demo_scan_calls(2)] by simp

theorem query_exceptions_witness:
  "isl (fst (Data360QueryBind demo_direct demo_query_host 480 ''SELECT 1'' ''z'' (demo_database 5 [] []))) \<and>
   fst (Data360QueryBind demo_direct demo_query_host 480 ''SELECT 1'' ''z'' (demo_database 5 [] [])) \<in>
     Inl ` outcomes BinderException (bind_own ''z'')"
proof -
  have b: "fst (Data360QueryBind demo_direct demo_query_host 480 ''SELECT 1'' ''z'' (demo_database 5 [] [])) =
      Inl (Thrown (BinderException (''Data 360 secret '' @ quoted ''z'' @ '' was not found'')))"
    by (simp add: Data360QueryBind_def look_up_secret_def on_host_def ask_def sem_defs throwing_def secret_credential_def
        demo_query_host_def clocked_host_def demo_duckdb_def demo_database_def)
  have "sl_capacity demo_lib + 1024 < 1500" by (simp add: demo_lib_def)
  from query_exceptions [OF demo_scan_opened this, where fuel' = 480 and sql = "''SELECT 1''" and secret_name = "''z''"
      and s = "demo_database 5 [] []"] b
  show ?thesis by auto
qed

theorem query_scan_exact_witness:
  "s_reconciled (m_session demo_finished) \<and> s_rows (m_session demo_finished) = of_nat (length [[''a''], [''-''], [''b'']])"
proof -
  have "0 < sl_capacity demo_lib" "sl_capacity demo_lib < 2 ^ 64" by (simp_all add: demo_lib_def)
  from query_scan_exact [OF demo_scanned demo_scan_calls(3) demo_lib_slices this] show ?thesis by (simp add: demo_position_def)
qed

theorem query_functions_return_witness:
  "fst (Data360QueryBind demo_direct demo_query_host 480 ''SELECT 1'' ''s'' (demo_database 5 [Inr demo_page] [])) \<noteq> Inl NotReturned"
proof -
  from demo_binds [of 5 480 "[]" "[]"] obtain sent where
    b: "Data360QueryBind demo_direct demo_query_host 480 ''SELECT 1'' ''s'' (demo_database 5 [Inr demo_page] []) =
      (Inr demo_bound, demo_database (5 + 2) [] sent)" by auto
  from demo_inits [of 5 480 "[]" "[]"] obtain sent' where
    i: "Data360QueryInit demo_direct demo_query_host 480 demo_bound (demo_database 5 [Inr demo_page] []) =
      (Inr (RowSource (new_scan (demo_cursor 5 []))) :: query_exn + (answers ClockWorld, nat list) Data360GlobalState,
       demo_database (5 + 2) [] sent')" by auto
  have "cw_ns (rg_world (au_registry (demo_database (5 + 2) [] t))) div 1000000 < 2 ^ 64" for t by (simp add: demo_database_def)
  from query_functions_return [OF _ b [unfolded demo_query_host_def] i [unfolded demo_query_host_def] this this] b
  show ?thesis by (simp add: demo_query_host_def)
qed

end
