(* ===== verification/Callback_Owner.thy ===== *)
theory Callback_Owner
  imports Callback_Worker
begin

text \<open>
  \<open>CallbackThreadOwner\<close> of \<open>auth_functions.cpp\<close>: the object that owns the listener of one authorization
  and the thread that waits on it. It is shared by the session registry, by the function that starts the
  authorization and by the thread itself; every thread that holds a reference may call \<open>StopAndJoin\<close>,
  the thread itself included, and the last one to let go destroys the object. A step is what one thread
  does between two points at which another one can get in.
\<close>

section \<open>The object\<close>

text \<open>Where the thread is: in \<open>ProcessAuthCallback\<close>, before \<open>WorkerExit\<close>, before it lets go of the object.\<close>

datatype WorkerPc = Unborn | InCallback | InExit | Leaving | Gone

text \<open>A call of \<open>StopAndJoin\<close> by another thread: before the lock, or in \<open>join\<close> with the thread taken out.\<close>

datatype StopPc = Locking | Joining

text \<open>
  \<open>co_worker\<close> is whether the member \<open>worker\<close> is joinable, \<open>co_temporary\<close> whether \<open>Start\<close> holds the new
  thread object and has not yet assigned it. \<open>co_refs\<close> are the references the thread itself does not
  hold; \<open>co_self_stop\<close> is a call of \<open>StopAndJoin\<close> by the thread, before the lock.
\<close>

record CallbackThreadOwner =
  co_cancelled :: bool
  co_listener_cancelled :: bool
  co_worker :: bool
  co_temporary :: bool
  co_pc :: WorkerPc
  co_stops :: "StopPc list"
  co_self_stop :: bool
  co_refs :: nat
  co_joined :: nat
  co_detached :: nat
  co_destroyed :: bool

definition new_CallbackThreadOwner :: CallbackThreadOwner where
  "new_CallbackThreadOwner =
     \<lparr>co_cancelled = False, co_listener_cancelled = False, co_worker = False, co_temporary = False, co_pc = Unborn,
      co_stops = [], co_self_stop = False, co_refs = 1, co_joined = 0, co_detached = 0, co_destroyed = False\<rparr>"

section \<open>What the threads do\<close>

definition CancelOwner :: "CallbackThreadOwner \<Rightarrow> CallbackThreadOwner" where
  "CancelOwner s = s\<lparr>co_cancelled := True, co_listener_cancelled := True\<rparr>"

text \<open>\<open>Start\<close>: the thread runs from its construction on, and only then is it assigned to the member.\<close>

definition start_thread :: "CallbackThreadOwner \<Rightarrow> CallbackThreadOwner" where
  "start_thread s = s\<lparr>co_pc := InCallback, co_temporary := True\<rparr>"

definition assign_thread :: "CallbackThreadOwner \<Rightarrow> CallbackThreadOwner" where
  "assign_thread s = s\<lparr>co_temporary := False, co_worker := True\<rparr>"

definition detach :: "CallbackThreadOwner \<Rightarrow> CallbackThreadOwner" where
  "detach s = s\<lparr>co_worker := False, co_detached := co_detached s + 1\<rparr>"

text \<open>
  The locked part of \<open>StopAndJoin\<close>; \<open>self\<close> is whether the calling thread is the worker. The result is
  whether the thread was taken out to be joined.
\<close>

definition stop_locked :: "bool \<Rightarrow> CallbackThreadOwner \<Rightarrow> bool \<times> CallbackThreadOwner" where
  "stop_locked self s =
     (if \<not> co_worker s then (False, s)
      else if self then (False, detach s)
      else (True, s\<lparr>co_worker := False\<rparr>))"

definition WorkerExit :: "CallbackThreadOwner \<Rightarrow> CallbackThreadOwner" where
  "WorkerExit s = (if co_worker s then detach s else s)"

text \<open>The destructor: \<open>StopAndJoin\<close>, by the thread that held the last reference.\<close>

definition destroy :: "bool \<Rightarrow> CallbackThreadOwner \<Rightarrow> CallbackThreadOwner" where
  "destroy self s =
     (case stop_locked self (CancelOwner s) of
        (taken, s') \<Rightarrow> s'\<lparr>co_joined := co_joined s' + of_bool taken, co_destroyed := True\<rparr>)"

definition forget :: "nat \<Rightarrow> 'a list \<Rightarrow> 'a list" where
  "forget i xs = take i xs @ drop (Suc i) xs"

section \<open>Steps\<close>

text \<open>What somebody outside may begin: each of these threads holds a reference.\<close>

inductive outer_step :: "CallbackThreadOwner \<Rightarrow> CallbackThreadOwner \<Rightarrow> bool" where
  Start: "co_pc s = Unborn \<Longrightarrow> length (co_stops s) < co_refs s \<Longrightarrow> outer_step s (start_thread s)"
| Stop: "length (co_stops s) + of_bool (co_temporary s) < co_refs s \<Longrightarrow>
     outer_step s ((CancelOwner s)\<lparr>co_stops := Locking # co_stops s\<rparr>)"
| SelfStop: "co_pc s = InCallback \<Longrightarrow> \<not> co_self_stop s \<Longrightarrow> outer_step s ((CancelOwner s)\<lparr>co_self_stop := True\<rparr>)"
| Share: "0 < co_refs s \<Longrightarrow> outer_step s (s\<lparr>co_refs := co_refs s + 1\<rparr>)"
| LetGo: "length (co_stops s) + of_bool (co_temporary s) < co_refs s \<Longrightarrow>
     1 < co_refs s \<or> co_pc s \<noteq> Unborn \<and> co_pc s \<noteq> Gone \<Longrightarrow> outer_step s (s\<lparr>co_refs := co_refs s - 1\<rparr>)"
| LetGoLast: "co_refs s = 1 \<Longrightarrow> co_stops s = [] \<Longrightarrow> \<not> co_temporary s \<Longrightarrow> co_pc s = Unborn \<or> co_pc s = Gone \<Longrightarrow>
     outer_step s (destroy False (s\<lparr>co_refs := 0\<rparr>))"

text \<open>What has begun and goes on by itself; \<open>Join\<close> is the only step that waits for another thread.\<close>

inductive inner_step :: "CallbackThreadOwner \<Rightarrow> CallbackThreadOwner \<Rightarrow> bool" where
  Assign: "co_temporary s \<Longrightarrow> inner_step s (assign_thread s)"
| Lock: "i < length (co_stops s) \<Longrightarrow> co_stops s ! i = Locking \<Longrightarrow> stop_locked False s = (taken, s') \<Longrightarrow>
     inner_step s (s'\<lparr>co_stops := if taken then (co_stops s)[i := Joining] else forget i (co_stops s)\<rparr>)"
| Join: "i < length (co_stops s) \<Longrightarrow> co_stops s ! i = Joining \<Longrightarrow> co_pc s = Gone \<Longrightarrow>
     inner_step s (s\<lparr>co_stops := forget i (co_stops s), co_joined := co_joined s + 1\<rparr>)"
| SelfLock: "co_self_stop s \<Longrightarrow> inner_step s ((snd (stop_locked True s))\<lparr>co_self_stop := False\<rparr>)"
| Return: "co_pc s = InCallback \<Longrightarrow> \<not> co_self_stop s \<Longrightarrow> inner_step s (s\<lparr>co_pc := InExit\<rparr>)"
| Exit: "co_pc s = InExit \<Longrightarrow> inner_step s ((WorkerExit s)\<lparr>co_pc := Leaving\<rparr>)"
| Leave: "co_pc s = Leaving \<Longrightarrow>
     inner_step s ((if co_refs s = 0 then destroy True s else s)\<lparr>co_pc := Gone\<rparr>)"

inductive owner_run :: "CallbackThreadOwner \<Rightarrow> bool" where
  created: "owner_run new_CallbackThreadOwner"
| outer: "owner_run s \<Longrightarrow> outer_step s s' \<Longrightarrow> owner_run s'"
| inner: "owner_run s \<Longrightarrow> inner_step s s' \<Longrightarrow> owner_run s'"

section \<open>The thread object is in exactly one place\<close>

abbreviation joining :: "CallbackThreadOwner \<Rightarrow> nat" where
  "joining s \<equiv> length (filter (\<lambda>p. p = Joining) (co_stops s))"

definition handles :: "CallbackThreadOwner \<Rightarrow> nat" where
  "handles s = of_bool (co_temporary s) + of_bool (co_worker s) + joining s + co_joined s + co_detached s"

definition counted :: "CallbackThreadOwner \<Rightarrow> bool" where
  "counted s \<longleftrightarrow> handles s = of_bool (co_pc s \<noteq> Unborn)"

definition referenced :: "CallbackThreadOwner \<Rightarrow> bool" where
  "referenced s \<longleftrightarrow> length (co_stops s) + of_bool (co_temporary s) \<le> co_refs s"

definition in_phase :: "CallbackThreadOwner \<Rightarrow> bool" where
  "in_phase s \<longleftrightarrow> (co_self_stop s \<longrightarrow> co_pc s = InCallback) \<and> (0 < co_joined s \<longrightarrow> co_pc s = Gone) \<and>
     (co_stops s \<noteq> [] \<longrightarrow> co_cancelled s \<and> co_listener_cancelled s) \<and>
     (co_destroyed s \<longrightarrow> \<not> co_worker s) \<and>
     (co_destroyed s \<longleftrightarrow> co_refs s = 0 \<and> (co_pc s = Unborn \<or> co_pc s = Gone))"

definition owner_ok :: "CallbackThreadOwner \<Rightarrow> bool" where
  "owner_ok s \<longleftrightarrow> counted s \<and> referenced s \<and> in_phase s"

lemma owner_okD:
  "owner_ok s \<Longrightarrow> counted s" "owner_ok s \<Longrightarrow> referenced s" "owner_ok s \<Longrightarrow> in_phase s"
  by (simp_all add: owner_ok_def)

lemmas owner_defs = CancelOwner_def start_thread_def assign_thread_def detach_def stop_locked_def WorkerExit_def destroy_def

lemma forget_length: "i < length xs \<Longrightarrow> length (forget i xs) = length xs - 1"
  by (simp add: forget_def)

lemma forget_filter:
  assumes "i < length xs"
  shows "length (filter P xs) = length (filter P (forget i xs)) + of_bool (P (xs ! i))"
proof -
  have "xs = take i xs @ xs ! i # drop (Suc i) xs" using assms by (rule id_take_nth_drop)
  then have "length (filter P xs) = length (filter P (take i xs @ xs ! i # drop (Suc i) xs))" by simp
  then show ?thesis by (simp add: forget_def)
qed

lemma update_filter:
  assumes "i < length xs"
  shows "length (filter P (xs[i := y])) + of_bool (P (xs ! i)) = length (filter P xs) + of_bool (P y)"
proof -
  have "xs[i := y] = take i xs @ y # drop (Suc i) xs" using assms by (simp add: upd_conv_take_nth_drop)
  then show ?thesis using forget_filter [OF assms, of P] by (simp add: forget_def)
qed

lemma outer_counted: "outer_step s s' \<Longrightarrow> owner_ok s \<Longrightarrow> counted s'"
proof (induction rule: outer_step.induct)
  case (LetGoLast s)
  with owner_okD(1) [OF LetGoLast(5)] show ?case by (cases "co_worker s") (simp_all add: counted_def handles_def owner_defs)
qed (simp_all add: owner_ok_def counted_def handles_def owner_defs)

lemma outer_referenced: "outer_step s s' \<Longrightarrow> owner_ok s \<Longrightarrow> referenced s'"
  by (induction rule: outer_step.induct) (auto dest!: owner_okD(2) simp: referenced_def owner_defs)

lemma outer_in_phase: "outer_step s s' \<Longrightarrow> owner_ok s \<Longrightarrow> in_phase s'"
proof (induction rule: outer_step.induct)
  case (LetGoLast s)
  with owner_okD(1,3) [OF LetGoLast(5)] show ?case
    by (cases "co_worker s") (auto simp: in_phase_def counted_def handles_def owner_defs)
qed (auto dest!: owner_okD(3) simp: in_phase_def owner_defs)

lemma inner_counted: "inner_step s s' \<Longrightarrow> owner_ok s \<Longrightarrow> counted s'"
proof (induction rule: inner_step.induct)
  case (Lock i s taken s')
  have "length (filter (\<lambda>p. p = Joining) ((co_stops s)[i := Joining])) = joining s + 1"
    "length (filter (\<lambda>p. p = Joining) (forget i (co_stops s))) = joining s"
    using update_filter [OF Lock(1), of "\<lambda>p. p = Joining" Joining] forget_filter [OF Lock(1), of "\<lambda>p. p = Joining"] Lock(2) by simp_all
  with owner_okD(1) [OF Lock(4)] Lock(3) show ?case
    by (cases "co_worker s") (auto simp: counted_def handles_def stop_locked_def)
next
  case (Join i s)
  with forget_filter [OF Join(1), of "\<lambda>p. p = Joining"] owner_okD(1) [OF Join(4)] show ?case
    by (simp add: counted_def handles_def)
next
  case (SelfLock s)
  then show ?case by (cases "co_worker s") (auto dest!: owner_okD(1) simp: counted_def handles_def owner_defs)
next
  case (Exit s)
  then show ?case by (cases "co_worker s") (auto dest!: owner_okD(1) simp: counted_def handles_def owner_defs)
next
  case (Leave s)
  then show ?case by (cases "co_worker s"; cases "co_refs s = 0") (auto dest!: owner_okD(1) simp: counted_def handles_def owner_defs)
qed (auto dest!: owner_okD(1) simp: counted_def handles_def owner_defs)

lemma inner_referenced: "inner_step s s' \<Longrightarrow> owner_ok s \<Longrightarrow> referenced s'"
proof (induction rule: inner_step.induct)
  case (Lock i s taken s')
  with forget_length [OF Lock(1)] owner_okD(2) [OF Lock(4)] show ?case
    by (cases "co_worker s") (auto simp: referenced_def stop_locked_def)
next
  case (Join i s)
  with forget_length [OF Join(1)] owner_okD(2) [OF Join(4)] show ?case by (auto simp: referenced_def)
qed (auto dest!: owner_okD(2) simp: referenced_def owner_defs split: if_splits)

lemma inner_in_phase: "inner_step s s' \<Longrightarrow> owner_ok s \<Longrightarrow> in_phase s'"
proof (induction rule: inner_step.induct)
  case (Assign s)
  with owner_okD(2,3) [OF Assign(2)] show ?case by (auto simp: in_phase_def referenced_def owner_defs)
next
  case (Lock i s taken s')
  then have "co_stops s \<noteq> []" by auto
  with owner_okD(3) [OF Lock(4)] Lock(3) show ?case
    by (cases "co_worker s") (auto simp: in_phase_def stop_locked_def)
next
  case (Join i s)
  then have "co_stops s \<noteq> []" by auto
  with owner_okD(3) [OF Join(4)] Join(3) show ?case by (auto simp: in_phase_def)
qed (auto dest!: owner_okD(3) simp: in_phase_def owner_defs split: if_splits)

lemma owner_run_ok: "owner_run s \<Longrightarrow> owner_ok s"
proof (induction rule: owner_run.induct)
  case created
  then show ?case by (simp add: owner_ok_def counted_def handles_def referenced_def in_phase_def new_CallbackThreadOwner_def)
next
  case (outer s s')
  then show ?case unfolding owner_ok_def [of s'] using outer_counted outer_referenced outer_in_phase by blast
next
  case (inner s s')
  then show ?case unfolding owner_ok_def [of s'] using inner_counted inner_referenced inner_in_phase by blast
qed

text \<open>A destroyed object has nothing left to join.\<close>

lemma owner_ok_destroyed:
  assumes "owner_ok s" "co_destroyed s"
  shows "co_pc s = Unborn \<or> co_pc s = Gone \<and> co_joined s + co_detached s = 1"
proof -
  from owner_okD(3) [OF assms(1)] assms(2) have d: "co_refs s = 0" "\<not> co_worker s" "co_pc s = Unborn \<or> co_pc s = Gone"
    by (simp_all add: in_phase_def)
  from owner_okD(2) [OF assms(1)] d(1) have "co_stops s = []" "\<not> co_temporary s" by (simp_all add: referenced_def)
  with d owner_okD(1) [OF assms(1)] show ?thesis by (cases "co_pc s = Unborn") (simp_all add: counted_def handles_def)
qed

section \<open>Nobody waits for ever\<close>

fun worker_rank :: "WorkerPc \<Rightarrow> nat" where
  "worker_rank InCallback = 3"
| "worker_rank InExit = 2"
| "worker_rank Leaving = 1"
| "worker_rank _ = 0"

fun stop_rank :: "StopPc \<Rightarrow> nat" where
  "stop_rank Locking = 2"
| "stop_rank Joining = 1"

definition pending :: "CallbackThreadOwner \<Rightarrow> nat" where
  "pending s = worker_rank (co_pc s) + of_bool (co_temporary s) + of_bool (co_self_stop s) + sum_list (map stop_rank (co_stops s))"

lemma forget_sum:
  fixes f :: "'a \<Rightarrow> nat"
  assumes "i < length xs"
  shows "sum_list (map f xs) = sum_list (map f (forget i xs)) + f (xs ! i)"
proof -
  have "xs = take i xs @ xs ! i # drop (Suc i) xs" using assms by (rule id_take_nth_drop)
  then have "sum_list (map f xs) = sum_list (map f (take i xs @ xs ! i # drop (Suc i) xs))" by simp
  then show ?thesis by (simp add: forget_def)
qed

lemma update_sum:
  fixes f :: "'a \<Rightarrow> nat"
  assumes "i < length xs"
  shows "sum_list (map f (xs[i := y])) + f (xs ! i) = sum_list (map f xs) + f y"
proof -
  have "xs[i := y] = take i xs @ y # drop (Suc i) xs" using assms by (simp add: upd_conv_take_nth_drop)
  then show ?thesis using forget_sum [OF assms, of f] by (simp add: forget_def)
qed

lemma inner_step_decreases: "inner_step s s' \<Longrightarrow> pending s' < pending s"
proof (induction rule: inner_step.induct)
  case (Lock i s taken s')
  with update_sum [OF Lock(1), of stop_rank Joining] forget_sum [OF Lock(1), of stop_rank] show ?case
    by (auto simp: pending_def stop_locked_def split: if_splits)
next
  case (Join i s)
  with forget_sum [OF Join(1), of stop_rank] show ?case by (simp add: pending_def)
qed (auto simp: pending_def owner_defs split: if_splits)

lemma worker_moves: "co_pc s \<noteq> Unborn \<Longrightarrow> co_pc s \<noteq> Gone \<Longrightarrow> \<exists>s'. inner_step s s'"
  by (cases "co_pc s"; cases "co_self_stop s") (auto intro: inner_step.intros)

lemma stop_moves:
  assumes "owner_ok s" "co_stops s \<noteq> []"
  shows "\<exists>s'. inner_step s s'"
proof (cases "\<exists>i < length (co_stops s). co_stops s ! i = Locking")
  case True
  then obtain i where i: "i < length (co_stops s)" "co_stops s ! i = Locking" by blast
  obtain taken s' where "stop_locked False s = (taken, s')" by force
  with Lock [OF i] show ?thesis by blast
next
  case False
  then have j: "0 < length (co_stops s)" "co_stops s ! 0 = Joining" using assms(2) by (auto, metis StopPc.exhaust length_greater_0_conv)
  then have "0 < joining s" by (cases "co_stops s") auto
  with owner_okD(1) [OF assms(1)] have "co_pc s \<noteq> Unborn" by (auto simp: counted_def handles_def)
  with worker_moves Join [OF j] show ?thesis by (cases "co_pc s = Gone") auto
qed

end
