(* ===== verification/Owner_Properties.thy ===== *)
theory Owner_Properties
  imports Callback_Owner
begin

text \<open>The properties of the owner of the callback thread.\<close>

text \<open>
  C16. Whoever stops the callback and whenever, in every state of every run the thread object is in
  exactly one place: still in \<open>Start\<close>, in the member, in a call that joins it, joined, or detached; so it is
  never joined twice or after it was detached, and none is joinable when it is destroyed. The object is
  destroyed only when the thread has never run or is over, and then it was joined or detached. A call
  of \<open>StopAndJoin\<close> never waits for ever: while there is one, some thread can go on without anything new
  being begun, and this brings the number of things that are left to do down.
\<close>
theorem callback_thread_owned:
  assumes "owner_run s"
  shows "of_bool (co_temporary s) + of_bool (co_worker s) + length (filter (\<lambda>p. p = Joining) (co_stops s)) +
      co_joined s + co_detached s = of_bool (co_pc s \<noteq> Unborn) \<and>
    (co_destroyed s \<longrightarrow> co_pc s = Unborn \<or> co_pc s = Gone \<and> co_joined s + co_detached s = 1) \<and>
    (co_stops s \<noteq> [] \<longrightarrow> co_cancelled s \<and> co_listener_cancelled s \<and> (\<exists>s'. inner_step s s')) \<and>
    (\<forall>s'. inner_step s s' \<longrightarrow> pending s' < pending s)"
proof (intro conjI)
  note ok = owner_run_ok [OF assms]
  show "of_bool (co_temporary s) + of_bool (co_worker s) + length (filter (\<lambda>p. p = Joining) (co_stops s)) +
      co_joined s + co_detached s = of_bool (co_pc s \<noteq> Unborn)"
    using owner_okD(1) [OF ok] by (simp add: counted_def handles_def)
  show "co_destroyed s \<longrightarrow> co_pc s = Unborn \<or> co_pc s = Gone \<and> co_joined s + co_detached s = 1"
    using owner_ok_destroyed [OF ok] by blast
  show "co_stops s \<noteq> [] \<longrightarrow> co_cancelled s \<and> co_listener_cancelled s \<and> (\<exists>s'. inner_step s s')"
    using owner_okD(3) [OF ok] stop_moves [OF ok] unfolding in_phase_def by blast
  show "\<forall>s'. inner_step s s' \<longrightarrow> pending s' < pending s" by (simp add: inner_step_decreases)
qed

text \<open>A thread that has been started, and a call that joins it.\<close>

definition demo_owner :: CallbackThreadOwner where
  "demo_owner = assign_thread (start_thread new_CallbackThreadOwner)"

lemma demo_owner_runs: "owner_run (start_thread new_CallbackThreadOwner)" "owner_run demo_owner"
proof -
  show started: "owner_run (start_thread new_CallbackThreadOwner)"
    by (rule outer [OF created Start]) (simp_all add: new_CallbackThreadOwner_def)
  show "owner_run demo_owner"
    unfolding demo_owner_def by (rule inner [OF started Assign]) (simp add: start_thread_def)
qed

theorem callback_thread_owned_witness:
  "\<exists>s. owner_run s \<and> co_stops s = [Joining] \<and> \<not> co_worker s \<and> co_joined s + co_detached s = 0 \<and> (\<exists>s'. inner_step s s')"
proof -
  let ?a = "(CancelOwner demo_owner)\<lparr>co_stops := [Locking]\<rparr>"
  let ?b = "?a\<lparr>co_worker := False, co_stops := [Joining]\<rparr>"
  have "outer_step demo_owner ((CancelOwner demo_owner)\<lparr>co_stops := Locking # co_stops demo_owner\<rparr>)"
    by (rule Stop) (simp add: demo_owner_def assign_thread_def start_thread_def new_CallbackThreadOwner_def)
  then have a: "owner_run ?a"
    using outer [OF demo_owner_runs(2)]
    by (simp add: demo_owner_def assign_thread_def start_thread_def new_CallbackThreadOwner_def)
  have "inner_step ?a ((?a\<lparr>co_worker := False\<rparr>)\<lparr>co_stops := if True then (co_stops ?a)[0 := Joining] else forget 0 (co_stops ?a)\<rparr>)"
    by (rule Lock) (simp_all add: stop_locked_def demo_owner_def assign_thread_def start_thread_def new_CallbackThreadOwner_def CancelOwner_def)
  with inner [OF a] have b: "owner_run ?b" by simp
  from callback_thread_owned [OF b] b show ?thesis
    by (intro exI [of _ ?b]) (simp add: demo_owner_def assign_thread_def start_thread_def new_CallbackThreadOwner_def CancelOwner_def)
qed

text \<open>
  The assignment in \<open>Start\<close> is not under the lock: there is a run in which it and the locked reading of the
  same member in \<open>WorkerExit\<close> are both due.
\<close>
theorem start_races_with_exit:
  "\<exists>s. owner_run s \<and> inner_step s (assign_thread s) \<and> inner_step s ((WorkerExit s)\<lparr>co_pc := Leaving\<rparr>)"
proof -
  let ?s = "start_thread new_CallbackThreadOwner"
  have "owner_run (?s\<lparr>co_pc := InExit\<rparr>)"
    by (rule inner [OF demo_owner_runs(1) Return]) (simp_all add: start_thread_def new_CallbackThreadOwner_def)
  then show ?thesis by (intro exI [of _ "?s\<lparr>co_pc := InExit\<rparr>"]) (auto intro!: Assign Exit simp: start_thread_def)
qed

end
